theory Spec2Isabelle
  imports Complex_Main "HOL-Library.Word" "HOL-Library.AList" "HOL-Library.Log_Nat"
begin

unbundle bit_operations_syntax

chapter \<open>The model\<close>

section \<open>JavaScript values\<close>

text \<open>
  A JavaScript string is a sequence of 16-bit code units (\<open>charCodeAt\<close> reads one,
  \<open>String.fromCharCode\<close> builds one).  \<open>js_of\<close> writes an ASCII literal as such a
  string.
\<close>

type_synonym jsstring = "16 word list"

definition js_of :: "string \<Rightarrow> jsstring" where
  "js_of s = map (\<lambda>c. of_nat (of_char c)) s"

text \<open>
  A JavaScript number: \<open>NaN\<close>, an infinity, or a finite value, which is kept as the rational
  number it denotes.  The multiplication and the addition below round their result to an
  IEEE-754 double.  The sign of zero is not modelled (no operation below tells \<open>-0\<close> from
  \<open>0\<close>).
\<close>

datatype jsnum = NaN | NegInf | Fin rat | PosInf

text \<open>
  Rounding to a double.  \<open>binade x\<close> is the exponent of \<open>x \<noteq> 0\<close>: the integer \<open>e\<close> with
  \<open>2 powi e \<le> \<bar>x\<bar> < 2 powi (e + 1)\<close>.  A double has 53 significant bits, so the doubles
  near \<open>x\<close> are the multiples of \<open>2 powi (e - 52)\<close>, and below the smallest normal number
  \<open>2 powi (- 1022)\<close> the multiples of \<open>2 powi (- 1074)\<close>.  \<open>to_double x\<close> is the multiple nearest
  to \<open>x\<close>, the even one of two that are equally near, and an infinity when that multiple is
  \<open>2 powi 1024\<close> or more in size.  It is the value of a number literal, and an arithmetic
  operation returns its exact result rounded this way.
\<close>

definition binade :: "rat \<Rightarrow> int" where
  "binade x =
     (let (p, q) = quotient_of \<bar>x\<bar>; d = bitlen p - bitlen q
      in if 2 powi d \<le> \<bar>x\<bar> then d else d - 1)"

definition round_ties_even :: "rat \<Rightarrow> int" where
  "round_ties_even y =
     (let n = \<lfloor>y\<rfloor>; d = y - of_int n
      in if d < 1 / 2 then n else if 1 / 2 < d then n + 1 else if even n then n else n + 1)"

definition to_double :: "rat \<Rightarrow> jsnum" where
  "to_double x =
     (if x = 0 then Fin 0
      else (let e = max (binade x) (- 1022);
                ulp = 2 powi (e - 52);
                r = of_int (round_ties_even (x / ulp)) * ulp
            in if 2 powi 1024 \<le> \<bar>r\<bar> then (if 0 < x then PosInf else NegInf) else Fin r))"

fun num_lt :: "jsnum \<Rightarrow> jsnum \<Rightarrow> bool" where
  "num_lt NaN _ = False"
| "num_lt _ NaN = False"
| "num_lt NegInf NegInf = False"
| "num_lt NegInf _ = True"
| "num_lt (Fin a) (Fin b) = (a < b)"
| "num_lt (Fin a) PosInf = True"
| "num_lt (Fin a) NegInf = False"
| "num_lt PosInf _ = False"

text \<open>\<open>===\<close> on two numbers: \<open>NaN\<close> is equal to nothing.\<close>

fun num_seq :: "jsnum \<Rightarrow> jsnum \<Rightarrow> bool" where
  "num_seq NaN _ = False"
| "num_seq _ NaN = False"
| "num_seq a b = (a = b)"

fun num_mul :: "jsnum \<Rightarrow> jsnum \<Rightarrow> jsnum" where
  "num_mul NaN _ = NaN"
| "num_mul _ NaN = NaN"
| "num_mul (Fin a) (Fin b) = to_double (a * b)"
| "num_mul (Fin a) PosInf = (if a = 0 then NaN else if 0 < a then PosInf else NegInf)"
| "num_mul (Fin a) NegInf = (if a = 0 then NaN else if 0 < a then NegInf else PosInf)"
| "num_mul PosInf (Fin b) = (if b = 0 then NaN else if 0 < b then PosInf else NegInf)"
| "num_mul NegInf (Fin b) = (if b = 0 then NaN else if 0 < b then NegInf else PosInf)"
| "num_mul PosInf PosInf = PosInf"
| "num_mul PosInf NegInf = NegInf"
| "num_mul NegInf PosInf = NegInf"
| "num_mul NegInf NegInf = PosInf"

fun num_add :: "jsnum \<Rightarrow> jsnum \<Rightarrow> jsnum" where
  "num_add NaN _ = NaN"
| "num_add _ NaN = NaN"
| "num_add (Fin a) (Fin b) = to_double (a + b)"
| "num_add (Fin a) PosInf = PosInf"
| "num_add (Fin a) NegInf = NegInf"
| "num_add PosInf (Fin b) = PosInf"
| "num_add NegInf (Fin b) = NegInf"
| "num_add PosInf PosInf = PosInf"
| "num_add NegInf NegInf = NegInf"
| "num_add PosInf NegInf = NaN"
| "num_add NegInf PosInf = NaN"

text \<open>
  \<open>Math.round\<close>: the nearest integer, a tie going up.  The result is exact: an integer
  nearest to a double is a double.
\<close>

fun Math_round :: "jsnum \<Rightarrow> jsnum" where
  "Math_round (Fin a) = Fin (of_int \<lfloor>a + 1 / 2\<rfloor>)"
| "Math_round x = x"

text \<open>
  A JavaScript value.  An object is the list of its own enumerable properties, in the order
  in which the platform enumerates them.  \<open>JBuiltin\<close> stands for a function of the platform
  (a method of \<open>Object.prototype\<close> or \<open>Array.prototype\<close>): it is truthy, it is neither a
  string, a number nor an array, and \<open>JSON.stringify\<close> leaves it out of an object and writes
  \<open>null\<close> for it in an array.
\<close>

datatype jsval =
    JUndefined
  | JNull
  | JBool bool
  | JNum jsnum
  | JStr jsstring
  | JArr "jsval list"
  | JObj "(jsstring \<times> jsval) list"
  | JBuiltin

section \<open>URLs\<close>

text \<open>
  \<open>new URL(s)\<close> is the platform's parser.  It is a parameter of the model: a function
  that gives the parts the code reads, or \<open>None\<close> where the constructor throws.
\<close>

record parsed_url =
  origin :: jsstring
  pathname :: jsstring
  protocol :: jsstring
  href :: jsstring

type_synonym url_parser = "jsstring \<Rightarrow> parsed_url option"

text \<open>\<open>s.replace(/\/+$/, '')\<close>: every trailing slash is removed.\<close>

definition strip_trailing_slashes :: "jsstring \<Rightarrow> jsstring" where
  "strip_trailing_slashes s = rev (dropWhile (\<lambda>c. c = 0x2F) (rev s))"

section \<open>The server pool (client/src/server-pool.js)\<close>

record server =
  url :: jsstring
  priority :: int
  healthy :: bool
  latency :: jsnum
  failCount :: nat
  lastCheck :: int
  successCount :: nat
  totalRequests :: nat

datatype strategy = Fastest | RoundRobin | ByPriority | OtherStrategy

record pool_options =
  strategy :: strategy
  healthCheckInterval :: int
  maxFailures :: int
  recoveryTime :: int
  timeout :: int

text \<open>
  The private fields of \<open>ServerPool\<close>.  \<open>#servers\<close> is a \<open>Map\<close>: an association
  list in insertion order, one entry per key.  The health-check timer is left out.
\<close>

record pool =
  servers :: "(jsstring \<times> server) list"
  options :: pool_options
  roundRobinIndex :: nat

text \<open>The constructor: \<open>x || d\<close> takes the default for a missing or zero option.\<close>

definition or_default :: "int option \<Rightarrow> int \<Rightarrow> int" where
  "or_default x d = (case x of None \<Rightarrow> d | Some v \<Rightarrow> if v = 0 then d else v)"

definition new_ServerPool ::
  "strategy option \<Rightarrow> int option \<Rightarrow> int option \<Rightarrow> int option \<Rightarrow> int option \<Rightarrow> pool" where
  "new_ServerPool strat hci mf rt tmo =
     \<lparr> servers = [],
       options = \<lparr> strategy = (case strat of None \<Rightarrow> Fastest | Some s \<Rightarrow> s),
                   healthCheckInterval = or_default hci 30000,
                   maxFailures = or_default mf 3,
                   recoveryTime = or_default rt 60000,
                   timeout = or_default tmo 5000 \<rparr>,
       roundRobinIndex = 0 \<rparr>"

definition normalizeUrl :: "url_parser \<Rightarrow> jsstring \<Rightarrow> jsstring" where
  "normalizeUrl U u =
     (case U u of
        Some parsed \<Rightarrow> origin parsed @ strip_trailing_slashes (pathname parsed)
      | None \<Rightarrow> strip_trailing_slashes u)"

text \<open>\<open>addServer(url, priority = 10)\<close>; \<open>None\<close> is an omitted priority.\<close>

definition addServer :: "url_parser \<Rightarrow> jsstring \<Rightarrow> int option \<Rightarrow> pool \<Rightarrow> server \<times> pool" where
  "addServer U u prio p =
     (let normalizedUrl = normalizeUrl U u;
          priority = (case prio of None \<Rightarrow> 10 | Some n \<Rightarrow> n)
      in case map_of (servers p) normalizedUrl of
           Some existing \<Rightarrow>
             (let existing' = existing\<lparr>priority := priority\<rparr>
              in (existing', p\<lparr>servers := AList.update normalizedUrl existing' (servers p)\<rparr>))
         | None \<Rightarrow>
             (let serverInfo = \<lparr> url = normalizedUrl, priority = priority, healthy = True,
                                 latency = PosInf, failCount = 0, lastCheck = 0,
                                 successCount = 0, totalRequests = 0 \<rparr>
              in (serverInfo, p\<lparr>servers := AList.update normalizedUrl serverInfo (servers p)\<rparr>)))"

definition removeServer :: "url_parser \<Rightarrow> jsstring \<Rightarrow> pool \<Rightarrow> bool \<times> pool" where
  "removeServer U u p =
     (let normalizedUrl = normalizeUrl U u
      in (map_of (servers p) normalizedUrl \<noteq> None,
          p\<lparr>servers := AList.delete normalizedUrl (servers p)\<rparr>))"

definition getAllServers :: "pool \<Rightarrow> server list" where
  "getAllServers p = map snd (servers p)"

text \<open>
  \<open>getHealthyServers\<close> reads the clock once (\<open>now\<close>) and, while filtering, marks a server
  whose recovery time has passed healthy again: it returns the list and the changed pool.
\<close>

definition revive :: "pool_options \<Rightarrow> int \<Rightarrow> server \<Rightarrow> server" where
  "revive opts now s =
     (if healthy s then s
      else if now - lastCheck s > recoveryTime opts then s\<lparr>healthy := True, failCount := 0\<rparr>
      else s)"

definition getHealthyServers :: "int \<Rightarrow> pool \<Rightarrow> server list \<times> pool" where
  "getHealthyServers now p =
     (let servers' = map (\<lambda>(k, s). (k, revive (options p) now s)) (servers p)
      in (filter healthy (map snd servers'), p\<lparr>servers := servers'\<rparr>))"

text \<open>\<open>typeof latency === 'number' && latency > 0\<close>\<close>

fun positive_number :: "jsval \<Rightarrow> jsnum option" where
  "positive_number (JNum n) = (if num_lt (Fin 0) n then Some n else None)"
| "positive_number _ = None"

text \<open>
  The update of the estimate in \<open>reportSuccess\<close>.  \<open>0.7\<close> and \<open>0.3\<close> are the doubles nearest
  to 7/10 and 3/10, and the two products and the sum are each rounded to a double before
  \<open>Math.round\<close> is applied.
\<close>

definition update_latency :: "jsval \<Rightarrow> server \<Rightarrow> server" where
  "update_latency sample s =
     (case positive_number sample of
        Some l \<Rightarrow>
          (if num_seq (latency s) PosInf then s\<lparr>latency := l\<rparr>
           else s\<lparr>latency :=
                  Math_round (num_add (num_mul (latency s) (to_double (7 / 10)))
                                      (num_mul l (to_double (3 / 10))))\<rparr>)
      | None \<Rightarrow> s)"

definition reportSuccess :: "url_parser \<Rightarrow> int \<Rightarrow> jsstring \<Rightarrow> jsval \<Rightarrow> pool \<Rightarrow> pool" where
  "reportSuccess U now u sample p =
     (let normalizedUrl = normalizeUrl U u
      in case map_of (servers p) normalizedUrl of
           Some s \<Rightarrow>
             (let s1 = s\<lparr>healthy := True, failCount := 0, successCount := successCount s + 1,
                        totalRequests := totalRequests s + 1, lastCheck := now\<rparr>
              in p\<lparr>servers := AList.update normalizedUrl (update_latency sample s1) (servers p)\<rparr>)
         | None \<Rightarrow> p)"

definition reportFailure :: "url_parser \<Rightarrow> int \<Rightarrow> jsstring \<Rightarrow> pool \<Rightarrow> pool" where
  "reportFailure U now u p =
     (let normalizedUrl = normalizeUrl U u
      in case map_of (servers p) normalizedUrl of
           Some s \<Rightarrow>
             (let s1 = s\<lparr>failCount := failCount s + 1, totalRequests := totalRequests s + 1,
                        lastCheck := now\<rparr>;
                  s2 = (if int (failCount s1) \<ge> maxFailures (options p)
                        then s1\<lparr>healthy := False\<rparr> else s1)
              in p\<lparr>servers := AList.update normalizedUrl s2 (servers p)\<rparr>)
         | None \<Rightarrow> p)"

text \<open>
  \<open>servers.reduce(f)\<close> without an initial value starts from the first element and throws
  a \<open>TypeError\<close> on an empty array.
\<close>

datatype js_error = TypeError | InvalidCharacterError | SyntaxError

definition faster :: "server \<Rightarrow> server \<Rightarrow> server" where
  "faster best s =
     (if num_lt (latency s) (latency best) then s
      else if num_seq (latency s) (latency best) \<and> priority s < priority best then s
      else best)"

fun selectFastest :: "server list \<Rightarrow> js_error + server" where
  "selectFastest [] = Inl TypeError"
| "selectFastest (s # ss) = Inr (foldl faster s ss)"

fun selectByPriority :: "server list \<Rightarrow> js_error + server" where
  "selectByPriority [] = Inl TypeError"
| "selectByPriority (s # ss) =
     Inr (foldl (\<lambda>best s. if priority s < priority best then s else best) s ss)"

definition selectRoundRobin :: "server list \<Rightarrow> pool \<Rightarrow> server option \<times> pool" where
  "selectRoundRobin ss p =
     (let index = roundRobinIndex p mod length ss
      in ((if index < length ss then Some (ss ! index) else None),
          p\<lparr>roundRobinIndex := roundRobinIndex p + 1\<rparr>))"

text \<open>
  \<open>selectServer\<close> returns \<open>null\<close> (\<open>None\<close>) when no server is healthy.  The pool comes
  back changed by \<open>getHealthyServers\<close> and by the round-robin counter.
\<close>

definition selectServer :: "int \<Rightarrow> pool \<Rightarrow> js_error + (server option \<times> pool)" where
  "selectServer now p =
     (let (hs, p1) = getHealthyServers now p
      in if hs = [] then Inr (None, p1)
         else (case strategy (options p1) of
                 Fastest \<Rightarrow> map_sum id (\<lambda>s. (Some s, p1)) (selectFastest hs)
               | RoundRobin \<Rightarrow> Inr (selectRoundRobin hs p1)
               | ByPriority \<Rightarrow> map_sum id (\<lambda>s. (Some s, p1)) (selectByPriority hs)
               | OtherStrategy \<Rightarrow> map_sum id (\<lambda>s. (Some s, p1)) (selectFastest hs)))"

definition getNextServer ::
  "url_parser \<Rightarrow> int \<Rightarrow> jsstring \<Rightarrow> pool \<Rightarrow> js_error + (server option \<times> pool)" where
  "getNextServer U now excludeUrl p =
     (let normalizedExclude = normalizeUrl U excludeUrl;
          (hs0, p1) = getHealthyServers now p;
          hs = filter (\<lambda>s. url s \<noteq> normalizedExclude) hs0
      in if hs = [] then Inr (None, p1)
         else map_sum id (\<lambda>s. (Some s, p1)) (selectFastest hs))"

text \<open>
  \<open>beats s best\<close> is the test of the reducer in \<open>#selectFastest\<close>: the candidate \<open>s\<close>
  replaces the running best.
\<close>

definition beats :: "server \<Rightarrow> server \<Rightarrow> bool" where
  "beats s b \<longleftrightarrow>
     num_lt (latency s) (latency b) \<or> (num_seq (latency s) (latency b) \<and> priority s < priority b)"

text \<open>A server record as \<open>addServer\<close> creates it, with a given priority and latency.\<close>

definition srv :: "jsstring \<Rightarrow> int \<Rightarrow> jsnum \<Rightarrow> server" where
  "srv u pr l = \<lparr> url = u, priority = pr, healthy = True, latency = l, failCount = 0,
                  lastCheck = 0, successCount = 0, totalRequests = 0 \<rparr>"

section \<open>The failover loop (client/src/index.js)\<close>

text \<open>
  What \<open>bareFetch\<close> throws: an error with a \<open>code\<close> and a \<open>message\<close>.
\<close>

record upstream_error =
  code :: jsstring
  message :: jsstring

text \<open>
  The network is a parameter: for each server URL, \<open>bareFetch\<close> either resolves to a
  response (with the latency the caller then measures, \<open>performance.now() - startTime\<close>) or
  throws an error; the flag is \<open>options.signal?.aborted\<close> as the \<open>catch\<close> block reads it.
\<close>

datatype 'r attempt = Responds 'r jsval | Throws upstream_error bool

type_synonym 'r transport = "jsstring \<Rightarrow> 'r attempt"

text \<open>
  How \<open>OpenBareClient.fetch\<close> ends: it returns a response, rethrows an error after an
  abort, throws \<open>ALL_SERVERS_FAILED\<close> (with \<open>attemptedServers.size\<close> and \<open>lastError\<close>), or
  lets an exception of the pool escape.
\<close>

datatype 'r fetch_result =
    Resolved 'r
  | Rejected upstream_error
  | AllServersFailed nat "upstream_error option"
  | Uncaught js_error

text \<open>
  The inner loop \<open>while (server && attemptedServers.has(server.url)) server =
  this.#pool.getNextServer(server.url)\<close>.  It may run forever, so it is a partial function:
  \<open>None\<close> is the loop that never exits.  Every call of the pool reads the clock; \<open>clock t\<close>
  is the value of \<open>Date.now()\<close> at its \<open>t\<close>-th reading.
\<close>

partial_function (option) skipAttempted ::
  "url_parser \<Rightarrow> (nat \<Rightarrow> int) \<Rightarrow> jsstring list \<Rightarrow> server option \<Rightarrow> pool \<Rightarrow> nat
     \<Rightarrow> (js_error + (server option \<times> pool \<times> nat)) option" where
  "skipAttempted U clock attempted server p t =
     (case server of
        None \<Rightarrow> Some (Inr (None, p, t))
      | Some s \<Rightarrow>
          if url s \<in> set attempted
          then (case getNextServer U (clock t) (url s) p of
                  Inl e \<Rightarrow> Some (Inl e)
                | Inr (server', p') \<Rightarrow> skipAttempted U clock attempted server' p' (Suc t))
          else Some (Inr (Some s, p, t)))"

text \<open>
  The \<open>for\<close> loop of \<open>fetch\<close>, with the number of iterations left, \<open>lastError\<close> and the
  set \<open>attemptedServers\<close> (a list without duplicates, in insertion order).
\<close>

fun fetch_loop ::
  "nat \<Rightarrow> url_parser \<Rightarrow> (nat \<Rightarrow> int) \<Rightarrow> 'r transport \<Rightarrow> upstream_error option \<Rightarrow> jsstring list
     \<Rightarrow> pool \<Rightarrow> nat \<Rightarrow> ('r fetch_result \<times> pool \<times> nat) option" where
  "fetch_loop 0 U clock T lastError attempted p t =
     Some (AllServersFailed (length attempted) lastError, p, t)"
| "fetch_loop (Suc n) U clock T lastError attempted p t =
     (case selectServer (clock t) p of
        Inl e \<Rightarrow> Some (Uncaught e, p, Suc t)
      | Inr (server0, p0) \<Rightarrow>
          (case skipAttempted U clock attempted server0 p0 (Suc t) of
             None \<Rightarrow> None
           | Some (Inl e) \<Rightarrow> Some (Uncaught e, p0, Suc t)
           | Some (Inr (None, p1, t1)) \<Rightarrow>
               Some (AllServersFailed (length attempted) lastError, p1, t1)
           | Some (Inr (Some s, p1, t1)) \<Rightarrow>
               (case T (url s) of
                  Responds response lat \<Rightarrow>
                    Some (Resolved response, reportSuccess U (clock t1) (url s) lat p1, Suc t1)
                | Throws err aborted \<Rightarrow>
                    (let p2 = reportFailure U (clock t1) (url s) p1
                     in if code err = js_of ''ABORT'' \<or> aborted
                        then Some (Rejected err, p2, Suc t1)
                        else fetch_loop n U clock T (Some err) (List.insert (url s) attempted)
                               p2 (Suc t1)))))"

text \<open>
  \<open>fetch(url, options)\<close>: \<open>maxRetries = options.retries || this.#options.retries\<close>.
\<close>

definition fetch ::
  "url_parser \<Rightarrow> (nat \<Rightarrow> int) \<Rightarrow> 'r transport \<Rightarrow> nat option \<Rightarrow> nat \<Rightarrow> pool \<Rightarrow> nat
     \<Rightarrow> ('r fetch_result \<times> pool \<times> nat) option" where
  "fetch U clock T retries clientRetries p t =
     (let maxRetries = (case retries of None \<Rightarrow> clientRetries
                        | Some r \<Rightarrow> if r = 0 then clientRetries else r)
      in fetch_loop maxRetries U clock T None [] p t)"

section \<open>Property access and truthiness\<close>

text \<open>\<open>ToBoolean\<close>: what \<open>!v\<close>, \<open>v || w\<close> and \<open>Boolean(v)\<close> test.\<close>

fun truthy :: "jsval \<Rightarrow> bool" where
  "truthy JUndefined = False"
| "truthy JNull = False"
| "truthy (JBool b) = b"
| "truthy (JNum n) = (n \<noteq> NaN \<and> n \<noteq> Fin 0)"
| "truthy (JStr s) = (s \<noteq> [])"
| "truthy (JArr _) = True"
| "truthy (JObj _) = True"
| "truthy JBuiltin = True"

definition js_or :: "jsval \<Rightarrow> jsval \<Rightarrow> jsval" where
  "js_or a b = (if truthy a then a else b)"

text \<open>
  \<open>v.k\<close> for a property name \<open>k\<close> that is neither an array index nor a member of a
  built-in prototype (the names read below are \<open>nodes\<close>, \<open>servers\<close>, \<open>url\<close>, \<open>name\<close>,
  \<open>region\<close>, \<open>operator\<close>, \<open>verified\<close>, \<open>features\<close> and \<open>uptime\<close>): the own property of
  an object, \<open>undefined\<close> on any other value, and a \<open>TypeError\<close> on \<open>null\<close> and
  \<open>undefined\<close>.
\<close>

fun get_prop :: "jsval \<Rightarrow> jsstring \<Rightarrow> js_error + jsval" where
  "get_prop JUndefined k = Inl TypeError"
| "get_prop JNull k = Inl TypeError"
| "get_prop (JObj kvs) k = Inr (case map_of kvs k of Some v \<Rightarrow> v | None \<Rightarrow> JUndefined)"
| "get_prop _ k = Inr JUndefined"

section \<open>The discovery client (client/src/discovery.js)\<close>

record registry_node =
  node_url :: jsstring
  node_name :: jsval
  node_region :: jsval
  node_operator :: jsval
  node_verified :: bool
  node_features :: "jsval list"
  node_uptime :: jsval

record discovery_options =
  opt_registryUrl :: jsstring
  refreshInterval :: int
  autoRefresh :: bool
  opt_region :: "jsstring option"
  verifiedOnly :: bool

text \<open>
  The private fields of \<open>Discovery\<close>.  A listener is a callback of the embedding program:
  it is known by a number, and \<open>notified\<close> records each call made to one, with the node
  list it was given.  The refresh timer is left out.
\<close>

record discovery =
  registryUrl :: jsstring
  nodes :: "registry_node list"
  lastFetch :: int
  disc_options :: discovery_options
  listeners :: "nat list"
  notified :: "(nat \<times> registry_node list) list"

text \<open>
  The registry is a parameter.  A request is the parsed registry URL with the query
  parameters set on it; the reply is a network error (\<open>fetch\<close> rejects), or a response
  with its \<open>ok\<close> flag, its status and what \<open>response.json()\<close> gives (\<open>None\<close> when the body
  is not JSON and \<open>json()\<close> rejects).
\<close>

record registry_request =
  req_url :: parsed_url
  req_params :: "(jsstring \<times> jsstring) list"

datatype registry_reply = NetworkError jsstring | Reply bool int "jsval option"

type_synonym registry = "registry_request \<Rightarrow> registry_reply"

record fetch_filters =
  flt_region :: "jsstring option"
  flt_verifiedOnly :: bool
  flt_features :: "jsstring list option"

text \<open>What the \<open>try\<close> block of \<open>fetchNodes\<close> can throw, by cause.\<close>

datatype fetch_failure =
    InvalidRegistryUrl
  | FetchRejected jsstring
  | RegistryReturned int
  | BodyNotJson
  | NotAList

text \<open>\<open>new DiscoveryError(`Failed to fetch nodes: ...`, 'FETCH_ERROR')\<close>, with its cause.\<close>

datatype discovery_error = DiscoveryError fetch_failure

definition isValidNode :: "url_parser \<Rightarrow> jsval \<Rightarrow> bool" where
  "isValidNode U node =
     (case node of
        JObj kvs \<Rightarrow>
          (case map_of kvs (js_of ''url'') of
             Some (JStr u) \<Rightarrow> u \<noteq> [] \<and> U u \<noteq> None
           | _ \<Rightarrow> False)
      | _ \<Rightarrow> False)"

definition prop_or_undefined :: "jsval \<Rightarrow> jsstring \<Rightarrow> jsval" where
  "prop_or_undefined v k = (case get_prop v k of Inr x \<Rightarrow> x | Inl _ \<Rightarrow> JUndefined)"

definition normalizeNode :: "jsval \<Rightarrow> registry_node" where
  "normalizeNode node =
     \<lparr> node_url = (case prop_or_undefined node (js_of ''url'') of JStr u \<Rightarrow> u | _ \<Rightarrow> []),
       node_name = js_or (prop_or_undefined node (js_of ''name'')) JNull,
       node_region = js_or (prop_or_undefined node (js_of ''region'')) JNull,
       node_operator = js_or (prop_or_undefined node (js_of ''operator'')) JNull,
       node_verified = truthy (prop_or_undefined node (js_of ''verified'')),
       node_features = (case prop_or_undefined node (js_of ''features'') of JArr fs \<Rightarrow> fs | _ \<Rightarrow> []),
       node_uptime = (case prop_or_undefined node (js_of ''uptime'') of JNum n \<Rightarrow> JNum n | _ \<Rightarrow> JNull) \<rparr>"

text \<open>
  \<open>#notifyListeners\<close>: every listener is called with a copy of the node list; what a
  listener throws is caught.
\<close>

definition notifyListeners :: "discovery \<Rightarrow> discovery" where
  "notifyListeners d = d\<lparr>notified := notified d @ map (\<lambda>l. (l, nodes d)) (listeners d)\<rparr>"

text \<open>The query parameters \<open>fetchNodes\<close> sets, in its order.\<close>

definition query_params :: "discovery_options \<Rightarrow> fetch_filters \<Rightarrow> (jsstring \<times> jsstring) list" where
  "query_params opts filters =
     (let region_opt = (case opt_region opts of Some r \<Rightarrow> if r = [] then None else Some r | None \<Rightarrow> None);
          region_flt = (case flt_region filters of Some r \<Rightarrow> if r = [] then None else Some r | None \<Rightarrow> None);
          ps1 = (case (region_opt, region_flt) of
                   (None, None) \<Rightarrow> []
                 | (_, Some r) \<Rightarrow> [(js_of ''region'', r)]
                 | (Some r, None) \<Rightarrow> [(js_of ''region'', r)]);
          ps2 = (if verifiedOnly opts \<or> flt_verifiedOnly filters
                 then AList.update (js_of ''verified'') (js_of ''true'') ps1 else ps1);
          ps3 = (case flt_features filters of
                   Some fs \<Rightarrow> AList.update (js_of ''features'')
                                (concat (case fs of [] \<Rightarrow> [] | f # fs' \<Rightarrow> f # map (\<lambda>x. js_of '','' @ x) fs')) ps2
                 | None \<Rightarrow> ps2)
      in ps3)"

text \<open>
  \<open>Array.isArray(data) ? data : (data.nodes || data.servers || [])\<close>, then \<open>nodes.filter\<close>:
  a value that is not an array has no \<open>filter\<close> to call.
\<close>

definition node_list :: "jsval \<Rightarrow> js_error + jsval list" where
  "node_list data =
     (case data of
        JArr xs \<Rightarrow> Inr xs
      | _ \<Rightarrow>
          (case get_prop data (js_of ''nodes'') of
             Inl e \<Rightarrow> Inl e
           | Inr n \<Rightarrow>
               (case (if truthy n then Inr n else get_prop data (js_of ''servers'')) of
                  Inl e \<Rightarrow> Inl e
                | Inr s \<Rightarrow>
                    (case js_or s (JArr []) of
                       JArr xs \<Rightarrow> Inr xs
                     | _ \<Rightarrow> Inl TypeError))))"

definition fetchNodes ::
  "url_parser \<Rightarrow> registry \<Rightarrow> int \<Rightarrow> fetch_filters \<Rightarrow> discovery
     \<Rightarrow> (discovery_error + registry_node list) \<times> discovery" where
  "fetchNodes U R now filters d =
     (case U (registryUrl d) of
        None \<Rightarrow> (Inl (DiscoveryError InvalidRegistryUrl), d)
      | Some u \<Rightarrow>
          (case R \<lparr> req_url = u, req_params = query_params (disc_options d) filters \<rparr> of
             NetworkError m \<Rightarrow> (Inl (DiscoveryError (FetchRejected m)), d)
           | Reply ok status body \<Rightarrow>
               if \<not> ok then (Inl (DiscoveryError (RegistryReturned status)), d)
               else (case body of
                       None \<Rightarrow> (Inl (DiscoveryError BodyNotJson), d)
                     | Some data \<Rightarrow>
                         (case node_list data of
                            Inl e \<Rightarrow> (Inl (DiscoveryError NotAList), d)
                          | Inr ns \<Rightarrow>
                              (let d1 = d\<lparr>nodes := map normalizeNode (filter (isValidNode U) ns)\<rparr>;
                                   d2 = d1\<lparr>lastFetch := now\<rparr>;
                                   d3 = notifyListeners d2
                               in (Inr (nodes d3), d3))))))"

text \<open>A normalised node, for examples.\<close>

definition example_node :: registry_node where
  "example_node = \<lparr> node_url = js_of ''https://n1.example'', node_name = JNull, node_region = JNull,
                     node_operator = JNull, node_verified = False, node_features = [],
                     node_uptime = JNull \<rparr>"

section \<open>Strings and numbers of the platform\<close>

text \<open>
  \<open>String.prototype.toLowerCase\<close>, on the letters A to Z.  (JavaScript also maps capital
  letters outside ASCII; header names are ASCII.)
\<close>

definition lower_unit :: "16 word \<Rightarrow> 16 word" where
  "lower_unit c = (if 0x41 \<le> c \<and> c \<le> 0x5A then c + 0x20 else c)"

definition toLowerCase :: "jsstring \<Rightarrow> jsstring" where
  "toLowerCase s = map lower_unit s"

text \<open>\<open>Array.prototype.join\<close> on strings.\<close>

fun join :: "jsstring \<Rightarrow> jsstring list \<Rightarrow> jsstring" where
  "join sep [] = []"
| "join sep [x] = x"
| "join sep (x # y # ys) = x @ sep @ join sep (y # ys)"

text \<open>\<open>s.split(',')\<close>: the pieces between commas; an empty string gives one empty piece.\<close>

fun split_comma :: "jsstring \<Rightarrow> jsstring list" where
  "split_comma [] = [[]]"
| "split_comma (c # cs) =
     (if c = 0x2C then [] # split_comma cs
      else (case split_comma cs of p # ps \<Rightarrow> (c # p) # ps | [] \<Rightarrow> [[c]]))"

text \<open>\<open>String.prototype.trim\<close>: white space and line terminators of ECMAScript.\<close>

definition is_js_space :: "16 word \<Rightarrow> bool" where
  "is_js_space c \<longleftrightarrow>
     c \<in> {0x09, 0x0A, 0x0B, 0x0C, 0x0D, 0x20, 0xA0, 0x1680, 0x2028, 0x2029, 0x202F, 0x205F,
          0x3000, 0xFEFF} \<or> (0x2000 \<le> c \<and> c \<le> 0x200A)"

definition trim :: "jsstring \<Rightarrow> jsstring" where
  "trim s = rev (dropWhile is_js_space (rev (dropWhile is_js_space s)))"

text \<open>Decimal digits of a natural number, and \<open>Number.prototype.toString\<close> on an integer.\<close>

function dec_digits :: "nat \<Rightarrow> jsstring" where
  "dec_digits n = (if n < 10 then [of_nat (48 + n)] else dec_digits (n div 10) @ [of_nat (48 + n mod 10)])"
  by pat_completeness auto

termination
  by (relation "measure id") auto

declare dec_digits.simps [simp del]

definition int_toString :: "int \<Rightarrow> jsstring" where
  "int_toString i = (if i < 0 then 0x2D # dec_digits (nat (- i)) else dec_digits (nat i))"

text \<open>
  The text of a number.  An integer is written in decimal.  For a number that is not an
  integer the digits after the point are those of its decimal expansion, at most 17: the
  shortest form that JavaScript chooses for a double is not modelled.
\<close>

fun frac_digits :: "nat \<Rightarrow> rat \<Rightarrow> jsstring" where
  "frac_digits 0 r = []"
| "frac_digits (Suc k) r =
     (if r = 0 then []
      else of_nat (48 + nat \<lfloor>r * 10\<rfloor>) # frac_digits k (r * 10 - of_int \<lfloor>r * 10\<rfloor>))"

fun Number_toString :: "jsnum \<Rightarrow> jsstring" where
  "Number_toString NaN = js_of ''NaN''"
| "Number_toString PosInf = js_of ''Infinity''"
| "Number_toString NegInf = js_of ''-Infinity''"
| "Number_toString (Fin q) =
     (if q = of_int \<lfloor>q\<rfloor> then int_toString \<lfloor>q\<rfloor>
      else (if q < 0 then [0x2D] else []) @ dec_digits (nat \<lfloor>\<bar>q\<bar>\<rfloor>) @ [0x2E]
           @ frac_digits 17 (\<bar>q\<bar> - of_int \<lfloor>\<bar>q\<bar>\<rfloor>))"

section \<open>JSON\<close>

subsection \<open>\<open>JSON.stringify\<close>\<close>

definition hex_digit :: "nat \<Rightarrow> 16 word" where
  "hex_digit n = (if n < 10 then of_nat (48 + n) else of_nat (87 + n))"

text \<open>\<open>\uXXXX\<close> with lower-case hexadecimal digits.\<close>

definition unicode_escape :: "16 word \<Rightarrow> jsstring" where
  "unicode_escape c =
     [0x5C, 0x75, hex_digit (unat c div 4096), hex_digit (unat c div 256 mod 16),
      hex_digit (unat c div 16 mod 16), hex_digit (unat c mod 16)]"

definition is_high_surrogate :: "16 word \<Rightarrow> bool" where
  "is_high_surrogate c \<longleftrightarrow> 0xD800 \<le> c \<and> c \<le> 0xDBFF"

definition is_low_surrogate :: "16 word \<Rightarrow> bool" where
  "is_low_surrogate c \<longleftrightarrow> 0xDC00 \<le> c \<and> c \<le> 0xDFFF"

definition quote_unit :: "16 word \<Rightarrow> jsstring" where
  "quote_unit c =
     (if c = 0x08 then [0x5C, 0x62]
      else if c = 0x09 then [0x5C, 0x74]
      else if c = 0x0A then [0x5C, 0x6E]
      else if c = 0x0C then [0x5C, 0x66]
      else if c = 0x0D then [0x5C, 0x72]
      else if c = 0x22 then [0x5C, 0x22]
      else if c = 0x5C then [0x5C, 0x5C]
      else if c < 0x20 then unicode_escape c
      else [c])"

text \<open>
  The characters of a quoted string: a surrogate pair is copied, a surrogate on its own is
  escaped.
\<close>

fun quote_units :: "jsstring \<Rightarrow> jsstring" where
  "quote_units [] = []"
| "quote_units [c] =
     (if is_high_surrogate c \<or> is_low_surrogate c then unicode_escape c else quote_unit c)"
| "quote_units (c # d # ds) =
     (if is_high_surrogate c then
        (if is_low_surrogate d then c # d # quote_units ds
         else unicode_escape c @ quote_units (d # ds))
      else if is_low_surrogate c then unicode_escape c @ quote_units (d # ds)
      else quote_unit c @ quote_units (d # ds))"

definition quote_json :: "jsstring \<Rightarrow> jsstring" where
  "quote_json s = 0x22 # quote_units s @ [0x22]"

text \<open>
  The text of a value (\<open>None\<close> where \<open>JSON.stringify\<close> gives \<open>undefined\<close>), of the elements
  of an array and of the members of an object.
\<close>

fun json_text :: "jsval \<Rightarrow> jsstring option"
  and json_elements :: "jsval list \<Rightarrow> jsstring list"
  and json_members :: "(jsstring \<times> jsval) list \<Rightarrow> jsstring list" where
  "json_text JUndefined = None"
| "json_text JBuiltin = None"
| "json_text JNull = Some (js_of ''null'')"
| "json_text (JBool b) = Some (if b then js_of ''true'' else js_of ''false'')"
| "json_text (JNum n) = Some (case n of Fin q \<Rightarrow> Number_toString n | _ \<Rightarrow> js_of ''null'')"
| "json_text (JStr s) = Some (quote_json s)"
| "json_text (JArr xs) = Some (0x5B # join [0x2C] (json_elements xs) @ [0x5D])"
| "json_text (JObj kvs) = Some (0x7B # join [0x2C] (json_members kvs) @ [0x7D])"
| "json_elements [] = []"
| "json_elements (x # xs) =
     (case json_text x of None \<Rightarrow> js_of ''null'' | Some t \<Rightarrow> t) # json_elements xs"
| "json_members [] = []"
| "json_members ((k, v) # kvs) =
     (case json_text v of
        None \<Rightarrow> json_members kvs
      | Some t \<Rightarrow> (quote_json k @ 0x3A # t) # json_members kvs)"

text \<open>\<open>JSON.stringify\<close> of an object, which is always a string.\<close>

definition JSON_stringify_object :: "(jsstring \<times> jsval) list \<Rightarrow> jsstring" where
  "JSON_stringify_object kvs = 0x7B # join [0x2C] (json_members kvs) @ [0x7D]"

subsection \<open>\<open>JSON.parse\<close>\<close>

definition is_json_ws :: "16 word \<Rightarrow> bool" where
  "is_json_ws c \<longleftrightarrow> c = 0x20 \<or> c = 0x09 \<or> c = 0x0A \<or> c = 0x0D"

definition skip_ws :: "jsstring \<Rightarrow> jsstring" where
  "skip_ws s = dropWhile is_json_ws s"

definition is_digit :: "16 word \<Rightarrow> bool" where
  "is_digit c \<longleftrightarrow> 0x30 \<le> c \<and> c \<le> 0x39"

definition digits_value :: "jsstring \<Rightarrow> nat" where
  "digits_value ds = foldl (\<lambda>n c. 10 * n + (unat c - 48)) 0 ds"

definition hex_value :: "16 word \<Rightarrow> nat option" where
  "hex_value c =
     (if 0x30 \<le> c \<and> c \<le> 0x39 then Some (unat c - 48)
      else if 0x41 \<le> c \<and> c \<le> 0x46 then Some (unat c - 55)
      else if 0x61 \<le> c \<and> c \<le> 0x66 then Some (unat c - 87)
      else None)"

text \<open>The character after a backslash, other than \<open>u\<close>.\<close>

definition unescape :: "16 word \<Rightarrow> 16 word option" where
  "unescape e =
     (if e = 0x22 \<or> e = 0x5C \<or> e = 0x2F then Some e
      else if e = 0x62 then Some 0x08
      else if e = 0x66 then Some 0x0C
      else if e = 0x6E then Some 0x0A
      else if e = 0x72 then Some 0x0D
      else if e = 0x74 then Some 0x09
      else None)"

text \<open>
  The own properties of an object are enumerated (by \<open>Object.entries\<close>, by \<open>JSON.stringify\<close>)
  with the array indices first, in ascending order, and then the other names in the order of
  their creation.  An array index is the canonical decimal name of an integer from 0 to
  \<open>2 ^ 32 - 2\<close>.  \<open>own_put\<close> creates an own property, or overwrites the one that exists, in a
  list kept in that order.
\<close>

definition digits_int :: "jsstring \<Rightarrow> int" where
  "digits_int ds = foldl (\<lambda>n c. 10 * n + (uint c - 48)) 0 ds"

definition array_index :: "jsstring \<Rightarrow> int option" where
  "array_index k =
     (if k \<noteq> [] \<and> list_all is_digit k \<and> (length k = 1 \<or> hd k \<noteq> 0x30)
         \<and> digits_int k < 4294967295
      then Some (digits_int k) else None)"

fun insert_index :: "int \<Rightarrow> jsstring \<times> jsval \<Rightarrow> (jsstring \<times> jsval) list \<Rightarrow> (jsstring \<times> jsval) list" where
  "insert_index i kv [] = [kv]"
| "insert_index i kv (p # ps) =
     (case array_index (fst p) of
        Some j \<Rightarrow> if j < i then p # insert_index i kv ps else kv # p # ps
      | None \<Rightarrow> kv # p # ps)"

definition own_put :: "(jsstring \<times> jsval) list \<Rightarrow> jsstring \<Rightarrow> jsval \<Rightarrow> (jsstring \<times> jsval) list" where
  "own_put kvs k v =
     (case array_index k of
        Some i \<Rightarrow> if map_of kvs k = None then insert_index i (k, v) kvs else AList.update k v kvs
      | None \<Rightarrow> AList.update k v kvs)"

text \<open>
  A string literal, read from just after its opening quote: the string and the rest of the
  input after the closing quote.
\<close>

fun parse_string :: "jsstring \<Rightarrow> (jsstring \<times> jsstring) option" where
  "parse_string [] = None"
| "parse_string (c # cs) =
     (if c = 0x22 then Some ([], cs)
      else if c = 0x5C then
        (case cs of
           [] \<Rightarrow> None
         | e # rest \<Rightarrow>
             if e = 0x75 then
               (case rest of
                  h1 # h2 # h3 # h4 # rest' \<Rightarrow>
                    (case (hex_value h1, hex_value h2, hex_value h3, hex_value h4) of
                       (Some a, Some b, Some c', Some d) \<Rightarrow>
                         (case parse_string rest' of
                            None \<Rightarrow> None
                          | Some (s, r) \<Rightarrow> Some (of_nat (a * 4096 + b * 256 + c' * 16 + d) # s, r))
                     | _ \<Rightarrow> None)
                | _ \<Rightarrow> None)
             else
               (case unescape e of
                  None \<Rightarrow> None
                | Some u \<Rightarrow>
                    (case parse_string rest of
                       None \<Rightarrow> None
                     | Some (s, r) \<Rightarrow> Some (u # s, r))))
      else if c < 0x20 then None
      else (case parse_string cs of
              None \<Rightarrow> None
            | Some (s, r) \<Rightarrow> Some (c # s, r)))"

text \<open>
  A number literal: \<open>-? (0 | [1-9][0-9]*) (. [0-9]+)? ([eE] [+-]? [0-9]+)?\<close>, with its
  exact value.
\<close>

definition parse_number :: "jsstring \<Rightarrow> (jsnum \<times> jsstring) option" where
  "parse_number s =
     (let (neg, s1) = (case s of c # cs \<Rightarrow> if c = 0x2D then (True, cs) else (False, s)
                       | [] \<Rightarrow> (False, s));
          ids = takeWhile is_digit s1;
          s2 = dropWhile is_digit s1
      in if ids = [] \<or> (1 < length ids \<and> hd ids = 0x30) then None
         else
           (let (fds, s3, frac_ok) =
                  (case s2 of
                     c # cs \<Rightarrow> if c = 0x2E
                               then (takeWhile is_digit cs, dropWhile is_digit cs,
                                     takeWhile is_digit cs \<noteq> [])
                               else ([], s2, True)
                   | [] \<Rightarrow> ([], s2, True));
                (eneg, eds, s4, exp_ok) =
                  (case s3 of
                     c # cs \<Rightarrow>
                       if c = 0x65 \<or> c = 0x45 then
                         (let (sg, cs') = (case cs of
                                             d # ds \<Rightarrow> if d = 0x2D then (True, ds)
                                                       else if d = 0x2B then (False, ds)
                                                       else (False, cs)
                                           | [] \<Rightarrow> (False, cs))
                          in (sg, takeWhile is_digit cs', dropWhile is_digit cs',
                              takeWhile is_digit cs' \<noteq> []))
                       else (False, [], s3, True)
                   | [] \<Rightarrow> (False, [], s3, True));
                mantissa = (of_nat (digits_value (ids @ fds)) :: rat) / 10 ^ length fds;
                scaled = (if eneg then mantissa / 10 ^ digits_value eds
                          else mantissa * 10 ^ digits_value eds)
            in if frac_ok \<and> exp_ok then Some (Fin (if neg then - scaled else scaled), s4)
               else None))"

text \<open>\<open>s\<close> starts with the word \<open>w\<close>: the rest of \<open>s\<close> after it.\<close>

fun strip_prefix :: "jsstring \<Rightarrow> jsstring \<Rightarrow> jsstring option" where
  "strip_prefix [] s = Some s"
| "strip_prefix (w # ws) [] = None"
| "strip_prefix (w # ws) (c # cs) = (if w = c then strip_prefix ws cs else None)"

lemma length_skip_ws [termination_simp]: "length (skip_ws s) \<le> length s"
  by (simp add: skip_ws_def length_dropWhile_le)

text \<open>
  A value, the elements of an array after its \<open>[\<close>, and the members of an object after its
  \<open>{\<close>.  \<open>None\<close> is a syntax error.  The tests that the rest of the input got shorter never
  fail; they are what makes the recursion terminate.
\<close>

function parse_value :: "jsstring \<Rightarrow> (jsval \<times> jsstring) option"
  and parse_elements :: "jsstring \<Rightarrow> (jsval list \<times> jsstring) option"
  and parse_members :: "jsstring \<Rightarrow> ((jsstring \<times> jsval) list \<times> jsstring) option" where
  "parse_value s =
     (case skip_ws s of
        [] \<Rightarrow> None
      | c # cs \<Rightarrow>
          if c = 0x22 then
            (case parse_string cs of None \<Rightarrow> None | Some (str, r) \<Rightarrow> Some (JStr str, r))
          else if c = 0x5B then
            (case skip_ws cs of
               [] \<Rightarrow> None
             | d # ds \<Rightarrow>
                 if d = 0x5D then Some (JArr [], ds)
                 else (case parse_elements cs of
                         None \<Rightarrow> None
                       | Some (xs, r) \<Rightarrow> Some (JArr xs, r)))
          else if c = 0x7B then
            (case skip_ws cs of
               [] \<Rightarrow> None
             | d # ds \<Rightarrow>
                 if d = 0x7D then Some (JObj [], ds)
                 else (case parse_members cs of
                         None \<Rightarrow> None
                       | Some (kvs, r) \<Rightarrow> Some (JObj (foldl (\<lambda>acc (k, v). own_put acc k v) [] kvs), r)))
          else if c = 0x74 then
            (case strip_prefix (js_of ''true'') (c # cs) of
               None \<Rightarrow> None | Some r \<Rightarrow> Some (JBool True, r))
          else if c = 0x66 then
            (case strip_prefix (js_of ''false'') (c # cs) of
               None \<Rightarrow> None | Some r \<Rightarrow> Some (JBool False, r))
          else if c = 0x6E then
            (case strip_prefix (js_of ''null'') (c # cs) of
               None \<Rightarrow> None | Some r \<Rightarrow> Some (JNull, r))
          else (case parse_number (c # cs) of
                  None \<Rightarrow> None
                | Some (n, r) \<Rightarrow> Some (JNum n, r)))"
| "parse_elements s =
     (case parse_value s of
        None \<Rightarrow> None
      | Some (x, r) \<Rightarrow>
          if \<not> length r < length s then None
          else (case skip_ws r of
                  [] \<Rightarrow> None
                | c # cs \<Rightarrow>
                    if c = 0x5D then Some ([x], cs)
                    else if c = 0x2C then
                      (case parse_elements cs of
                         None \<Rightarrow> None
                       | Some (xs, r') \<Rightarrow> Some (x # xs, r'))
                    else None))"
| "parse_members s =
     (case skip_ws s of
        [] \<Rightarrow> None
      | q # s1 \<Rightarrow>
          if q \<noteq> 0x22 then None
          else (case parse_string s1 of
                  None \<Rightarrow> None
                | Some (k, r) \<Rightarrow>
                    (case skip_ws r of
                       [] \<Rightarrow> None
                     | c # r1 \<Rightarrow>
                         if c \<noteq> 0x3A \<or> \<not> length r1 < length s then None
                         else (case parse_value r1 of
                                 None \<Rightarrow> None
                               | Some (v, r2) \<Rightarrow>
                                   if \<not> length r2 < length r1 then None
                                   else (case skip_ws r2 of
                                           [] \<Rightarrow> None
                                         | d # r3 \<Rightarrow>
                                             if d = 0x7D then Some ([(k, v)], r3)
                                             else if d = 0x2C then
                                               (case parse_members r3 of
                                                  None \<Rightarrow> None
                                                | Some (kvs, r4) \<Rightarrow> Some ((k, v) # kvs, r4))
                                             else None)))))"
  by pat_completeness auto

lemma skip_ws_Cons_length: "skip_ws s = c # cs \<Longrightarrow> length cs < length s"
  using length_skip_ws[of s] by simp

termination parse_value
  by (relation "measure (\<lambda>x. case x of Inl s \<Rightarrow> 2 * length s
                                | Inr (Inl s) \<Rightarrow> 2 * length s + 1
                                | Inr (Inr s) \<Rightarrow> 2 * length s + 1)")
     (auto dest: skip_ws_Cons_length)

declare parse_value.simps [simp del] parse_elements.simps [simp del] parse_members.simps [simp del]

text \<open>\<open>JSON.parse\<close>: the value, or a \<open>SyntaxError\<close>.\<close>

definition JSON_parse :: "jsstring \<Rightarrow> js_error + jsval" where
  "JSON_parse s =
     (case parse_value s of
        None \<Rightarrow> Inl SyntaxError
      | Some (v, r) \<Rightarrow> if skip_ws r = [] then Inr v else Inl SyntaxError)"

section \<open>Objects and conversions\<close>

text \<open>
  An object under construction: its own properties and its prototype.  An object literal
  \<open>{}\<close> starts with \<open>Object.prototype\<close>.  The accessor \<open>__proto__\<close> of \<open>Object.prototype\<close> can
  replace it by an array, by a plain object or by \<open>null\<close>.
\<close>

datatype prototype =
    ObjectPrototype
  | ArrayValue "jsval list"
  | ObjectValue "(jsstring \<times> jsval) list"
  | NoPrototype

record js_object =
  props :: "(jsstring \<times> jsval) list"
  proto :: prototype

definition empty_object :: js_object where
  "empty_object = \<lparr> props = [], proto = ObjectPrototype \<rparr>"

text \<open>
  The methods of \<open>Object.prototype\<close>, and those of \<open>Array.prototype\<close> (ECMAScript 2023).  They
  are writable data properties whose values are functions.
\<close>

definition object_prototype_methods :: "jsstring list" where
  "object_prototype_methods =
     map js_of [''constructor'', ''toString'', ''valueOf'', ''hasOwnProperty'',
                ''isPrototypeOf'', ''propertyIsEnumerable'', ''toLocaleString'',
                ''__defineGetter__'', ''__defineSetter__'', ''__lookupGetter__'',
                ''__lookupSetter__'']"

definition array_prototype_methods :: "jsstring list" where
  "array_prototype_methods =
     map js_of [''at'', ''concat'', ''constructor'', ''copyWithin'', ''entries'', ''every'',
                ''fill'', ''filter'', ''find'', ''findIndex'', ''findLast'', ''findLastIndex'',
                ''flat'', ''flatMap'', ''forEach'', ''includes'', ''indexOf'', ''join'', ''keys'',
                ''lastIndexOf'', ''map'', ''pop'', ''push'', ''reduce'', ''reduceRight'',
                ''reverse'', ''shift'', ''slice'', ''some'', ''sort'', ''splice'',
                ''toLocaleString'', ''toReversed'', ''toSorted'', ''toSpliced'', ''toString'',
                ''unshift'', ''values'', ''with'']"

text \<open>
  The data property that an object inherits under the name \<open>k\<close>: from an array its elements,
  its \<open>length\<close> and the methods of both prototypes, from a plain object its own properties
  and the methods of \<open>Object.prototype\<close>.
\<close>

fun inherited :: "prototype \<Rightarrow> jsstring \<Rightarrow> jsval option" where
  "inherited ObjectPrototype k =
     (if k \<in> set object_prototype_methods then Some JBuiltin else None)"
| "inherited (ArrayValue xs) k =
     (case array_index k of
        Some i \<Rightarrow> if i < int (length xs) then Some (xs ! nat i) else None
      | None \<Rightarrow>
          if k = js_of ''length'' then Some (JNum (Fin (of_nat (length xs))))
          else if k \<in> set array_prototype_methods \<or> k \<in> set object_prototype_methods
          then Some JBuiltin else None)"
| "inherited (ObjectValue kvs) k =
     (case map_of kvs k of
        Some v \<Rightarrow> Some v
      | None \<Rightarrow> if k \<in> set object_prototype_methods then Some JBuiltin else None)"
| "inherited NoPrototype k = None"

text \<open>
  What the getter of \<open>__proto__\<close> returns.  \<open>Object.prototype\<close> itself is an object without
  enumerable properties, written \<open>JObj []\<close>; without a prototype there is no accessor and
  the name is \<open>undefined\<close>.
\<close>

fun proto_value :: "prototype \<Rightarrow> jsval" where
  "proto_value ObjectPrototype = JObj []"
| "proto_value (ArrayValue xs) = JArr xs"
| "proto_value (ObjectValue kvs) = JObj kvs"
| "proto_value NoPrototype = JUndefined"

text \<open>\<open>obj[key]\<close>: the own property, else the inherited one, else the accessor.\<close>

definition obj_get :: "js_object \<Rightarrow> jsstring \<Rightarrow> jsval" where
  "obj_get obj key =
     (case map_of (props obj) key of
        Some v \<Rightarrow> v
      | None \<Rightarrow>
          (case inherited (proto obj) key of
             Some v \<Rightarrow> v
           | None \<Rightarrow> if key = js_of ''__proto__'' then proto_value (proto obj) else JUndefined))"

text \<open>
  \<open>obj[key] = value\<close>.  An assignment creates or overwrites an own property, also where the
  name is inherited as a data property.  Only the name \<open>__proto__\<close>, where it reaches the
  accessor of \<open>Object.prototype\<close>, calls the setter instead: the setter replaces the prototype
  by an array, an object or \<open>null\<close> and ignores any other value, and no own property is
  created.  (No function of the platform is ever assigned here.)
\<close>

definition obj_set :: "js_object \<Rightarrow> jsstring \<Rightarrow> jsval \<Rightarrow> js_object" where
  "obj_set obj key value =
     (if key = js_of ''__proto__'' \<and> map_of (props obj) key = None
         \<and> inherited (proto obj) key = None \<and> proto obj \<noteq> NoPrototype
      then (case value of
              JArr xs \<Rightarrow> obj\<lparr>proto := ArrayValue xs\<rparr>
            | JObj kvs \<Rightarrow> obj\<lparr>proto := ObjectValue kvs\<rparr>
            | JNull \<Rightarrow> obj\<lparr>proto := NoPrototype\<rparr>
            | _ \<Rightarrow> obj)
      else obj\<lparr>props := own_put (props obj) key value\<rparr>)"

text \<open>
  \<open>obj[key].push(value)\<close>, where \<open>obj[key]\<close> is an array: the array grows where it is, among
  the own properties or in the prototype.
\<close>

fun push :: "jsval \<Rightarrow> jsval \<Rightarrow> jsval" where
  "push (JArr xs) v = JArr (xs @ [v])"
| "push x v = x"

fun proto_push :: "prototype \<Rightarrow> jsstring \<Rightarrow> jsval \<Rightarrow> prototype" where
  "proto_push (ArrayValue xs) key v =
     (case array_index key of
        Some i \<Rightarrow>
          if i < int (length xs) then ArrayValue (xs[nat i := push (xs ! nat i) v])
          else ArrayValue xs
      | None \<Rightarrow> if key = js_of ''__proto__'' then ArrayValue (xs @ [v]) else ArrayValue xs)"
| "proto_push (ObjectValue kvs) key v =
     (case map_of kvs key of
        Some old \<Rightarrow> ObjectValue (AList.update key (push old v) kvs)
      | None \<Rightarrow> ObjectValue kvs)"
| "proto_push p key v = p"

definition array_push :: "js_object \<Rightarrow> jsstring \<Rightarrow> jsval \<Rightarrow> js_object" where
  "array_push obj key v =
     (case map_of (props obj) key of
        Some old \<Rightarrow> obj\<lparr>props := AList.update key (push old v) (props obj)\<rparr>
      | None \<Rightarrow> obj\<lparr>proto := proto_push (proto obj) key v\<rparr>)"

text \<open>
  \<open>String(v)\<close>.  (The text of a function is left out: \<open>JBuiltin\<close> is given the text of an
  object.)
\<close>

fun js_String :: "jsval \<Rightarrow> jsstring"
  and js_String_elements :: "jsval list \<Rightarrow> jsstring list" where
  "js_String JUndefined = js_of ''undefined''"
| "js_String JNull = js_of ''null''"
| "js_String (JBool b) = (if b then js_of ''true'' else js_of ''false'')"
| "js_String (JNum n) = Number_toString n"
| "js_String (JStr s) = s"
| "js_String (JArr xs) = join [0x2C] (js_String_elements xs)"
| "js_String (JObj kvs) = js_of ''[object Object]''"
| "js_String JBuiltin = js_of ''[object Object]''"
| "js_String_elements [] = []"
| "js_String_elements (x # xs) =
     (case x of JUndefined \<Rightarrow> [] | JNull \<Rightarrow> [] | _ \<Rightarrow> js_String x) # js_String_elements xs"

text \<open>\<open>Object.entries(v)\<close>: own enumerable properties; a \<open>TypeError\<close> on \<open>null\<close>.\<close>

fun Object_entries :: "jsval \<Rightarrow> js_error + (jsstring \<times> jsval) list" where
  "Object_entries JUndefined = Inl TypeError"
| "Object_entries JNull = Inl TypeError"
| "Object_entries (JObj kvs) = Inr kvs"
| "Object_entries (JArr xs) = Inr (map (\<lambda>i. (dec_digits i, xs ! i)) [0..<length xs])"
| "Object_entries (JStr s) = Inr (map (\<lambda>i. (dec_digits i, JStr [s ! i])) [0..<length s])"
| "Object_entries _ = Inr []"

text \<open>
  The values a \<open>for ... of\<close> loop takes from \<open>v\<close>: the elements of an array, the characters
  of a string, and a \<open>TypeError\<close> on a value that is not iterable.  (A string is taken by
  code unit here and by code point in JavaScript.  The loop modelled below uses each
  character as a header name, and both a surrogate pair and half of one are rejected as
  such.)
\<close>

fun iterate :: "jsval \<Rightarrow> js_error + jsval list" where
  "iterate (JArr xs) = Inr xs"
| "iterate (JStr s) = Inr (map (\<lambda>c. JStr [c]) s)"
| "iterate _ = Inl TypeError"

text \<open>\<open>parseInt(s, 10)\<close>: leading white space, a sign, then as many digits as there are.\<close>

definition parseInt10 :: "jsstring \<Rightarrow> jsnum" where
  "parseInt10 s =
     (let s1 = dropWhile is_js_space s;
          (neg, s2) = (case s1 of
                         c # cs \<Rightarrow> if c = 0x2D then (True, cs)
                                   else if c = 0x2B then (False, cs) else (False, s1)
                       | [] \<Rightarrow> (False, s1));
          ds = takeWhile is_digit s2
      in if ds = [] then NaN
         else Fin (if neg then - of_nat (digits_value ds) else of_nat (digits_value ds)))"

section \<open>The \<open>Headers\<close> class\<close>

text \<open>
  A header list: pairs of a lower-cased name and a value, one pair per \<open>append\<close>.
\<close>

type_synonym headers = "(jsstring \<times> jsstring) list"

text \<open>
  The checks of the Fetch standard.  A header name is a token of HTTP.  A value is
  normalized, its leading and trailing tabs, spaces and line breaks removed; what is left
  must be bytes without NUL, LF and CR.
\<close>

definition is_token_unit :: "16 word \<Rightarrow> bool" where
  "is_token_unit c \<longleftrightarrow>
     (0x30 \<le> c \<and> c \<le> 0x39) \<or> (0x41 \<le> c \<and> c \<le> 0x5A) \<or> (0x61 \<le> c \<and> c \<le> 0x7A)
     \<or> c \<in> {0x21, 0x23, 0x24, 0x25, 0x26, 0x27, 0x2A, 0x2B, 0x2D, 0x2E, 0x5E, 0x5F, 0x60,
            0x7C, 0x7E}"

definition valid_header_name :: "jsstring \<Rightarrow> bool" where
  "valid_header_name name \<longleftrightarrow> name \<noteq> [] \<and> list_all is_token_unit name"

definition is_http_ws :: "16 word \<Rightarrow> bool" where
  "is_http_ws c \<longleftrightarrow> c = 0x09 \<or> c = 0x0A \<or> c = 0x0D \<or> c = 0x20"

definition normalize_value :: "jsstring \<Rightarrow> jsstring" where
  "normalize_value v = rev (dropWhile is_http_ws (rev (dropWhile is_http_ws v)))"

definition valid_header_value :: "jsstring \<Rightarrow> bool" where
  "valid_header_value v \<longleftrightarrow> list_all (\<lambda>c. c \<le> 0xFF \<and> c \<noteq> 0x00 \<and> c \<noteq> 0x0A \<and> c \<noteq> 0x0D) v"

definition new_Headers :: "(jsstring \<times> jsstring) list \<Rightarrow> headers" where
  "new_Headers init = map (\<lambda>(k, v). (toLowerCase k, v)) init"

definition headers_values :: "headers \<Rightarrow> jsstring \<Rightarrow> jsstring list" where
  "headers_values h name = map snd (filter (\<lambda>(k, v). k = toLowerCase name) h)"

definition headers_get :: "headers \<Rightarrow> jsstring \<Rightarrow> jsstring option" where
  "headers_get h name =
     (if headers_values h name = [] then None
      else Some (join (js_of '', '') (headers_values h name)))"

text \<open>
  What \<open>set\<close> and \<open>append\<close> do to the list once their arguments have passed the checks.
  This is all there is to a call whose name is a constant of the code and whose value is
  text that the code builds or a value that the platform has checked before (a constant,
  the decimal digits of a status, the status text or a header value of a \<open>Response\<close>, the
  text \<open>JSON.stringify\<close> writes for such header values).
\<close>

definition headers_set :: "headers \<Rightarrow> jsstring \<Rightarrow> jsstring \<Rightarrow> headers" where
  "headers_set h name value =
     filter (\<lambda>(k, v). k \<noteq> toLowerCase name) h @ [(toLowerCase name, normalize_value value)]"

definition headers_append :: "headers \<Rightarrow> jsstring \<Rightarrow> jsstring \<Rightarrow> headers" where
  "headers_append h name value = h @ [(toLowerCase name, normalize_value value)]"

text \<open>
  The methods with their checks, for a name or a value that comes from the request: a
  \<open>TypeError\<close> on a name that is not a token and on a value that is not valid.
\<close>

definition headers_get_checked :: "headers \<Rightarrow> jsstring \<Rightarrow> js_error + jsstring option" where
  "headers_get_checked h name =
     (if valid_header_name name then Inr (headers_get h name) else Inl TypeError)"

definition headers_set_checked :: "headers \<Rightarrow> jsstring \<Rightarrow> jsstring \<Rightarrow> js_error + headers" where
  "headers_set_checked h name value =
     (if valid_header_name name \<and> valid_header_value (normalize_value value)
      then Inr (headers_set h name value) else Inl TypeError)"

definition headers_append_checked :: "headers \<Rightarrow> jsstring \<Rightarrow> jsstring \<Rightarrow> js_error + headers" where
  "headers_append_checked h name value =
     (if valid_header_name name \<and> valid_header_value (normalize_value value)
      then Inr (headers_append h name value) else Inl TypeError)"

text \<open>A loop whose body may throw: the first exception ends it.\<close>

fun fold_throwing :: "('a \<Rightarrow> 'b \<Rightarrow> js_error + 'a) \<Rightarrow> 'a \<Rightarrow> 'b list \<Rightarrow> js_error + 'a" where
  "fold_throwing f a [] = Inr a"
| "fold_throwing f a (x # xs) =
     (case f a x of Inl e \<Rightarrow> Inl e | Inr a' \<Rightarrow> fold_throwing f a' xs)"

text \<open>
  \<open>headers.entries()\<close>: the names in ascending order, each once with its values joined by
  a comma and a space, except \<open>set-cookie\<close>, which comes once per value.
\<close>

fun str_less :: "jsstring \<Rightarrow> jsstring \<Rightarrow> bool" where
  "str_less [] [] = False"
| "str_less [] (y # ys) = True"
| "str_less (x # xs) [] = False"
| "str_less (x # xs) (y # ys) = (x < y \<or> (x = y \<and> str_less xs ys))"

fun insert_name :: "jsstring \<Rightarrow> jsstring list \<Rightarrow> jsstring list" where
  "insert_name n [] = [n]"
| "insert_name n (m # ms) =
     (if n = m then m # ms
      else if str_less n m then n # m # ms
      else m # insert_name n ms)"

definition headers_entries :: "headers \<Rightarrow> (jsstring \<times> jsstring) list" where
  "headers_entries h =
     concat (map (\<lambda>n. if n = js_of ''set-cookie''
                       then map (\<lambda>v. (n, v)) (headers_values h n)
                       else [(n, join (js_of '', '') (headers_values h n))])
                 (foldr insert_name (map fst h) []))"

section \<open>The relay request handler (edge/src/bare-protocol.js)\<close>

text \<open>\<open>new BareError(status, code, message)\<close>\<close>

datatype bare_error = BareError int jsstring jsstring

record 'b bare_request =
  rq_method :: jsstring
  rq_headers :: headers
  rq_body :: 'b

record bare_data =
  bare_url :: "jsstring option"
  bare_headers :: jsval
  forwardHeaders :: jsval
  passHeaders :: jsval
  passStatus :: jsval
  bare_protocol :: "jsstring option"
  bare_host :: "jsstring option"
  bare_port :: "jsstring option"
  bare_path :: "jsstring option"

text \<open>\<open>if (raw)\<close> on what \<open>headers.get\<close> returned: a string that is not empty.\<close>

definition present :: "jsstring option \<Rightarrow> bool" where
  "present raw \<longleftrightarrow> (case raw of None \<Rightarrow> False | Some s \<Rightarrow> s \<noteq> [])"

text \<open>
  A list header (\<open>x-bare-forward-headers\<close>, \<open>x-bare-pass-headers\<close>): whatever the JSON
  is, or else the trimmed pieces between commas.
\<close>

definition parse_name_list :: "jsstring option \<Rightarrow> jsval" where
  "parse_name_list raw =
     (case raw of
        None \<Rightarrow> JArr []
      | Some s \<Rightarrow>
          if s = [] then JArr []
          else (case JSON_parse s of
                  Inr v \<Rightarrow> v
                | Inl _ \<Rightarrow> JArr (map (\<lambda>h. JStr (trim h)) (split_comma s))))"

definition parse_status_list :: "jsstring option \<Rightarrow> jsval" where
  "parse_status_list raw =
     (case raw of
        None \<Rightarrow> JArr []
      | Some s \<Rightarrow>
          if s = [] then JArr []
          else (case JSON_parse s of
                  Inr v \<Rightarrow> v
                | Inl _ \<Rightarrow> JArr (map (\<lambda>h. JNum (parseInt10 (trim h))) (split_comma s))))"

definition parseBareHeaders :: "'b bare_request \<Rightarrow> bare_error + bare_data" where
  "parseBareHeaders request =
     (let hs = rq_headers request;
          bareHeadersRaw = headers_get hs (js_of ''x-bare-headers'')
      in case (if present bareHeadersRaw
               then (case JSON_parse (case bareHeadersRaw of Some s \<Rightarrow> s | None \<Rightarrow> []) of
                       Inr v \<Rightarrow> Inr v
                     | Inl _ \<Rightarrow> Inl (BareError 400 (js_of ''INVALID_BARE_HEADERS'')
                                        (js_of ''x-bare-headers is not valid JSON'')))
               else Inr (JObj [])) of
           Inl e \<Rightarrow> Inl e
         | Inr bareHeaders \<Rightarrow>
             Inr \<lparr> bare_url = headers_get hs (js_of ''x-bare-url''),
                   bare_headers = bareHeaders,
                   forwardHeaders = parse_name_list (headers_get hs (js_of ''x-bare-forward-headers'')),
                   passHeaders = parse_name_list (headers_get hs (js_of ''x-bare-pass-headers'')),
                   passStatus = parse_status_list (headers_get hs (js_of ''x-bare-pass-status'')),
                   bare_protocol = headers_get hs (js_of ''x-bare-protocol''),
                   bare_host = headers_get hs (js_of ''x-bare-host''),
                   bare_port = headers_get hs (js_of ''x-bare-port''),
                   bare_path = headers_get hs (js_of ''x-bare-path'') \<rparr>)"

definition or_empty :: "jsstring option \<Rightarrow> jsstring" where
  "or_empty raw = (case raw of None \<Rightarrow> [] | Some s \<Rightarrow> s)"

definition buildTargetUrl :: "url_parser \<Rightarrow> bare_data \<Rightarrow> bare_error + parsed_url" where
  "buildTargetUrl U bareData =
     (if present (bare_url bareData) then
        (case U (or_empty (bare_url bareData)) of
           Some u \<Rightarrow> Inr u
         | None \<Rightarrow> Inl (BareError 400 (js_of ''INVALID_BARE_URL'')
                            (js_of ''x-bare-url is not a valid URL'')))
      else if present (bare_protocol bareData) \<and> present (bare_host bareData)
              \<and> present (bare_path bareData) then
        (let port = (if present (bare_port bareData)
                     then js_of '':'' @ or_empty (bare_port bareData) else []);
             urlStr = or_empty (bare_protocol bareData) @ js_of ''//''
                      @ or_empty (bare_host bareData) @ port @ or_empty (bare_path bareData)
         in case U urlStr of
              Some u \<Rightarrow> Inr u
            | None \<Rightarrow> Inl (BareError 400 (js_of ''INVALID_BARE_COMPONENTS'')
                               (js_of ''Cannot construct valid URL from bare components'')))
      else Inl (BareError 400 (js_of ''MISSING_BARE_URL'') (js_of ''x-bare-url header is required'')))"

text \<open>
  \<open>buildOutgoingHeaders\<close>: the headers of \<open>x-bare-headers\<close> (an array value is appended
  value by value), then the headers of the incoming request that are named for forwarding.
  Names and values come from the request, and \<open>set\<close>, \<open>append\<close> and \<open>get\<close> throw on those
  that are not valid.
\<close>

definition add_bare_header :: "headers \<Rightarrow> jsstring \<times> jsval \<Rightarrow> js_error + headers" where
  "add_bare_header h kv =
     (case snd kv of
        JArr vs \<Rightarrow> fold_throwing (\<lambda>h' v. headers_append_checked h' (fst kv) (js_String v)) h vs
      | v \<Rightarrow> headers_set_checked h (fst kv) (js_String v))"

definition forward_header :: "headers \<Rightarrow> headers \<Rightarrow> jsval \<Rightarrow> js_error + headers" where
  "forward_header original h header =
     (case headers_get_checked original (js_String header) of
        Inl e \<Rightarrow> Inl e
      | Inr None \<Rightarrow> Inr h
      | Inr (Some value) \<Rightarrow> headers_set_checked h (js_String header) value)"

definition buildOutgoingHeaders :: "bare_data \<Rightarrow> 'b bare_request \<Rightarrow> js_error + headers" where
  "buildOutgoingHeaders bareData originalRequest =
     (case Object_entries (bare_headers bareData) of
        Inl e \<Rightarrow> Inl e
      | Inr kvs \<Rightarrow>
          (case fold_throwing add_bare_header [] kvs of
             Inl e \<Rightarrow> Inl e
           | Inr headers \<Rightarrow>
               (case iterate (forwardHeaders bareData) of
                  Inl e \<Rightarrow> Inl e
                | Inr names \<Rightarrow>
                    fold_throwing (forward_header (rq_headers originalRequest)) headers names)))"

text \<open>The response of the target, as \<open>fetch\<close> resolves it.\<close>

record 'b upstream_response =
  up_status :: int
  up_statusText :: jsstring
  up_headers :: headers
  up_body :: 'b

text \<open>
  The loop of \<open>buildBareResponseHeaders\<close> over \<open>response.headers.entries()\<close>: one step on
  the object \<open>responseHeaders\<close>, and the own properties of that object after the loop, as
  \<open>JSON.stringify\<close> enumerates them.
\<close>

definition collect_header :: "jsstring list \<Rightarrow> js_object \<Rightarrow> jsstring \<times> jsstring \<Rightarrow> js_object" where
  "collect_header stripHeaders responseHeaders kv =
     (let key = fst kv; value = snd kv; lowerKey = toLowerCase key
      in if lowerKey \<in> set stripHeaders then responseHeaders
         else if truthy (obj_get responseHeaders key) then
           (case obj_get responseHeaders key of
              JArr vs \<Rightarrow> array_push responseHeaders key (JStr value)
            | old \<Rightarrow> obj_set responseHeaders key (JArr [old, JStr value]))
         else obj_set responseHeaders key (JStr value))"

definition collectResponseHeaders :: "jsstring list \<Rightarrow> headers \<Rightarrow> (jsstring \<times> jsval) list" where
  "collectResponseHeaders stripHeaders hs =
     props (foldl (collect_header stripHeaders) empty_object (headers_entries hs))"

text \<open>
  The snapshot that the specification describes, to compare with: the entries of the
  upstream headers that are not on the deny-list, each name with its value.
\<close>

definition header_snapshot :: "jsstring list \<Rightarrow> headers \<Rightarrow> (jsstring \<times> jsval) list" where
  "header_snapshot stripHeaders hs =
     map (\<lambda>kv. (fst kv, JStr (snd kv)))
         (filter (\<lambda>kv. toLowerCase (fst kv) \<notin> set stripHeaders) (headers_entries hs))"

definition pass_through :: "headers \<Rightarrow> jsstring \<Rightarrow> headers \<Rightarrow> headers" where
  "pass_through upstream name h =
     (if present (headers_get upstream name)
      then headers_set h name (or_empty (headers_get upstream name)) else h)"

definition buildBareResponseHeaders ::
  "'b upstream_response \<Rightarrow> (jsstring \<times> jsstring) list \<Rightarrow> jsstring list \<Rightarrow> headers" where
  "buildBareResponseHeaders response corsHeaders stripHeaders =
     (let headers0 = new_Headers corsHeaders;
          responseHeaders = collectResponseHeaders stripHeaders (up_headers response);
          headers1 = headers_set headers0 (js_of ''x-bare-status'') (int_toString (up_status response));
          headers2 = headers_set headers1 (js_of ''x-bare-status-text'') (up_statusText response);
          headers3 = headers_set headers2 (js_of ''x-bare-headers'')
                       (JSON_stringify_object responseHeaders)
      in pass_through (up_headers response) (js_of ''content-encoding'')
           (pass_through (up_headers response) (js_of ''content-length'')
              (pass_through (up_headers response) (js_of ''content-type'') headers3)))"

text \<open>
  The target is a parameter: \<open>fetch\<close> of the outgoing request resolves to a response or
  rejects with an error message.
\<close>

record 'b outgoing_request =
  out_url :: jsstring
  out_method :: jsstring
  out_headers :: headers
  out_body :: "'b option"

type_synonym 'b target = "'b outgoing_request \<Rightarrow> jsstring + 'b upstream_response"

text \<open>
  What the handler answers: a status, headers, and as body either the stream of the target
  or the JSON of an error (\<open>code\<close>, \<open>message\<close> and a fresh \<open>id\<close>).
\<close>

datatype 'b response_body = Stream 'b | ErrorJson jsstring jsstring jsstring

record 'b bare_response =
  resp_status :: int
  resp_headers :: headers
  resp_body :: "'b response_body"

text \<open>\<open>{ 'Content-Type': 'application/json', ...corsHeaders }\<close> as response headers.\<close>

definition error_headers :: "(jsstring \<times> jsstring) list \<Rightarrow> headers" where
  "error_headers corsHeaders =
     new_Headers (foldl (\<lambda>obj (k, v). AList.update k v obj)
                        [(js_of ''Content-Type'', js_of ''application/json'')] corsHeaders)"

fun toResponse :: "jsstring \<Rightarrow> (jsstring \<times> jsstring) list \<Rightarrow> bare_error \<Rightarrow> 'b bare_response" where
  "toResponse uuid corsHeaders (BareError st cd msg) =
     \<lparr> resp_status = st, resp_headers = error_headers corsHeaders,
       resp_body = ErrorJson cd msg uuid \<rparr>"

definition fetch_error_response ::
  "jsstring \<Rightarrow> (jsstring \<times> jsstring) list \<Rightarrow> jsstring \<Rightarrow> 'b bare_response" where
  "fetch_error_response uuid corsHeaders msg =
     \<lparr> resp_status = 500, resp_headers = error_headers corsHeaders,
       resp_body = ErrorJson (js_of ''FETCH_ERROR'')
                     (if msg = [] then js_of ''Failed to fetch target URL'' else msg) uuid \<rparr>"

text \<open>
  The \<open>try\<close> block of \<open>handleBareV3Request\<close> up to the answer of the target: the thrown
  \<open>BareError\<close>, the message of any other exception, or the response of the target.  The
  message of a \<open>TypeError\<close> that the platform throws is text of the platform; it is written
  \<open>TypeError\<close>.
\<close>

datatype 'b relayed = Threw bare_error | Failed jsstring | Fetched "'b upstream_response"

definition relay :: "url_parser \<Rightarrow> 'b target \<Rightarrow> 'b bare_request \<Rightarrow> 'b relayed" where
  "relay U F request =
     (case parseBareHeaders request of
        Inl e \<Rightarrow> Threw e
      | Inr bareData \<Rightarrow>
          (case buildTargetUrl U bareData of
             Inl e \<Rightarrow> Threw e
           | Inr targetUrl \<Rightarrow>
               if protocol targetUrl \<noteq> js_of ''http:'' \<and> protocol targetUrl \<noteq> js_of ''https:''
               then Threw (BareError 400 (js_of ''INVALID_PROTOCOL'')
                             (js_of ''Only HTTP and HTTPS protocols are supported''))
               else (case buildOutgoingHeaders bareData request of
                       Inl e \<Rightarrow> Failed (js_of ''TypeError'')
                     | Inr outgoingHeaders \<Rightarrow>
                         (case F \<lparr> out_url = href targetUrl,
                                    out_method = rq_method request,
                                    out_headers = outgoingHeaders,
                                    out_body = (if rq_method request = js_of ''GET''
                                                   \<or> rq_method request = js_of ''HEAD''
                                                then None else Some (rq_body request)) \<rparr> of
                            Inl msg \<Rightarrow> Failed msg
                          | Inr response \<Rightarrow> Fetched response))))"

definition handleBareV3Request ::
  "url_parser \<Rightarrow> 'b target \<Rightarrow> jsstring \<Rightarrow> 'b bare_request \<Rightarrow> (jsstring \<times> jsstring) list
     \<Rightarrow> jsstring list \<Rightarrow> 'b bare_response" where
  "handleBareV3Request U F uuid request corsHeaders stripHeaders =
     (case relay U F request of
        Fetched response \<Rightarrow>
          \<lparr> resp_status = 200,
            resp_headers = buildBareResponseHeaders response corsHeaders stripHeaders,
            resp_body = Stream (up_body response) \<rparr>
      | Threw e \<Rightarrow> toResponse uuid corsHeaders e
      | Failed msg \<Rightarrow> fetch_error_response uuid corsHeaders msg)"

text \<open>The constants of edge/src/index.js.\<close>

definition CORS_HEADERS :: "(jsstring \<times> jsstring) list" where
  "CORS_HEADERS =
     [(js_of ''Access-Control-Allow-Origin'', js_of ''*''),
      (js_of ''Access-Control-Allow-Methods'', js_of ''GET, POST, PUT, DELETE, PATCH, HEAD, OPTIONS''),
      (js_of ''Access-Control-Allow-Headers'', js_of ''*''),
      (js_of ''Access-Control-Expose-Headers'', js_of ''*''),
      (js_of ''Access-Control-Max-Age'', js_of ''86400'')]"

definition STRIP_HEADERS :: "jsstring list" where
  "STRIP_HEADERS =
     map js_of [''x-frame-options'', ''content-security-policy'',
                ''content-security-policy-report-only'', ''x-content-type-options'',
                ''x-xss-protection'', ''strict-transport-security'',
                ''cross-origin-opener-policy'', ''cross-origin-embedder-policy'',
                ''cross-origin-resource-policy'', ''permissions-policy'']"

text \<open>
  An example exchange: a request for \<open>http://t/\<close> that names \<open>x-frame-options\<close> in
  \<open>x-bare-pass-headers\<close>, and a target that answers 404 with that header.
\<close>

definition example_parser :: url_parser where
  "example_parser u =
     (if u = js_of ''http://t/''
      then Some \<lparr> origin = js_of ''http://t'', pathname = js_of ''/'',
                  protocol = js_of ''http:'', href = js_of ''http://t/'' \<rparr>
      else None)"

definition example_response :: "unit upstream_response" where
  "example_response =
     \<lparr> up_status = 404, up_statusText = js_of ''Not Found'',
       up_headers = [(js_of ''content-type'', js_of ''text/html''),
                     (js_of ''x-frame-options'', js_of ''DENY'')],
       up_body = () \<rparr>"

definition example_request :: "unit bare_request" where
  \<open>example_request =
     \<lparr> rq_method = js_of ''GET'',
       rq_headers = [(js_of ''x-bare-url'', js_of ''http://t/''),
                     (js_of ''x-bare-pass-headers'', js_of ''["x-frame-options"]'')],
       rq_body = () \<rparr>\<close>

text \<open>
  Two more answers of a target, one with a header named \<open>constructor\<close> and one with the
  headers \<open>__proto__\<close> and \<open>length\<close>, and a request whose \<open>x-bare-headers\<close> has a name with a
  space.
\<close>

definition constructor_response :: "unit upstream_response" where
  "constructor_response =
     \<lparr> up_status = 200, up_statusText = js_of ''OK'',
       up_headers = [(js_of ''constructor'', js_of ''c'')],
       up_body = () \<rparr>"

definition proto_response :: "unit upstream_response" where
  "proto_response =
     \<lparr> up_status = 200, up_statusText = js_of ''OK'',
       up_headers = [(js_of ''__proto__'', js_of ''x''), (js_of ''length'', js_of ''5'')],
       up_body = () \<rparr>"

definition invalid_name_request :: "unit bare_request" where
  \<open>invalid_name_request =
     \<lparr> rq_method = js_of ''GET'',
       rq_headers = [(js_of ''x-bare-url'', js_of ''http://t/''),
                     (js_of ''x-bare-headers'', js_of ''{"a b":"1"}'')],
       rq_body = () \<rparr>\<close>

section \<open>The URL codec (client/src/codec.js)\<close>

subsection \<open>\<open>btoa\<close> and \<open>atob\<close>\<close>

text \<open>The base64 alphabet: the character of a 6-bit value, and the value of a character.\<close>

definition b64_code :: "nat \<Rightarrow> nat" where
  "b64_code i =
     (if i < 26 then 65 + i else if i < 52 then 71 + i else if i < 62 then i - 4
      else if i = 62 then 43 else 47)"

definition b64_char :: "nat \<Rightarrow> 16 word" where
  "b64_char i = of_nat (b64_code i)"

definition b64_index :: "16 word \<Rightarrow> nat option" where
  "b64_index c =
     (let n = unat c
      in if 65 \<le> n \<and> n \<le> 90 then Some (n - 65)
         else if 97 \<le> n \<and> n \<le> 122 then Some (n - 71)
         else if 48 \<le> n \<and> n \<le> 57 then Some (n + 4)
         else if n = 43 then Some 62
         else if n = 47 then Some 63
         else None)"

text \<open>Three bytes make four 6-bit values; one byte makes two, and two make three.\<close>

fun sextets :: "nat list \<Rightarrow> nat list" where
  "sextets [] = []"
| "sextets [a] = [a div 4, a mod 4 * 16]"
| "sextets [a, b] = [a div 4, a mod 4 * 16 + b div 16, b mod 16 * 4]"
| "sextets (a # b # c # rest) =
     [a div 4, a mod 4 * 16 + b div 16, b mod 16 * 4 + c div 64, c mod 64] @ sextets rest"

definition b64_encode :: "nat list \<Rightarrow> jsstring" where
  "b64_encode bytes =
     map b64_char (sextets bytes) @ replicate ((3 - length bytes mod 3) mod 3) 0x3D"

text \<open>
  \<open>btoa\<close> takes a string of code units up to 255, one byte each, and throws an
  \<open>InvalidCharacterError\<close> on any other.
\<close>

definition btoa :: "jsstring \<Rightarrow> js_error + jsstring" where
  "btoa s =
     (if list_ex (\<lambda>c. 0xFF < c) s then Inl InvalidCharacterError
      else Inr (b64_encode (map unat s)))"

text \<open>
  \<open>atob\<close> (the forgiving base64 decoder): ASCII white space is removed; if the length is
  then a multiple of 4, one or two \<open>=\<close> at the end are removed; a length of 1 modulo 4 and
  any character outside the alphabet are errors; the bits left over at the end are dropped.
\<close>

definition is_ascii_ws :: "16 word \<Rightarrow> bool" where
  "is_ascii_ws c \<longleftrightarrow> c = 0x09 \<or> c = 0x0A \<or> c = 0x0C \<or> c = 0x0D \<or> c = 0x20"

definition strip_padding :: "jsstring \<Rightarrow> jsstring" where
  "strip_padding s =
     (case rev s of
        c # d # r \<Rightarrow> if c = 0x3D then (if d = 0x3D then rev r else rev (d # r)) else s
      | [c] \<Rightarrow> if c = 0x3D then [] else s
      | [] \<Rightarrow> s)"

fun bytes_of_sextets :: "nat list \<Rightarrow> nat list" where
  "bytes_of_sextets (s1 # s2 # s3 # s4 # rest) =
     [s1 * 4 + s2 div 16, s2 mod 16 * 16 + s3 div 4, s3 mod 4 * 64 + s4] @ bytes_of_sextets rest"
| "bytes_of_sextets [s1, s2, s3] = [s1 * 4 + s2 div 16, s2 mod 16 * 16 + s3 div 4]"
| "bytes_of_sextets [s1, s2] = [s1 * 4 + s2 div 16]"
| "bytes_of_sextets _ = []"

definition atob :: "jsstring \<Rightarrow> js_error + jsstring" where
  "atob encoded =
     (let d1 = filter (\<lambda>c. \<not> is_ascii_ws c) encoded;
          d2 = (if length d1 mod 4 = 0 then strip_padding d1 else d1)
      in if length d2 mod 4 = 1 then Inl InvalidCharacterError
         else (case those (map b64_index d2) of
                 None \<Rightarrow> Inl InvalidCharacterError
               | Some sx \<Rightarrow> Inr (map of_nat (bytes_of_sextets sx))))"

subsection \<open>The codec\<close>

text \<open>
  \<open>xor(str, key = 2)\<close>: each code unit is combined with the key.  (\<open>String.fromCharCode\<close>
  keeps the low 16 bits, so a 16-bit key is all that matters.)
\<close>

definition xor_codec :: "jsval \<Rightarrow> 16 word option \<Rightarrow> js_error + jsstring" where
  "xor_codec str key =
     (case str of
        JStr s \<Rightarrow> Inr (map (\<lambda>c. c XOR (case key of None \<Rightarrow> 2 | Some k \<Rightarrow> k)) s)
      | _ \<Rightarrow> Inl TypeError)"

text \<open>
  \<open>encodeUrl\<close> and \<open>decodeUrl\<close> on a platform that has \<open>btoa\<close> and \<open>atob\<close> (every browser,
  and Node.js from version 16): the \<open>Buffer\<close> branch is then not taken.
\<close>

definition encodeUrl :: "jsval \<Rightarrow> js_error + jsstring" where
  "encodeUrl u =
     (case u of
        JStr s \<Rightarrow> (case xor_codec u None of Inl e \<Rightarrow> Inl e | Inr xored \<Rightarrow> btoa xored)
      | _ \<Rightarrow> Inl TypeError)"

definition decodeUrl :: "jsval \<Rightarrow> js_error + jsstring" where
  "decodeUrl encoded =
     (case encoded of
        JStr s \<Rightarrow> (case atob s of Inl e \<Rightarrow> Inl e | Inr decoded \<Rightarrow> xor_codec (JStr decoded) None)
      | _ \<Rightarrow> Inl TypeError)"

section \<open>The header codec (client/src/codec.js)\<close>

text \<open>\<open>typeof v === 'object'\<close> (a \<open>JBuiltin\<close> is taken to be a function).\<close>

fun typeof_object :: "jsval \<Rightarrow> bool" where
  "typeof_object JNull = True"
| "typeof_object (JArr _) = True"
| "typeof_object (JObj _) = True"
| "typeof_object _ = False"

text \<open>
  \<open>encodeHeaders\<close>: \<open>encoded\<close> starts as the empty object and takes one assignment per entry
  of \<open>headers\<close>.
\<close>

definition encodeHeaders :: "jsval \<Rightarrow> jsstring" where
  "encodeHeaders headers =
     (if \<not> truthy headers \<or> \<not> typeof_object headers then js_of ''{}''
      else (case Object_entries headers of
              Inl e \<Rightarrow> js_of ''{}''
            | Inr kvs \<Rightarrow>
                JSON_stringify_object
                  (props (foldl (\<lambda>encoded kv. obj_set encoded (toLowerCase (fst kv))
                                                       (JStr (js_String (snd kv))))
                                empty_object kvs))))"

text \<open>
  \<open>decodeHeaders\<close>, with its \<open>try\<close> and \<open>catch\<close>: \<open>None\<close> is a \<open>null\<close> or missing header
  string.
\<close>

definition decodeHeaders :: "jsstring option \<Rightarrow> js_error + jsval" where
  "decodeHeaders headerString =
     (case headerString of
        None \<Rightarrow> Inr (JObj [])
      | Some s \<Rightarrow>
          if s = [] then Inr (JObj [])
          else (case JSON_parse s of
                  Inr v \<Rightarrow> Inr v
                | Inl e \<Rightarrow> Inr (JObj [])))"

chapter \<open>Verification\<close>

section \<open>Node tracker: health transitions\<close>

lemma lookup_update_same: "map_of (AList.update k v al) k = Some v"
  by (simp add: update_conv')

lemma lookup_update_other: "k' \<noteq> k \<Longrightarrow> map_of (AList.update k v al) k' = map_of al k'"
  by (simp add: update_conv')

lemma reportFailure_lookup:
  assumes "map_of (servers p) (normalizeUrl U u) = Some s"
  shows "map_of (servers (reportFailure U now u p)) (normalizeUrl U u) =
           Some (s\<lparr>failCount := failCount s + 1, totalRequests := totalRequests s + 1,
                   lastCheck := now,
                   healthy := (if int (failCount s) + 1 \<ge> maxFailures (options p)
                               then False else healthy s)\<rparr>)"
  using assms by (simp add: reportFailure_def Let_def lookup_update_same)

lemma reportFailure_options: "options (reportFailure U now u p) = options p"
  by (simp add: reportFailure_def Let_def split: option.splits)

lemma reportSuccess_lookup:
  assumes "map_of (servers p) (normalizeUrl U u) = Some s"
  shows "map_of (servers (reportSuccess U now u sample p)) (normalizeUrl U u) =
           Some (update_latency sample
                  (s\<lparr>healthy := True, failCount := 0, successCount := successCount s + 1,
                     totalRequests := totalRequests s + 1, lastCheck := now\<rparr>))"
  using assms by (simp add: reportSuccess_def Let_def lookup_update_same)

lemma update_latency_frame:
  "healthy (update_latency sample s) = healthy s"
  "failCount (update_latency sample s) = failCount s"
  "successCount (update_latency sample s) = successCount s"
  "totalRequests (update_latency sample s) = totalRequests s"
  "priority (update_latency sample s) = priority s"
  "url (update_latency sample s) = url s"
  "lastCheck (update_latency sample s) = lastCheck s"
  by (simp_all add: update_latency_def split: option.splits)

text \<open>
  C3.  With \<open>maxFailures = 3\<close>, a healthy server with no consecutive failure stays healthy
  after one and after two failure reports, is unhealthy after the third, and one success
  report then makes it healthy again with \<open>failCount = 0\<close>.
\<close>

theorem C3_failure_threshold:
  assumes mf: "maxFailures (options p) = 3"
    and s: "map_of (servers p) (normalizeUrl U u) = Some s"
    and h: "healthy s" and f: "failCount s = 0"
  shows "(\<exists>s1. map_of (servers (reportFailure U t1 u p)) (normalizeUrl U u) = Some s1
              \<and> healthy s1 \<and> failCount s1 = 1)
       \<and> (\<exists>s2. map_of (servers (reportFailure U t2 u (reportFailure U t1 u p))) (normalizeUrl U u) = Some s2
              \<and> healthy s2 \<and> failCount s2 = 2)
       \<and> (\<exists>s3. map_of (servers (reportFailure U t3 u (reportFailure U t2 u (reportFailure U t1 u p))))
                   (normalizeUrl U u) = Some s3
              \<and> \<not> healthy s3 \<and> failCount s3 = 3)
       \<and> (\<exists>s4. map_of (servers (reportSuccess U t4 u sample
                     (reportFailure U t3 u (reportFailure U t2 u (reportFailure U t1 u p)))))
                   (normalizeUrl U u) = Some s4
              \<and> healthy s4 \<and> failCount s4 = 0)"
proof -
  let ?k = "normalizeUrl U u"
  let ?p1 = "reportFailure U t1 u p"
  let ?p2 = "reportFailure U t2 u ?p1"
  let ?p3 = "reportFailure U t3 u ?p2"
  have o1: "maxFailures (options ?p1) = 3" and o2: "maxFailures (options ?p2) = 3"
    using mf by (simp_all add: reportFailure_options)
  from reportFailure_lookup[OF s, of t1] mf h f
  obtain s1 where s1: "map_of (servers ?p1) ?k = Some s1" "healthy s1" "failCount s1 = 1"
    by simp
  from reportFailure_lookup[OF s1(1), of t2] o1 s1
  obtain s2 where s2: "map_of (servers ?p2) ?k = Some s2" "healthy s2" "failCount s2 = 2"
    by simp
  from reportFailure_lookup[OF s2(1), of t3] o2 s2
  obtain s3 where s3: "map_of (servers ?p3) ?k = Some s3" "\<not> healthy s3" "failCount s3 = 3"
    by simp
  from reportSuccess_lookup[OF s3(1), of t4 sample]
  obtain s4 where s4: "map_of (servers (reportSuccess U t4 u sample ?p3)) ?k = Some s4"
      "healthy s4" "failCount s4 = 0"
    by (simp add: update_latency_frame)
  from s1 s2 s3 s4 show ?thesis by blast
qed

theorem C3_failure_threshold_witness:
  "(let U = (\<lambda>_. None); u = js_of ''n1'';
        p = snd (addServer U u None (new_ServerPool None None (Some 3) None None));
        p3 = reportFailure U 3 u (reportFailure U 2 u (reportFailure U 1 u p))
    in maxFailures (options p) = 3
       \<and> (\<exists>s. map_of (servers p) (normalizeUrl U u) = Some s \<and> healthy s \<and> failCount s = 0)
       \<and> (\<exists>s3. map_of (servers p3) (normalizeUrl U u) = Some s3 \<and> \<not> healthy s3 \<and> failCount s3 = 3)
       \<and> (\<exists>s4. map_of (servers (reportSuccess U 4 u (JNum (Fin 120)) p3)) (normalizeUrl U u) = Some s4
                \<and> healthy s4 \<and> failCount s4 = 0))"
proof -
  define U :: url_parser where "U = (\<lambda>_. None)"
  define u where "u = js_of ''n1''"
  define p where "p = snd (addServer U u None (new_ServerPool None None (Some 3) None None))"
  define s where "s = \<lparr> url = normalizeUrl U u, priority = 10, healthy = True,
                                 latency = PosInf, failCount = 0, lastCheck = 0,
                                 successCount = 0, totalRequests = 0 \<rparr>"
  have mf: "maxFailures (options p) = 3"
    by (simp add: p_def addServer_def new_ServerPool_def or_default_def Let_def)
  have l: "map_of (servers p) (normalizeUrl U u) = Some s"
    by (simp add: p_def s_def addServer_def new_ServerPool_def Let_def)
  have h: "healthy s" and f: "failCount s = 0" by (simp_all add: s_def)
  from C3_failure_threshold[OF mf l h f, of 1 2 3 4 "JNum (Fin 120)"] mf l h f
  show ?thesis unfolding Let_def U_def[symmetric] u_def[symmetric] p_def[symmetric] by blast
qed

section \<open>Node tracker: latency estimate\<close>

subsection \<open>Rounding to a double\<close>

lemma quotient_of_abs_pos:
  assumes "x \<noteq> 0" "quotient_of \<bar>x\<bar> = (p, q)"
  shows "0 < p" "0 < q" "\<bar>x\<bar> = of_int p / of_int q"
proof -
  show q: "0 < q" using assms(2) by (rule quotient_of_denom_pos)
  show eq: "\<bar>x\<bar> = of_int p / of_int q" using assms(2) by (rule quotient_of_div)
  have "0 < \<bar>x\<bar>" using assms(1) by simp
  with eq q show "0 < p" by (simp add: zero_less_divide_iff)
qed

lemma two_powi_pos: "0 < (2::rat) powi n"
  by (simp add: power_int_def)

lemma two_powi_Suc: "(2::rat) powi (n + 1) = 2 * 2 powi n"
  by (simp add: power_int_add)

lemma two_powi_pred: "(2::rat) powi (n - 1) = 2 powi n / 2"
  by (simp add: power_int_diff)

lemma binade_bounds:
  assumes "x \<noteq> 0"
  shows "2 powi binade x \<le> \<bar>x\<bar>" "\<bar>x\<bar> < 2 powi (binade x + 1)"
proof -
  obtain p q where pq: "quotient_of \<bar>x\<bar> = (p, q)" by (cases "quotient_of \<bar>x\<bar>")
  note f = quotient_of_abs_pos[OF assms pq]
  define d where "d = bitlen p - bitlen q"
  have bp: "2 ^ nat (bitlen p - 1) \<le> p" "p < 2 ^ nat (bitlen p)" using bitlen_bounds[OF f(1)] by auto
  have bq: "2 ^ nat (bitlen q - 1) \<le> q" "q < 2 ^ nat (bitlen q)" using bitlen_bounds[OF f(2)] by auto
  have p1: "1 \<le> bitlen p" using f(1) by (auto simp: bitlen_alt_def)
  have q1: "1 \<le> bitlen q" using f(2) by (auto simp: bitlen_alt_def)
  have P1: "(2::rat) powi (bitlen p - 1) \<le> of_int p"
  proof -
    have "(of_int (2 ^ nat (bitlen p - 1)) :: rat) \<le> of_int p" using bp(1) by (simp only: of_int_le_iff)
    then show ?thesis using p1 by (simp add: power_int_def)
  qed
  have P2: "of_int p < (2::rat) powi (bitlen p)"
  proof -
    have "(of_int p :: rat) < of_int (2 ^ nat (bitlen p))" using bp(2) by (simp only: of_int_less_iff)
    then show ?thesis using p1 by (simp add: power_int_def)
  qed
  have Q1: "(2::rat) powi (bitlen q - 1) \<le> of_int q"
  proof -
    have "(of_int (2 ^ nat (bitlen q - 1)) :: rat) \<le> of_int q" using bq(1) by (simp only: of_int_le_iff)
    then show ?thesis using q1 by (simp add: power_int_def)
  qed
  have Q2: "of_int q < (2::rat) powi (bitlen q)"
  proof -
    have "(of_int q :: rat) < of_int (2 ^ nat (bitlen q))" using bq(2) by (simp only: of_int_less_iff)
    then show ?thesis using q1 by (simp add: power_int_def)
  qed
  have qpos: "(0::rat) < of_int q" using f(2) by simp
  have lo: "2 powi (d - 1) < \<bar>x\<bar>"
  proof -
    have "2 powi (d - 1) * of_int q < (2::rat) powi (d - 1) * 2 powi (bitlen q)"
      using Q2 two_powi_pos[of "d - 1"] by (simp add: mult_strict_left_mono)
    also have "\<dots> = 2 powi (bitlen p - 1)"
      by (simp add: d_def flip: power_int_add)
    also have "\<dots> \<le> of_int p" by (rule P1)
    finally have "2 powi (d - 1) * of_int q < (of_int p :: rat)" .
    then show ?thesis using qpos by (simp add: f(3) pos_less_divide_eq)
  qed
  have hi: "\<bar>x\<bar> < 2 powi (d + 1)"
  proof -
    have "(of_int p :: rat) < 2 powi (bitlen p)" by (rule P2)
    also have "\<dots> = 2 powi (d + 1) * 2 powi (bitlen q - 1)"
      by (simp add: d_def flip: power_int_add)
    also have "\<dots> \<le> 2 powi (d + 1) * of_int q"
      using Q1 two_powi_pos[of "d + 1"] by (simp add: mult_left_mono)
    finally have "(of_int p :: rat) < 2 powi (d + 1) * of_int q" .
    then show ?thesis using qpos by (simp add: f(3) pos_divide_less_eq)
  qed
  have b: "binade x = (if 2 powi d \<le> \<bar>x\<bar> then d else d - 1)"
    by (simp add: binade_def pq d_def Let_def)
  show "2 powi binade x \<le> \<bar>x\<bar>" using lo by (simp add: b)
  show "\<bar>x\<bar> < 2 powi (binade x + 1)" using hi by (auto simp: b not_le)
qed

lemma two_powi_less_cancel: "(2::rat) powi a < 2 powi b \<Longrightarrow> a < b"
proof (rule ccontr)
  assume l: "(2::rat) powi a < 2 powi b" and "\<not> a < b"
  then have "b \<le> a" by simp
  then have "(2::rat) powi b \<le> 2 powi a" by (rule power_int_increasing) simp
  with l show False by simp
qed

lemma two_powi_le_nonzero: "(2::rat) powi e \<le> \<bar>x\<bar> \<Longrightarrow> x \<noteq> 0"
proof
  assume "(2::rat) powi e \<le> \<bar>x\<bar>" "x = 0"
  then have "(2::rat) powi e \<le> 0" by simp
  with two_powi_pos[of e] show False by linarith
qed

lemma binade_unique:
  assumes "2 powi e \<le> \<bar>x\<bar>" "\<bar>x\<bar> < 2 powi (e + 1)"
  shows "binade x = e"
proof -
  have nz: "x \<noteq> 0" using assms(1) by (rule two_powi_le_nonzero)
  note b = binade_bounds[OF nz]
  have "(2::rat) powi e < 2 powi (binade x + 1)" using assms(1) b(2) by simp
  then have 1: "e < binade x + 1" by (rule two_powi_less_cancel)
  have "(2::rat) powi (binade x) < 2 powi (e + 1)" using assms(2) b(1) by simp
  then have 2: "binade x < e + 1" by (rule two_powi_less_cancel)
  from 1 2 show ?thesis by simp
qed

lemma round_ties_even_near: "\<bar>of_int (round_ties_even y) - y\<bar> \<le> 1 / 2"
proof -
  have "of_int \<lfloor>y\<rfloor> \<le> y" "y < of_int \<lfloor>y\<rfloor> + 1" by linarith+
  then show ?thesis by (auto simp: round_ties_even_def Let_def)
qed

lemma round_ties_even_eqI:
  assumes "\<bar>y - of_int n\<bar> < 1 / 2"
  shows "round_ties_even y = n"
proof -
  have "of_int \<lfloor>y\<rfloor> \<le> y" "y < of_int \<lfloor>y\<rfloor> + 1" by linarith+
  have "\<bar>of_int (round_ties_even y) - y\<bar> \<le> 1 / 2" by (rule round_ties_even_near)
  with assms have "\<bar>(of_int (round_ties_even y) :: rat) - of_int n\<bar> < 1" by linarith
  then have "\<bar>of_int (round_ties_even y - n) :: rat\<bar> < 1" by simp
  then have "\<bar>round_ties_even y - n\<bar> < 1" by (simp only: of_int_abs [symmetric] of_int_less_1_iff)
  then show ?thesis by simp
qed

lemma round_ties_even_tie:
  assumes "y = of_int n + 1 / 2"
  shows "round_ties_even y = (if even n then n else n + 1)"
proof -
  have "\<lfloor>y\<rfloor> = n" unfolding assms by (simp add: floor_eq_iff)
  then show ?thesis by (simp add: round_ties_even_def Let_def assms)
qed

lemma to_double_rounded:
  assumes "2 powi e \<le> \<bar>x\<bar>" "\<bar>x\<bar> < 2 powi (e + 1)" "- 1022 \<le> e"
    and "round_ties_even (x / 2 powi (e - 52)) = n"
    and "\<bar>of_int n * 2 powi (e - 52)\<bar> < (2::rat) powi 1024"
  shows "to_double x = Fin (of_int n * 2 powi (e - 52))"
proof -
  have nz: "x \<noteq> 0" using assms(1) by (rule two_powi_le_nonzero)
  have b: "binade x = e" using assms(1,2) by (rule binade_unique)
  have m: "max e (- 1022) = e" using assms(3) by simp
  show ?thesis using nz assms(5) by (simp add: to_double_def b m assms(4) Let_def not_le)
qed

lemma to_double_eqI:
  assumes "2 powi e \<le> \<bar>x\<bar>" "\<bar>x\<bar> < 2 powi (e + 1)" "- 1022 \<le> e"
    and "\<bar>x / 2 powi (e - 52) - of_int n\<bar> < 1 / 2"
    and "\<bar>of_int n * 2 powi (e - 52)\<bar> < (2::rat) powi 1024"
  shows "to_double x = Fin (of_int n * 2 powi (e - 52))"
  using assms(1-3) round_ties_even_eqI[OF assms(4)] assms(5) by (rule to_double_rounded)

lemma double_7_10: "to_double (7 / 10) = Fin (3152519739159347 / 4503599627370496)"
  using to_double_eqI[of "- 1" "7 / 10" 6305039478318694] by (simp add: power_int_minus)

lemma double_3_10: "to_double (3 / 10) = Fin (5404319552844595 / 18014398509481984)"
  using to_double_eqI[of "- 2" "3 / 10" 5404319552844595] by (simp add: power_int_minus)

text \<open>The error of one rounding, for a result that does not overflow.\<close>

lemma to_double_error:
  assumes "\<bar>x\<bar> < 2 ^ 1023"
  shows "\<exists>r. to_double x = Fin r \<and> \<bar>r - x\<bar> \<le> \<bar>x\<bar> / 2 ^ 53 + 1 / 2 ^ 1075"
proof (cases "x = 0")
  case True
  then show ?thesis by (simp add: to_double_def)
next
  case False
  define e where "e = max (binade x) (- 1022)"
  define ulp :: rat where "ulp = 2 powi (e - 52)"
  define n where "n = round_ties_even (x / ulp)"
  define r where "r = of_int n * ulp"
  have ulp_pos: "0 < ulp" by (simp add: ulp_def two_powi_pos)
  have "\<bar>of_int n - x / ulp\<bar> \<le> 1 / 2" unfolding n_def by (rule round_ties_even_near)
  then have "\<bar>of_int n - x / ulp\<bar> * ulp \<le> 1 / 2 * ulp"
    using ulp_pos by (simp add: mult_right_mono)
  moreover have "\<bar>of_int n - x / ulp\<bar> * ulp = \<bar>r - x\<bar>"
  proof -
    have "\<bar>of_int n - x / ulp\<bar> * ulp = \<bar>(of_int n - x / ulp) * ulp\<bar>"
      using ulp_pos by (simp add: abs_mult)
    also have "(of_int n - x / ulp) * ulp = r - x"
      using ulp_pos by (simp add: r_def left_diff_distrib)
    finally show ?thesis .
  qed
  ultimately have err: "\<bar>r - x\<bar> \<le> ulp / 2" by simp
  have ulp_le: "ulp / 2 \<le> \<bar>x\<bar> / 2 ^ 53 + 1 / 2 ^ 1075"
  proof (cases "- 1022 \<le> binade x")
    case True
    then have "e = binade x" by (simp add: e_def)
    then have "ulp = 2 powi (binade x) / 2 ^ 52" by (simp add: ulp_def power_int_diff)
    also have "\<dots> \<le> \<bar>x\<bar> / 2 ^ 52" using binade_bounds(1)[OF False] by (simp add: divide_right_mono)
    finally have "ulp / 2 \<le> \<bar>x\<bar> / 2 ^ 53" by simp
    then show ?thesis by simp
  next
    case False
    then have "e = - 1022" by (simp add: e_def)
    then have "ulp = 1 / 2 ^ 1074" by (simp add: ulp_def power_int_minus_divide)
    then have "ulp / 2 = 1 / 2 ^ 1075" by simp
    then show ?thesis by simp
  qed
  have "\<bar>r\<bar> \<le> \<bar>x\<bar> + \<bar>r - x\<bar>" by simp
  also have "\<dots> \<le> \<bar>x\<bar> + (\<bar>x\<bar> / 2 ^ 53 + 1 / 2 ^ 1075)" using err ulp_le by simp
  also have "\<dots> < 2 ^ 1024" using assms by simp
  finally have fin: "\<bar>r\<bar> < 2 powi 1024" by simp
  have "to_double x = Fin r"
    using False fin by (simp add: to_double_def Let_def e_def [symmetric] ulp_def [symmetric]
        n_def [symmetric] r_def [symmetric] not_le)
  with err ulp_le show ?thesis by auto
qed

subsection \<open>The weighted average\<close>

text \<open>
  The two products, the sum and the rounding for an estimate of 24 with a sample of 29, and
  for an estimate of 100 with a sample of 101.  In the first case the exact average is 25.5,
  and the sum of the rounded products is the double just below it.
\<close>

lemma double_mul_24: "to_double (9457559217478041 / 562949953421312) = Fin (1182194902184755 / 70368744177664)"
  using to_double_rounded[of "4" "9457559217478041 / 562949953421312" 4728779608739020]
    round_ties_even_tie[of "9457559217478041 / 2" 4728779608739020]
  by (simp add: power_int_minus)

lemma double_mul_29: "to_double (156725267032493255 / 18014398509481984) = Fin (2448832297382707 / 281474976710656)"
  using to_double_eqI[of "3" "156725267032493255 / 18014398509481984" 4897664594765414] by (simp add: power_int_minus)

lemma double_add_24_29: "to_double (7177611906121727 / 281474976710656) = Fin (7177611906121727 / 281474976710656)"
  using to_double_eqI[of "4" "7177611906121727 / 281474976710656" 7177611906121727] by (simp add: power_int_minus)

lemma double_mul_100: "to_double (78812993478983675 / 1125899906842624) = Fin 70"
  using to_double_eqI[of "6" "78812993478983675 / 1125899906842624" 4925812092436480] by (simp add: power_int_minus)

lemma double_mul_101: "to_double (545836274837304095 / 18014398509481984) = Fin (2132172948583219 / 70368744177664)"
  using to_double_eqI[of "4" "545836274837304095 / 18014398509481984" 8528691794332876] by (simp add: power_int_minus)

lemma double_add_100_101: "to_double (7057985041019699 / 70368744177664) = Fin (7057985041019699 / 70368744177664)"
  using to_double_eqI[of "6" "7057985041019699 / 70368744177664" 7057985041019699] by (simp add: power_int_minus)


lemma average_24_29:
  "Math_round (num_add (num_mul (Fin 24) (to_double (7 / 10))) (num_mul (Fin 29) (to_double (3 / 10)))) = Fin 25"
  by (simp add: double_7_10 double_3_10 double_mul_24 double_mul_29 double_add_24_29 floor_eq_iff)

lemma average_100_101:
  "num_add (num_mul (Fin 100) (to_double (7 / 10))) (num_mul (Fin 101) (to_double (3 / 10)))
     = Fin (7057985041019699 / 70368744177664)"
  by (simp add: double_7_10 double_3_10 double_mul_100 double_mul_101 double_add_100_101)

lemma round_100_101: "Math_round (Fin (7057985041019699 / 70368744177664)) = Fin 100"
  by (simp add: floor_eq_iff)

text \<open>
  The stored integer is within a half, and a relative error of three roundings, of the exact
  weighted average.
\<close>

lemma weighted_average_accuracy:
  assumes a: "0 \<le> a" "a \<le> 2 ^ 1000" and b: "0 < b" "b \<le> 2 ^ 1000"
  shows "\<exists>n. Math_round (num_add (num_mul (Fin a) (to_double (7 / 10)))
                                 (num_mul (Fin b) (to_double (3 / 10)))) = Fin (of_int n)
             \<and> \<bar>of_int n - (7 / 10 * a + 3 / 10 * b)\<bar> \<le> 1 / 2 + (a + b) / 2 ^ 51 + 1 / 2 ^ 1070"
proof -
  let ?c7 = "3152519739159347 / 4503599627370496 :: rat"
  let ?c3 = "5404319552844595 / 18014398509481984 :: rat"
  define d :: rat where "d = 1 / 2 ^ 1075"
  define u :: rat where "u = 1 / 2 ^ 53"
  define B :: rat where "B = 2 ^ 1000"
  have d: "0 \<le> d" "d \<le> 1" "4 * d \<le> 1 / 2 ^ 1070" by (simp_all add: d_def)
  have B: "B * 4 < 2 ^ 1023" by (simp add: B_def)
  have aB: "a \<le> B" and bB: "b \<le> B" using a b by (simp_all add: B_def)
  have p1: "\<bar>a * ?c7\<bar> < 2 ^ 1023" using a(1) aB B by simp
  have p2: "\<bar>b * ?c3\<bar> < 2 ^ 1023" using b(1) bB B by simp
  have abs1: "\<bar>a * ?c7\<bar> = a * ?c7" using a by simp
  have abs2: "\<bar>b * ?c3\<bar> = b * ?c3" using b by simp
  from to_double_error[OF p1] obtain m1 where
    m1: "to_double (a * ?c7) = Fin m1" and e1: "\<bar>m1 - a * ?c7\<bar> \<le> a * ?c7 / 2 ^ 53 + d"
    unfolding abs1 d_def by blast
  from to_double_error[OF p2] obtain m2 where
    m2: "to_double (b * ?c3) = Fin m2" and e2: "\<bar>m2 - b * ?c3\<bar> \<le> b * ?c3 / 2 ^ 53 + d"
    unfolding abs2 d_def by blast
  have A1: "\<bar>m1 - 7 / 10 * a\<bar> \<le> a / 2 ^ 52 + d" using e1 a(1) by simp
  have A2: "\<bar>m2 - 3 / 10 * b\<bar> \<le> b / 2 ^ 52 + d" using e2 b(1) by simp
  have S: "\<bar>m1 + m2\<bar> \<le> (a + b) + 2 * d" using A1 A2 a(1) b(1) by simp
  have s: "\<bar>m1 + m2\<bar> < 2 ^ 1023" using S aB bB B d(2) by simp
  from to_double_error[OF s] obtain r where
    r: "to_double (m1 + m2) = Fin r" and e3: "\<bar>r - (m1 + m2)\<bar> \<le> \<bar>m1 + m2\<bar> / 2 ^ 53 + d"
    unfolding d_def by blast
  have R: "\<bar>r - (m1 + m2)\<bar> \<le> (a + b) / 2 ^ 53 + 2 * d"
  proof -
    have "\<bar>m1 + m2\<bar> / 2 ^ 53 \<le> (a + b + 2 * d) / 2 ^ 53"
      using S by (simp add: divide_right_mono)
    also have "\<dots> = (a + b) / 2 ^ 53 + 2 * d / 2 ^ 53" by (simp add: add_divide_distrib)
    also have "\<dots> \<le> (a + b) / 2 ^ 53 + d" using d(1) by simp
    finally show ?thesis using e3 by linarith
  qed
  define n where "n = \<lfloor>r + 1 / 2\<rfloor>"
  have n: "\<bar>of_int n - r\<bar> \<le> 1 / 2" unfolding n_def by linarith
  have val: "Math_round (num_add (num_mul (Fin a) (to_double (7 / 10)))
                                 (num_mul (Fin b) (to_double (3 / 10)))) = Fin (of_int n)"
    using m1 m2 r by (simp add: double_7_10 double_3_10 n_def)
  have tri: "\<bar>w + x + y + z\<bar> \<le> \<bar>w\<bar> + \<bar>x\<bar> + \<bar>y\<bar> + \<bar>z\<bar>" for w x y z :: rat
    by linarith
  have "of_int n - (7 / 10 * a + 3 / 10 * b)
          = (of_int n - r) + (r - (m1 + m2)) + (m1 - 7 / 10 * a) + (m2 - 3 / 10 * b)"
    by simp
  then have "\<bar>of_int n - (7 / 10 * a + 3 / 10 * b)\<bar>
          \<le> \<bar>of_int n - r\<bar> + \<bar>r - (m1 + m2)\<bar> + \<bar>m1 - 7 / 10 * a\<bar> + \<bar>m2 - 3 / 10 * b\<bar>"
    by (simp only: tri)
  also have "\<dots> \<le> 1 / 2 + ((a + b) / 2 ^ 53 + 2 * d) + (a / 2 ^ 52 + d) + (b / 2 ^ 52 + d)"
    using n R A1 A2 by (intro add_mono)
  also have "\<dots> \<le> 1 / 2 + (a + b) / 2 ^ 51 + 4 * d"
    using a(1) b(1) by (simp add: add_divide_distrib)
  finally have "\<bar>of_int n - (7 / 10 * a + 3 / 10 * b)\<bar> \<le> 1 / 2 + (a + b) / 2 ^ 51 + 4 * d" .
  with d(3) have "\<bar>of_int n - (7 / 10 * a + 3 / 10 * b)\<bar> \<le> 1 / 2 + (a + b) / 2 ^ 51 + 1 / 2 ^ 1070"
    by linarith
  with val show ?thesis by blast
qed

lemma num_seq_PosInf: "num_seq x PosInf = (x = PosInf)"
  by (cases x) auto

text \<open>
  C4 (as amended).  A success report updates the latency estimate only when its sample is a
  number greater than 0.  Then a server without an estimate (\<open>Infinity\<close>) takes the sample,
  and any other takes \<open>Math.round(0.7 * old + 0.3 * sample)\<close>, computed in double arithmetic:
  an integer, which for an estimate and a sample up to \<open>2 ^ 1000\<close> differs from the exact
  weighted average by at most a half and a rounding error.  Any other sample leaves the
  estimate as it was.
\<close>

theorem C4_latency_update_rounded:
  assumes s: "map_of (servers p) (normalizeUrl U u) = Some s"
  shows "\<exists>s'. map_of (servers (reportSuccess U now u sample p)) (normalizeUrl U u) = Some s'
           \<and> latency s' =
               (case sample of
                  JNum n \<Rightarrow>
                    if num_lt (Fin 0) n
                    then (if latency s = PosInf then n
                          else Math_round (num_add (num_mul (latency s) (to_double (7 / 10)))
                                                   (num_mul n (to_double (3 / 10)))))
                    else latency s
                | _ \<Rightarrow> latency s)
           \<and> (\<forall>a b. latency s = Fin a \<and> sample = JNum (Fin b)
                      \<and> 0 \<le> a \<and> a \<le> 2 ^ 1000 \<and> 0 < b \<and> b \<le> 2 ^ 1000 \<longrightarrow>
                 (\<exists>n. latency s' = Fin (of_int n)
                      \<and> \<bar>of_int n - (7 / 10 * a + 3 / 10 * b)\<bar>
                            \<le> 1 / 2 + (a + b) / 2 ^ 51 + 1 / 2 ^ 1070))"
proof -
  from reportSuccess_lookup[OF s, of now sample]
  obtain s' where l: "map_of (servers (reportSuccess U now u sample p)) (normalizeUrl U u) = Some s'"
    and s': "s' = update_latency sample
                   (s\<lparr>healthy := True, failCount := 0, successCount := successCount s + 1,
                      totalRequests := totalRequests s + 1, lastCheck := now\<rparr>)"
    by simp
  have eq: "latency s' =
               (case sample of
                  JNum n \<Rightarrow>
                    if num_lt (Fin 0) n
                    then (if latency s = PosInf then n
                          else Math_round (num_add (num_mul (latency s) (to_double (7 / 10)))
                                                   (num_mul n (to_double (3 / 10)))))
                    else latency s
                | _ \<Rightarrow> latency s)"
    unfolding s' by (cases sample) (simp_all add: update_latency_def num_seq_PosInf)
  have acc: "\<exists>n. latency s' = Fin (of_int n)
                  \<and> \<bar>of_int n - (7 / 10 * a + 3 / 10 * b)\<bar>
                        \<le> 1 / 2 + (a + b) / 2 ^ 51 + 1 / 2 ^ 1070"
    if h: "latency s = Fin a \<and> sample = JNum (Fin b)
             \<and> 0 \<le> a \<and> a \<le> 2 ^ 1000 \<and> 0 < b \<and> b \<le> 2 ^ 1000" for a b
  proof -
    from h have "latency s' = Math_round (num_add (num_mul (Fin a) (to_double (7 / 10)))
                                                  (num_mul (Fin b) (to_double (3 / 10))))"
      unfolding eq by simp
    with weighted_average_accuracy[of a b] h show ?thesis by simp
  qed
  from l eq acc show ?thesis by blast
qed

theorem C4_latency_update_rounded_witness:
  "map_of [(js_of ''n1'', srv (js_of ''n1'') 10 (Fin 24))] (normalizeUrl (\<lambda>_. None) (js_of ''n1''))
     = Some (srv (js_of ''n1'') 10 (Fin 24))
   \<and> (\<exists>s'. map_of (servers (reportSuccess (\<lambda>_. None) 5 (js_of ''n1'') (JNum (Fin 29))
                 \<lparr> servers = [(js_of ''n1'', srv (js_of ''n1'') 10 (Fin 24))],
                   options = options (new_ServerPool None None None None None),
                   roundRobinIndex = 0 \<rparr>))
               (normalizeUrl (\<lambda>_. None) (js_of ''n1'')) = Some s'
            \<and> latency s' = Fin 25
            \<and> (\<exists>n. latency s' = Fin (of_int n)
                  \<and> \<bar>of_int n - (7 / 10 * 24 + 3 / 10 * 29 :: rat)\<bar>
                        \<le> 1 / 2 + (24 + 29) / 2 ^ 51 + 1 / 2 ^ 1070))"
proof -
  let ?s = "srv (js_of ''n1'') 10 (Fin 24)"
  let ?p = "\<lparr> servers = [(js_of ''n1'', ?s)],
              options = options (new_ServerPool None None None None None),
              roundRobinIndex = 0 \<rparr>"
  have l: "map_of (servers ?p) (normalizeUrl (\<lambda>_. None) (js_of ''n1'')) = Some ?s"
    by (simp add: normalizeUrl_def strip_trailing_slashes_def js_of_def)
  have lat: "latency ?s = Fin 24"
    by (simp add: srv_def)
  from C4_latency_update_rounded[OF l, of 5 "JNum (Fin 29)"]
  obtain s' where 1: "map_of (servers (reportSuccess (\<lambda>_. None) 5 (js_of ''n1'') (JNum (Fin 29)) ?p))
                     (normalizeUrl (\<lambda>_. None) (js_of ''n1'')) = Some s'"
    and 2: "latency s' =
               (case JNum (Fin 29) of
                  JNum n \<Rightarrow>
                    if num_lt (Fin 0) n
                    then (if latency ?s = PosInf then n
                          else Math_round (num_add (num_mul (latency ?s) (to_double (7 / 10)))
                                                   (num_mul n (to_double (3 / 10)))))
                    else latency ?s
                | _ \<Rightarrow> latency ?s)"
    and 3: "\<forall>a b. latency ?s = Fin a \<and> JNum (Fin 29) = JNum (Fin b)
                      \<and> 0 \<le> a \<and> a \<le> 2 ^ 1000 \<and> 0 < b \<and> b \<le> 2 ^ 1000 \<longrightarrow>
                 (\<exists>n. latency s' = Fin (of_int n)
                      \<and> \<bar>of_int n - (7 / 10 * a + 3 / 10 * b)\<bar>
                            \<le> 1 / 2 + (a + b) / 2 ^ 51 + 1 / 2 ^ 1070)"
    by blast
  from 2 have "latency s' = Math_round (num_add (num_mul (Fin 24) (to_double (7 / 10)))
                                               (num_mul (Fin 29) (to_double (3 / 10))))"
    unfolding lat by simp
  then have 4: "latency s' = Fin 25" by (simp only: average_24_29)
  have h: "latency ?s = Fin 24 \<and> JNum (Fin 29) = JNum (Fin 29)
             \<and> (0::rat) \<le> 24 \<and> (24::rat) \<le> 2 ^ 1000 \<and> (0::rat) < 29 \<and> (29::rat) \<le> 2 ^ 1000"
    by (simp add: lat)
  have 5: "\<exists>n. latency s' = Fin (of_int n)
                      \<and> \<bar>of_int n - (7 / 10 * 24 + 3 / 10 * 29 :: rat)\<bar>
                            \<le> 1 / 2 + (24 + 29) / 2 ^ 51 + 1 / 2 ^ 1070"
    by (rule 3[rule_format, OF h])
  show ?thesis
  proof (rule conjI)
    show "map_of [(js_of ''n1'', ?s)] (normalizeUrl (\<lambda>_. None) (js_of ''n1'')) = Some ?s"
      using l by simp
    show "\<exists>s'. map_of (servers (reportSuccess (\<lambda>_. None) 5 (js_of ''n1'') (JNum (Fin 29)) ?p))
               (normalizeUrl (\<lambda>_. None) (js_of ''n1'')) = Some s'
            \<and> latency s' = Fin 25
            \<and> (\<exists>n. latency s' = Fin (of_int n)
                  \<and> \<bar>of_int n - (7 / 10 * 24 + 3 / 10 * 29 :: rat)\<bar>
                        \<le> 1 / 2 + (24 + 29) / 2 ^ 51 + 1 / 2 ^ 1070)"
      by (rule exI[of _ s'], intro conjI) (rule 1 4 5)+
  qed
qed

text \<open>
  C4 as the specification states it fails at two inputs.  With an estimate of 100 and a
  sample of 101 the code stores 100, where \<open>0.7 * 100 + 0.3 * 101\<close> is the double nearest to
  100.3; and a first sample of 0 is ignored, the estimate staying \<open>Infinity\<close>.
\<close>

theorem C4_counterexample:
  "map (latency \<circ> snd)
     (servers (reportSuccess (\<lambda>_. None) 5 (js_of ''n1'') (JNum (Fin 101))
        \<lparr> servers = [(js_of ''n1'', srv (js_of ''n1'') 10 (Fin 100))],
          options = options (new_ServerPool None None None None None),
          roundRobinIndex = 0 \<rparr>)) = [Fin 100]
   \<and> num_add (num_mul (Fin 100) (to_double (7 / 10))) (num_mul (Fin 101) (to_double (3 / 10)))
       = Fin (7057985041019699 / 70368744177664)
   \<and> Fin 100 \<noteq> Fin (7057985041019699 / 70368744177664)
   \<and> map (latency \<circ> snd)
        (servers (snd (addServer (\<lambda>_. None) (js_of ''n1'') None
                         (new_ServerPool None None None None None)))) = [PosInf]
   \<and> map (latency \<circ> snd)
        (servers (reportSuccess (\<lambda>_. None) 5 (js_of ''n1'') (JNum (Fin 0))
           (snd (addServer (\<lambda>_. None) (js_of ''n1'') None
                   (new_ServerPool None None None None None))))) = [PosInf]
   \<and> PosInf \<noteq> Fin 0"
proof -
  have r: "Math_round (num_add (num_mul (Fin 100) (to_double (7 / 10)))
                               (num_mul (Fin 101) (to_double (3 / 10)))) = Fin 100"
    by (simp only: average_100_101 round_100_101)
  have 1: "map (latency \<circ> snd)
     (servers (reportSuccess (\<lambda>_. None) 5 (js_of ''n1'') (JNum (Fin 101))
        \<lparr> servers = [(js_of ''n1'', srv (js_of ''n1'') 10 (Fin 100))],
          options = options (new_ServerPool None None None None None),
          roundRobinIndex = 0 \<rparr>)) = [Fin 100]"
    using r by (simp add: Let_def reportSuccess_def normalizeUrl_def strip_trailing_slashes_def
        js_of_def update_latency_def srv_def del: num_mul.simps num_add.simps Math_round.simps)
  have 2: "map (latency \<circ> snd)
        (servers (snd (addServer (\<lambda>_. None) (js_of ''n1'') None
                         (new_ServerPool None None None None None)))) = [PosInf]"
    by (simp add: Let_def addServer_def new_ServerPool_def normalizeUrl_def
        strip_trailing_slashes_def js_of_def)
  have 3: "map (latency \<circ> snd)
        (servers (reportSuccess (\<lambda>_. None) 5 (js_of ''n1'') (JNum (Fin 0))
           (snd (addServer (\<lambda>_. None) (js_of ''n1'') None
                   (new_ServerPool None None None None None))))) = [PosInf]"
    by (simp add: Let_def reportSuccess_def addServer_def new_ServerPool_def normalizeUrl_def
        strip_trailing_slashes_def js_of_def update_latency_def)
  show ?thesis using 1 2 3 average_100_101 by simp
qed


section \<open>Selection strategy: fastest\<close>

lemma faster_cases: "faster b s = b \<or> faster b s = s"
  by (simp add: faster_def)

lemma num_seq_eq: "a \<noteq> NaN \<Longrightarrow> num_seq a b = (a = b)"
  by (cases a; cases b) auto

lemma faster_beats: "faster b s = (if beats s b then s else b)"
  by (simp add: faster_def beats_def)

lemma beats_irrefl: "\<not> beats x x"
  by (cases "latency x") (auto simp: beats_def)

lemma beats_asym: "beats x y \<Longrightarrow> \<not> beats y x"
  by (cases "latency x"; cases "latency y") (auto simp: beats_def)

lemma beats_negtrans:
  "latency y \<noteq> NaN \<Longrightarrow> beats x z \<Longrightarrow> beats x y \<or> beats y z"
  by (cases "latency x"; cases "latency y"; cases "latency z") (auto simp: beats_def)

lemma foldl_faster:
  assumes "latency b \<noteq> NaN" "\<forall>s\<in>set ss. latency s \<noteq> NaN"
  shows "foldl faster b ss \<in> set (b # ss) \<and> \<not> beats b (foldl faster b ss)
         \<and> (\<forall>s\<in>set ss. \<not> beats s (foldl faster b ss))"
  using assms
proof (induction ss arbitrary: b)
  case Nil
  then show ?case by (simp add: beats_irrefl)
next
  case (Cons a ss)
  let ?b' = "faster b a"
  let ?r = "foldl faster ?b' ss"
  have a: "latency a \<noteq> NaN" and rest: "\<forall>s\<in>set ss. latency s \<noteq> NaN"
    using Cons.prems by simp_all
  have b': "?b' = (if beats a b then a else b)" by (rule faster_beats)
  have n: "latency ?b' \<noteq> NaN" using Cons.prems b' by simp
  from Cons.IH[OF n rest]
  have mem: "?r \<in> set (?b' # ss)" and nb': "\<not> beats ?b' ?r"
    and nrest: "\<forall>s\<in>set ss. \<not> beats s ?r" by simp_all
  have "\<not> beats b ?b'" using b' beats_asym beats_irrefl by auto
  with nb' n have nb: "\<not> beats b ?r" using beats_negtrans by blast
  have "\<not> beats a ?b'" using b' beats_irrefl by auto
  with nb' n have na: "\<not> beats a ?r" using beats_negtrans by blast
  have "?r \<in> set (b # a # ss)" using mem b' by auto
  with nb na nrest show ?case by simp
qed

text \<open>
  C5.  On a non-empty list of servers (none with a \<open>NaN\<close> latency, which no pool operation
  stores), \<open>#selectFastest\<close> returns a server of the list whose latency no other server
  undercuts, and whose priority is the lowest among the servers of the same latency.
\<close>

theorem C5_fastest_selection:
  assumes ne: "ss \<noteq> []" and nn: "\<forall>s\<in>set ss. latency s \<noteq> NaN"
  shows "\<exists>b. selectFastest ss = Inr b \<and> b \<in> set ss
           \<and> (\<forall>s\<in>set ss. \<not> num_lt (latency s) (latency b))
           \<and> (\<forall>s\<in>set ss. latency s = latency b \<longrightarrow> priority b \<le> priority s)"
proof -
  from ne obtain x xs where ss: "ss = x # xs" by (cases ss) auto
  let ?b = "foldl faster x xs"
  from foldl_faster[of x xs] nn ss
  have mem: "?b \<in> set ss" and nb: "\<forall>s\<in>set ss. \<not> beats s ?b" by auto
  have "\<forall>s\<in>set ss. \<not> num_lt (latency s) (latency ?b)"
    using nb by (auto simp: beats_def)
  moreover have "\<forall>s\<in>set ss. latency s = latency ?b \<longrightarrow> priority ?b \<le> priority s"
    using nb nn by (fastforce simp: beats_def num_seq_eq)
  ultimately show ?thesis using mem ss by simp
qed

theorem C5_fastest_selection_witness:
  "(let A = srv (js_of ''A'') 10 (Fin 50); B = srv (js_of ''B'') 10 (Fin 30);
        C = srv (js_of ''C'') 10 (Fin 40); ss = [A, B, C]
    in ss \<noteq> [] \<and> list_all (\<lambda>s. latency s \<noteq> NaN) ss \<and> selectFastest ss = Inr B
       \<and> list_all (\<lambda>s. \<not> num_lt (latency s) (latency B)) ss)"
proof -
  define ss where "ss = [srv (js_of ''A'') 10 (Fin 50), srv (js_of ''B'') 10 (Fin 30),
                          srv (js_of ''C'') 10 (Fin 40)]"
  have ne: "ss \<noteq> []" and nn: "\<forall>s\<in>set ss. latency s \<noteq> NaN"
    by (simp_all add: ss_def srv_def)
  have sel: "selectFastest ss = Inr (srv (js_of ''B'') 10 (Fin 30))"
    by (simp add: ss_def srv_def faster_def)
  from C5_fastest_selection[OF ne nn] sel ne nn
  show ?thesis unfolding Let_def ss_def[symmetric] by (auto simp: list_all_iff)
qed

lemma selectFastest_priority_tie:
  "selectFastest [srv (js_of ''A'') 5 (Fin 20), srv (js_of ''B'') 1 (Fin 20)]
     = Inr (srv (js_of ''B'') 1 (Fin 20))"
  by (simp add: srv_def faster_def)

section \<open>Re-adding a server\<close>

text \<open>
  C10.  \<open>addServer\<close> on a URL whose normalised form is already a key of the pool returns the
  existing record with only its priority replaced: health flag, latency, failure count and
  request counters are as before, no key is added, and every other record is untouched.
\<close>

theorem C10_readd_keeps_health:
  assumes s: "map_of (servers p) (normalizeUrl U u) = Some s"
  shows "\<exists>s'. fst (addServer U u prio p) = s'
           \<and> map_of (servers (snd (addServer U u prio p))) (normalizeUrl U u) = Some s'
           \<and> priority s' = (case prio of None \<Rightarrow> 10 | Some n \<Rightarrow> n)
           \<and> s' = s\<lparr>priority := priority s'\<rparr>
           \<and> healthy s' = healthy s \<and> latency s' = latency s \<and> failCount s' = failCount s
           \<and> successCount s' = successCount s \<and> totalRequests s' = totalRequests s
           \<and> lastCheck s' = lastCheck s \<and> url s' = url s
           \<and> map fst (servers (snd (addServer U u prio p))) = map fst (servers p)
           \<and> (\<forall>k. k \<noteq> normalizeUrl U u \<longrightarrow>
                  map_of (servers (snd (addServer U u prio p))) k = map_of (servers p) k)
           \<and> options (snd (addServer U u prio p)) = options p
           \<and> roundRobinIndex (snd (addServer U u prio p)) = roundRobinIndex p"
proof -
  have mem: "normalizeUrl U u \<in> set (map fst (servers p))"
    using s by (metis map_of_eq_None_iff option.distinct(1) set_map)
  show ?thesis
    using s mem by (simp add: addServer_def Let_def update_keys update_conv')
qed

theorem C10_readd_keeps_health_witness:
  "map_of [(js_of ''n1'', (srv (js_of ''n1'') 10 (Fin 42))\<lparr>healthy := False, failCount := 3\<rparr>)]
       (normalizeUrl (\<lambda>_. None) (js_of ''n1/''))
     = Some ((srv (js_of ''n1'') 10 (Fin 42))\<lparr>healthy := False, failCount := 3\<rparr>)
   \<and> (\<exists>s'. fst (addServer (\<lambda>_. None) (js_of ''n1/'') (Some 2)
                 \<lparr> servers = [(js_of ''n1'', (srv (js_of ''n1'') 10 (Fin 42))\<lparr>healthy := False, failCount := 3\<rparr>)],
                   options = options (new_ServerPool None None None None None),
                   roundRobinIndex = 0 \<rparr>) = s'
            \<and> priority s' = 2 \<and> \<not> healthy s' \<and> latency s' = Fin 42 \<and> failCount s' = 3)"
proof -
  let ?s = "(srv (js_of ''n1'') 10 (Fin 42))\<lparr>healthy := False, failCount := 3\<rparr>"
  let ?p = "\<lparr> servers = [(js_of ''n1'', ?s)],
              options = options (new_ServerPool None None None None None),
              roundRobinIndex = 0 \<rparr>"
  have l: "map_of (servers ?p) (normalizeUrl (\<lambda>_. None) (js_of ''n1/'')) = Some ?s"
    by (simp add: normalizeUrl_def strip_trailing_slashes_def js_of_def)
  from C10_readd_keeps_health[OF l, of "Some 2"] l
  show ?thesis by (simp add: srv_def)
qed

section \<open>Failover\<close>

text \<open>
  A pool of two healthy servers \<open>a\<close> and \<open>b\<close>: the health filter returns both and leaves
  the pool as it is, and \<open>getNextServer\<close> of either returns the other.
\<close>

lemma revive_healthy: "healthy s \<Longrightarrow> revive opts now s = s"
  by (simp add: revive_def)

lemma getHealthyServers_two:
  assumes "servers p = [(a, sa), (b, sb)]" "healthy sa" "healthy sb"
  shows "getHealthyServers now p = ([sa, sb], p)"
  using assms by (simp add: getHealthyServers_def revive_healthy)

lemma getNextServer_two:
  assumes "servers p = [(a, sa), (b, sb)]" "healthy sa" "healthy sb"
    and "url sa = a" "url sb = b" "a \<noteq> b" "normalizeUrl U a = a" "normalizeUrl U b = b"
  shows "getNextServer U now a p = Inr (Some sb, p)"
    and "getNextServer U now b p = Inr (Some sa, p)"
  using assms by (simp_all add: getNextServer_def getHealthyServers_two[OF assms(1-3)])

lemma selectServer_two:
  assumes "servers p = [(a, sa), (b, sb)]" "healthy sa" "healthy sb"
  shows "\<exists>s p'. selectServer now p = Inr (Some s, p') \<and> (s = sa \<or> s = sb)
           \<and> servers p' = servers p \<and> options p' = options p"
  using assms
  by (cases "strategy (options p)")
     (auto simp: selectServer_def getHealthyServers_two[OF assms] faster_def selectRoundRobin_def
        Let_def nth_Cons' )

text \<open>
  Once both servers are in \<open>attemptedServers\<close> and both are still healthy, the inner loop
  alternates between them and never exits.
\<close>

lemma skipAttempted_pingpong:
  assumes two: "servers p = [(a, sa), (b, sb)]" "healthy sa" "healthy sb"
    and urls: "url sa = a" "url sb = b" "a \<noteq> b" "normalizeUrl U a = a" "normalizeUrl U b = b"
    and att: "a \<in> set attempted" "b \<in> set attempted"
    and s: "s = sa \<or> s = sb"
  shows "skipAttempted U clock attempted (Some s) p t = None"
proof (rule ccontr)
  assume "skipAttempted U clock attempted (Some s) p t \<noteq> None"
  then obtain y where y: "skipAttempted U clock attempted (Some s) p t = Some y" by auto
  let ?bad = "\<lambda>U' clock' att' sv p'. U' = U \<and> clock' = clock \<and> att' = attempted \<and> p' = p
                \<and> (sv = Some sa \<or> sv = Some sb)"
  have "\<not> ?bad U clock attempted (Some s) p"
  proof (rule skipAttempted.raw_induct
           [where P = "\<lambda>U' clock' att' sv p' t' y'. \<not> ?bad U' clock' att' sv p'", OF _ y])
    fix f and U' :: url_parser and clock' :: "nat \<Rightarrow> int" and att' :: "jsstring list"
      and sv :: "server option" and p' :: pool and t' :: nat
      and y' :: "js_error + (server option \<times> pool \<times> nat)"
    assume IH: "\<And>U' clock' att' sv p' t' y'. f U' clock' att' sv p' t' = Some y'
                  \<Longrightarrow> \<not> ?bad U' clock' att' sv p'"
      and body: "(case sv of
                    None \<Rightarrow> Some (Inr (None, p', t'))
                  | Some s \<Rightarrow>
                      if url s \<in> set att'
                      then (case getNextServer U' (clock' t') (url s) p' of
                              Inl e \<Rightarrow> Some (Inl e)
                            | Inr (server', p'') \<Rightarrow> f U' clock' att' server' p'' (Suc t'))
                      else Some (Inr (Some s, p', t'))) = Some y'"
    show "\<not> ?bad U' clock' att' sv p'"
    proof
      assume bad: "?bad U' clock' att' sv p'"
      then consider "sv = Some sa" | "sv = Some sb" by blast
      then show False
      proof cases
        case 1
        with bad body urls att getNextServer_two(1)[OF two urls, of "clock t'"]
        have "f U clock attempted (Some sb) p (Suc t') = Some y'" by simp
        with IH show False by blast
      next
        case 2
        with bad body urls att getNextServer_two(2)[OF two urls, of "clock t'"]
        have "f U clock attempted (Some sa) p (Suc t') = Some y'" by simp
        with IH show False by blast
      qed
    qed
  qed
  with s show False by blast
qed

lemma skipAttempted_fresh:
  "url s \<notin> set att \<Longrightarrow> skipAttempted U clock att (Some s) p t = Some (Inr (Some s, p, t))"
  by (subst skipAttempted.simps) simp

lemma skipAttempted_once:
  assumes "url s \<in> set att" "getNextServer U (clock t) (url s) p = Inr (Some s', p')"
    and "url s' \<notin> set att"
  shows "skipAttempted U clock att (Some s) p t = Some (Inr (Some s', p', Suc t))"
  using assms by (subst skipAttempted.simps) (simp add: skipAttempted_fresh)

lemma skipAttempted_two:
  assumes two: "servers p = [(a, sa), (b, sb)]" "healthy sa" "healthy sb"
    and urls: "url sa = a" "url sb = b" "a \<noteq> b" "normalizeUrl U a = a" "normalizeUrl U b = b"
    and fresh: "a \<notin> set att \<or> b \<notin> set att"
    and s0: "s0 = sa \<or> s0 = sb"
  shows "\<exists>s t1. (s = sa \<or> s = sb) \<and> url s \<notin> set att
           \<and> skipAttempted U clock att (Some s0) p t = Some (Inr (Some s, p, t1))"
proof (cases "url s0 \<in> set att")
  case False
  with s0 show ?thesis using skipAttempted_fresh by blast
next
  case True
  from s0 show ?thesis
  proof
    assume e: "s0 = sa"
    with True fresh urls have nb: "url sb \<notin> set att" by auto
    from skipAttempted_once[of sa att U clock t p sb p] True e urls nb
      getNextServer_two(1)[OF two urls, of "clock t"]
    have "skipAttempted U clock att (Some s0) p t = Some (Inr (Some sb, p, Suc t))" by simp
    with nb show ?thesis by blast
  next
    assume e: "s0 = sb"
    with True fresh urls have na: "url sa \<notin> set att" by auto
    from skipAttempted_once[of sb att U clock t p sa p] True e urls na
      getNextServer_two(2)[OF two urls, of "clock t"]
    have "skipAttempted U clock att (Some s0) p t = Some (Inr (Some sa, p, Suc t))" by simp
    with na show ?thesis by blast
  qed
qed

lemma reportFailure_two:
  assumes two: "servers p = [(a, sa), (b, sb)]"
    and urls: "a \<noteq> b" "normalizeUrl U a = a" "normalizeUrl U b = b"
  shows "servers (reportFailure U now a p) =
           [(a, sa\<lparr>failCount := failCount sa + 1, totalRequests := totalRequests sa + 1,
                   lastCheck := now,
                   healthy := (if int (failCount sa) + 1 \<ge> maxFailures (options p)
                               then False else healthy sa)\<rparr>), (b, sb)]"
    and "servers (reportFailure U now b p) =
           [(a, sa), (b, sb\<lparr>failCount := failCount sb + 1, totalRequests := totalRequests sb + 1,
                   lastCheck := now,
                   healthy := (if int (failCount sb) + 1 \<ge> maxFailures (options p)
                               then False else healthy sb)\<rparr>)]"
  using assms by (simp_all add: reportFailure_def Let_def)

text \<open>
  One iteration on such a pool while a server is still untried: the loop attempts a server
  that is not in \<open>attemptedServers\<close>, the attempt fails, and the loop goes on with that
  server added.
\<close>

lemma fetch_loop_step:
  assumes two: "servers p = [(a, sa), (b, sb)]" "healthy sa" "healthy sb"
    and urls: "url sa = a" "url sb = b" "a \<noteq> b" "normalizeUrl U a = a" "normalizeUrl U b = b"
    and fails: "T a = Throws ea False" "T b = Throws eb False"
      "code ea \<noteq> js_of ''ABORT''" "code eb \<noteq> js_of ''ABORT''"
    and fresh: "a \<notin> set att \<or> b \<notin> set att"
    and thr: "a \<notin> set att \<longrightarrow> int (failCount sa) + 1 < maxFailures (options p)"
      "b \<notin> set att \<longrightarrow> int (failCount sb) + 1 < maxFailures (options p)"
  shows "\<exists>x e p' t' sa' sb'.
           x \<notin> set att \<and> (x = a \<and> e = ea \<or> x = b \<and> e = eb)
           \<and> fetch_loop (Suc n) U clock T le att p t
               = fetch_loop n U clock T (Some e) (List.insert x att) p' t'
           \<and> servers p' = [(a, sa'), (b, sb')] \<and> healthy sa' \<and> healthy sb'
           \<and> url sa' = a \<and> url sb' = b \<and> options p' = options p
           \<and> (x \<noteq> a \<longrightarrow> sa' = sa) \<and> (x \<noteq> b \<longrightarrow> sb' = sb)"
proof -
  from selectServer_two[OF two, of "clock t"]
  obtain s0 p0 where sel: "selectServer (clock t) p = Inr (Some s0, p0)"
    and s0: "s0 = sa \<or> s0 = sb" and p0: "servers p0 = servers p" "options p0 = options p"
    by blast
  have two0: "servers p0 = [(a, sa), (b, sb)]" using p0 two by simp
  from skipAttempted_two[OF two0 two(2,3) urls fresh s0, of clock "Suc t"]
  obtain s t1 where s: "s = sa \<or> s = sb" and nin: "url s \<notin> set att"
    and skip: "skipAttempted U clock att (Some s0) p0 (Suc t) = Some (Inr (Some s, p0, t1))"
    by blast
  from s show ?thesis
  proof
    assume e: "s = sa"
    let ?p' = "reportFailure U (clock t1) a p0"
    have "fetch_loop (Suc n) U clock T le att p t
            = fetch_loop n U clock T (Some ea) (List.insert a att) ?p' (Suc t1)"
      using sel skip e urls fails by simp
    moreover have "a \<notin> set att" using nin e urls by simp
    moreover have "options ?p' = options p" using p0 by (simp add: reportFailure_options)
    ultimately show ?thesis
      using reportFailure_two(1)[OF two0 urls(3-5), of "clock t1"] thr two urls p0
      by (intro exI[of _ a] exI[of _ ea] exI[of _ ?p'] exI[of _ "Suc t1"]) auto
  next
    assume e: "s = sb"
    let ?p' = "reportFailure U (clock t1) b p0"
    have "fetch_loop (Suc n) U clock T le att p t
            = fetch_loop n U clock T (Some eb) (List.insert b att) ?p' (Suc t1)"
      using sel skip e urls fails by simp
    moreover have "b \<notin> set att" using nin e urls by simp
    moreover have "options ?p' = options p" using p0 by (simp add: reportFailure_options)
    ultimately show ?thesis
      using reportFailure_two(2)[OF two0 urls(3-5), of "clock t1"] thr two urls p0
      by (intro exI[of _ b] exI[of _ eb] exI[of _ ?p'] exI[of _ "Suc t1"]) auto
  qed
qed

lemma fetch_loop_exhausted:
  assumes two: "servers p = [(a, sa), (b, sb)]" "healthy sa" "healthy sb"
    and urls: "url sa = a" "url sb = b" "a \<noteq> b" "normalizeUrl U a = a" "normalizeUrl U b = b"
    and att: "a \<in> set att" "b \<in> set att"
  shows "fetch_loop (Suc n) U clock T le att p t = None"
proof -
  from selectServer_two[OF two, of "clock t"]
  obtain s0 p0 where sel: "selectServer (clock t) p = Inr (Some s0, p0)"
    and s0: "s0 = sa \<or> s0 = sb" and p0: "servers p0 = servers p" "options p0 = options p"
    by blast
  have two0: "servers p0 = [(a, sa), (b, sb)]" using p0 two by simp
  from skipAttempted_pingpong[OF two0 two(2,3) urls att s0]
  have "skipAttempted U clock att (Some s0) p0 (Suc t) = None" .
  with sel show ?thesis by simp
qed

declare fetch_loop.simps(2) [simp del]

lemma fetch_loop_two_steps:
  assumes two: "servers p = [(a, sa), (b, sb)]" "healthy sa" "healthy sb"
    and urls: "url sa = a" "url sb = b" "a \<noteq> b" "normalizeUrl U a = a" "normalizeUrl U b = b"
    and fails: "T a = Throws ea False" "T b = Throws eb False"
      "code ea \<noteq> js_of ''ABORT''" "code eb \<noteq> js_of ''ABORT''"
    and thr: "int (failCount sa) + 1 < maxFailures (options p)"
      "int (failCount sb) + 1 < maxFailures (options p)"
  shows "\<exists>e att p' t' sa' sb'.
           fetch_loop (Suc (Suc n)) U clock T None [] p t = fetch_loop n U clock T (Some e) att p' t'
           \<and> (e = ea \<or> e = eb) \<and> set att = {a, b} \<and> length att = 2
           \<and> servers p' = [(a, sa'), (b, sb')] \<and> healthy sa' \<and> healthy sb'
           \<and> url sa' = a \<and> url sb' = b"
proof -
  have fresh0: "a \<notin> set [] \<or> b \<notin> set []" by simp
  have thr0: "a \<notin> set [] \<longrightarrow> int (failCount sa) + 1 < maxFailures (options p)"
    "b \<notin> set [] \<longrightarrow> int (failCount sb) + 1 < maxFailures (options p)"
    using thr by simp_all
  from fetch_loop_step[OF two urls fails fresh0 thr0, of "Suc n" clock None t]
  obtain x1 e1 p1 t1 sa1 sb1 where
    x1: "x1 = a \<and> e1 = ea \<or> x1 = b \<and> e1 = eb"
    and st1: "fetch_loop (Suc (Suc n)) U clock T None [] p t
               = fetch_loop (Suc n) U clock T (Some e1) (List.insert x1 []) p1 t1"
    and p1: "servers p1 = [(a, sa1), (b, sb1)]" "healthy sa1" "healthy sb1"
    and u1: "url sa1 = a" "url sb1 = b" and o1: "options p1 = options p"
    and k1: "x1 \<noteq> a \<longrightarrow> sa1 = sa" "x1 \<noteq> b \<longrightarrow> sb1 = sb"
    by blast
  have fresh1: "a \<notin> set (List.insert x1 []) \<or> b \<notin> set (List.insert x1 [])"
    using x1 urls by auto
  have thr1: "a \<notin> set (List.insert x1 []) \<longrightarrow> int (failCount sa1) + 1 < maxFailures (options p1)"
    "b \<notin> set (List.insert x1 []) \<longrightarrow> int (failCount sb1) + 1 < maxFailures (options p1)"
    using k1 thr o1 by auto
  from fetch_loop_step[OF p1 u1 urls(3-5) fails fresh1 thr1, of n clock "Some e1" t1]
  obtain x2 e2 p2 t2 sa2 sb2 where
    x2: "x2 \<notin> set (List.insert x1 [])" "x2 = a \<and> e2 = ea \<or> x2 = b \<and> e2 = eb"
    and st2: "fetch_loop (Suc n) U clock T (Some e1) (List.insert x1 []) p1 t1
               = fetch_loop n U clock T (Some e2) (List.insert x2 (List.insert x1 [])) p2 t2"
    and p2: "servers p2 = [(a, sa2), (b, sb2)]" "healthy sa2" "healthy sb2"
    and u2: "url sa2 = a" "url sb2 = b"
    by blast
  let ?att = "List.insert x2 (List.insert x1 [])"
  have a1: "set ?att = {a, b}" and a2: "length ?att = 2" using x1 x2 by auto
  have e2: "e2 = ea \<or> e2 = eb" using x2 by blast
  have st: "fetch_loop (Suc (Suc n)) U clock T None [] p t = fetch_loop n U clock T (Some e2) ?att p2 t2"
    using st1 st2 by simp
  show ?thesis
    apply (rule exI[of _ e2], rule exI[of _ ?att], rule exI[of _ p2], rule exI[of _ t2])
    apply (rule exI[of _ sa2], rule exI[of _ sb2])
    using st e2 a1 a2 p2 u2 apply blast
    done
qed

text \<open>
  The case the specification names: two servers that always fail and \<open>retries = 2\<close>.  The
  operation ends with \<open>ALL_SERVERS_FAILED\<close>, two attempts, and the error of the second.
\<close>

lemma fetch_two_nodes_two_attempts:
  assumes two: "servers p = [(a, sa), (b, sb)]" "healthy sa" "healthy sb"
    and urls: "url sa = a" "url sb = b" "a \<noteq> b" "normalizeUrl U a = a" "normalizeUrl U b = b"
    and fails: "T a = Throws ea False" "T b = Throws eb False"
      "code ea \<noteq> js_of ''ABORT''" "code eb \<noteq> js_of ''ABORT''"
    and thr: "int (failCount sa) + 1 < maxFailures (options p)"
      "int (failCount sb) + 1 < maxFailures (options p)"
  shows "\<exists>e p' t'. fetch U clock T (Some 2) clientRetries p t = Some (AllServersFailed 2 (Some e), p', t')
           \<and> (e = ea \<or> e = eb)"
proof -
  from fetch_loop_two_steps[OF assms, of 0 clock t]
  obtain e att p' t' where
    "fetch_loop (Suc (Suc 0)) U clock T None [] p t = fetch_loop 0 U clock T (Some e) att p' t'"
    and "e = ea \<or> e = eb" and "length att = 2"
    by blast
  then show ?thesis by (simp add: fetch_def numeral_2_eq_2)
qed

text \<open>
  C6.  With the same two servers and three or more attempts allowed (the default is three),
  the third iteration finds both servers tried and both still healthy: \<open>selectServer\<close>
  returns one, \<open>getNextServer\<close> the other, and so on.  The operation never returns, where
  the specification has it stop with \<open>AllNodesFailed\<close>.
\<close>

theorem C6_failover_hangs:
  assumes two: "servers p = [(a, sa), (b, sb)]" "healthy sa" "healthy sb"
    and urls: "url sa = a" "url sb = b" "a \<noteq> b" "normalizeUrl U a = a" "normalizeUrl U b = b"
    and fails: "T a = Throws ea False" "T b = Throws eb False"
      "code ea \<noteq> js_of ''ABORT''" "code eb \<noteq> js_of ''ABORT''"
    and thr: "int (failCount sa) + 1 < maxFailures (options p)"
      "int (failCount sb) + 1 < maxFailures (options p)"
    and n: "3 \<le> clientRetries"
  shows "fetch U clock T None clientRetries p t = None"
proof -
  from n obtain m where m: "clientRetries = Suc (Suc (Suc m))"
    by (metis Suc_le_D numeral_3_eq_3 Suc_le_mono le0 not0_implies_Suc not_less_eq_eq)
  from fetch_loop_two_steps[OF two urls fails thr, of "Suc m" clock t]
  obtain e att p' t' sa' sb' where
    st: "fetch_loop (Suc (Suc (Suc m))) U clock T None [] p t = fetch_loop (Suc m) U clock T (Some e) att p' t'"
    and att: "set att = {a, b}"
    and p': "servers p' = [(a, sa'), (b, sb')]" "healthy sa'" "healthy sb'"
    and u': "url sa' = a" "url sb' = b"
    by blast
  have "fetch_loop (Suc m) U clock T (Some e) att p' t' = None"
    by (rule fetch_loop_exhausted[OF p' u' urls(3-5)]) (simp_all add: att)
  with st m show ?thesis by (simp add: fetch_def)
qed

theorem C6_failover_hangs_witness:
  "fetch (\<lambda>_. None) (\<lambda>_. 0)
     (\<lambda>_. Throws \<lparr>code = js_of ''FETCH_ERROR'', message = js_of ''Fetch failed''\<rparr> False)
     None 3
     (snd (addServer (\<lambda>_. None) (js_of ''b'') None
        (snd (addServer (\<lambda>_. None) (js_of ''a'') None (new_ServerPool None None None None None)))))
     0
   = (None :: (unit fetch_result \<times> pool \<times> nat) option)"
proof -
  let ?U = "(\<lambda>_. None) :: url_parser"
  let ?p = "snd (addServer ?U (js_of ''b'') None
        (snd (addServer ?U (js_of ''a'') None (new_ServerPool None None None None None))))"
  have na: "normalizeUrl ?U (js_of ''a'') = js_of ''a''" and nb: "normalizeUrl ?U (js_of ''b'') = js_of ''b''"
    by (simp_all add: normalizeUrl_def strip_trailing_slashes_def js_of_def)
  have ab: "js_of ''a'' \<noteq> js_of ''b''" by (simp add: js_of_def)
  have sv: "servers ?p = [(js_of ''a'', srv (js_of ''a'') 10 PosInf), (js_of ''b'', srv (js_of ''b'') 10 PosInf)]"
    using ab by (simp add: addServer_def new_ServerPool_def Let_def na nb srv_def)
  have mf: "maxFailures (options ?p) = 3"
    by (simp add: addServer_def new_ServerPool_def Let_def na nb or_default_def split: option.splits)
  let ?e = "\<lparr>code = js_of ''FETCH_ERROR'', message = js_of ''Fetch failed''\<rparr>"
  have ne: "code ?e \<noteq> js_of ''ABORT''" by (simp add: js_of_def)
  have thr: "int (failCount (srv (js_of ''a'') 10 PosInf)) + 1 < maxFailures (options ?p)"
    "int (failCount (srv (js_of ''b'') 10 PosInf)) + 1 < maxFailures (options ?p)"
    unfolding mf by (simp_all add: srv_def)
  have h: "healthy (srv (js_of ''a'') 10 PosInf)" "healthy (srv (js_of ''b'') 10 PosInf)"
    and u: "url (srv (js_of ''a'') 10 PosInf) = js_of ''a''" "url (srv (js_of ''b'') 10 PosInf) = js_of ''b''"
    by (simp_all add: srv_def)
  show ?thesis
    by (rule C6_failover_hangs[OF sv h u ab na nb refl refl ne ne thr]) simp
qed

section \<open>Discovery: a failed fetch keeps the cache\<close>

text \<open>
  C9.  When the registry cannot be reached, answers with a status that is not OK, or sends a
  body that is not JSON, \<open>fetchNodes\<close> throws a \<open>DiscoveryError\<close> and the discovery
  state (node cache, last-fetch time, listeners, notifications made) is exactly as before.
  Whenever \<open>fetchNodes\<close> throws, the state is unchanged.  When it returns, the cache is the
  returned list, the last-fetch time is the current time, and every listener has been called
  once with that list.
\<close>

theorem C9_failed_fetch_keeps_cache:
  "(\<forall>u. U (registryUrl d) = Some u \<longrightarrow>
      (\<forall>m. R \<lparr>req_url = u, req_params = query_params (disc_options d) filters\<rparr> = NetworkError m
          \<longrightarrow> fetchNodes U R now filters d = (Inl (DiscoveryError (FetchRejected m)), d))
    \<and> (\<forall>status body. R \<lparr>req_url = u, req_params = query_params (disc_options d) filters\<rparr>
                         = Reply False status body
          \<longrightarrow> fetchNodes U R now filters d = (Inl (DiscoveryError (RegistryReturned status)), d))
    \<and> (\<forall>status. R \<lparr>req_url = u, req_params = query_params (disc_options d) filters\<rparr>
                         = Reply True status None
          \<longrightarrow> fetchNodes U R now filters d = (Inl (DiscoveryError BodyNotJson), d)))
   \<and> (\<forall>e d'. fetchNodes U R now filters d = (Inl e, d') \<longrightarrow> d' = d)
   \<and> (\<forall>ns d'. fetchNodes U R now filters d = (Inr ns, d') \<longrightarrow>
         nodes d' = ns \<and> lastFetch d' = now
         \<and> notified d' = notified d @ map (\<lambda>l. (l, ns)) (listeners d)
         \<and> listeners d' = listeners d \<and> registryUrl d' = registryUrl d
         \<and> disc_options d' = disc_options d)"
proof (intro conjI allI impI)
  fix e d' assume "fetchNodes U R now filters d = (Inl e, d')"
  then show "d' = d"
    by (auto simp: fetchNodes_def Let_def
             split: option.splits registry_reply.splits if_splits sum.splits)
next
  fix ns d' assume a: "fetchNodes U R now filters d = (Inr ns, d')"
  then have "d' = notifyListeners (d\<lparr>nodes := ns, lastFetch := now\<rparr>)
             \<and> nodes d' = ns"
    by (auto simp: fetchNodes_def Let_def notifyListeners_def
             split: option.splits registry_reply.splits if_splits sum.splits)
  then show "nodes d' = ns" "lastFetch d' = now"
    "notified d' = notified d @ map (\<lambda>l. (l, ns)) (listeners d)"
    "listeners d' = listeners d" "registryUrl d' = registryUrl d"
    "disc_options d' = disc_options d"
    by (simp_all add: notifyListeners_def)
qed (simp_all add: fetchNodes_def)

theorem C9_failed_fetch_keeps_cache_witness:
  "fetchNodes (\<lambda>u. Some \<lparr>origin = u, pathname = [], protocol = js_of ''https:'', href = u\<rparr>)
      (\<lambda>_. Reply False 503 None) 1000
      \<lparr>flt_region = None, flt_verifiedOnly = False, flt_features = None\<rparr>
      \<lparr>registryUrl = js_of ''https://registry.example/nodes'',
        nodes = [example_node], lastFetch = 7,
        disc_options = \<lparr>opt_registryUrl = js_of ''https://registry.example/nodes'',
                         refreshInterval = 300000, autoRefresh = False, opt_region = None,
                         verifiedOnly = False\<rparr>,
        listeners = [0], notified = []\<rparr>
    = (Inl (DiscoveryError (RegistryReturned 503)),
       \<lparr>registryUrl = js_of ''https://registry.example/nodes'',
        nodes = [example_node], lastFetch = 7,
        disc_options = \<lparr>opt_registryUrl = js_of ''https://registry.example/nodes'',
                         refreshInterval = 300000, autoRefresh = False, opt_region = None,
                         verifiedOnly = False\<rparr>,
        listeners = [0], notified = []\<rparr>)"
  using C9_failed_fetch_keeps_cache
    [of "\<lambda>u. Some \<lparr>origin = u, pathname = [], protocol = js_of ''https:'', href = u\<rparr>"
        "\<lparr>registryUrl = js_of ''https://registry.example/nodes'',
          nodes = [example_node], lastFetch = 7,
          disc_options = \<lparr>opt_registryUrl = js_of ''https://registry.example/nodes'',
                         refreshInterval = 300000, autoRefresh = False, opt_region = None,
                         verifiedOnly = False\<rparr>,
          listeners = [0], notified = []\<rparr>"
        "\<lambda>_. Reply False 503 None"
        "\<lparr>flt_region = None, flt_verifiedOnly = False, flt_features = None\<rparr>" 1000]
  by simp

lemma fetchNodes_success_example:
  "fetchNodes (\<lambda>u. if u = js_of ''bad'' then None
                    else Some \<lparr>origin = u, pathname = [], protocol = js_of ''https:'', href = u\<rparr>)
      (\<lambda>_. Reply True 200 (Some (JObj [(js_of ''nodes'',
                JArr [JObj [(js_of ''url'', JStr (js_of ''https://n2.example''))],
                      JObj [(js_of ''url'', JStr (js_of ''bad''))],
                      JStr (js_of ''x'')])]))) 1000
      \<lparr>flt_region = None, flt_verifiedOnly = False, flt_features = None\<rparr>
      \<lparr>registryUrl = js_of ''https://registry.example/nodes'',
        nodes = [example_node], lastFetch = 7,
        disc_options = \<lparr>opt_registryUrl = js_of ''https://registry.example/nodes'',
                         refreshInterval = 300000, autoRefresh = False, opt_region = None,
                         verifiedOnly = False\<rparr>,
        listeners = [0], notified = []\<rparr>
    = (Inr [example_node\<lparr>node_url := js_of ''https://n2.example''\<rparr>],
       \<lparr>registryUrl = js_of ''https://registry.example/nodes'',
        nodes = [example_node\<lparr>node_url := js_of ''https://n2.example''\<rparr>], lastFetch = 1000,
        disc_options = \<lparr>opt_registryUrl = js_of ''https://registry.example/nodes'',
                         refreshInterval = 300000, autoRefresh = False, opt_region = None,
                         verifiedOnly = False\<rparr>,
        listeners = [0], notified = [(0, [example_node\<lparr>node_url := js_of ''https://n2.example''\<rparr>])]\<rparr>)"
  by (simp add: fetchNodes_def node_list_def isValidNode_def normalizeNode_def notifyListeners_def
        prop_or_undefined_def js_or_def example_node_def js_of_def Let_def)

section \<open>JSON\<close>

lemma JSON_parse_empty_object: "JSON_parse (js_of ''{}'') = Inr (JObj [])"
  by (simp add: JSON_parse_def parse_value.simps js_of_def skip_ws_def is_json_ws_def)

section \<open>Relay request handler: wrapper status and sidecar headers\<close>

lemma join_single: "join sep [x] = x"
  by simp

lemma normalize_value_id:
  "v = [] \<or> (\<not> is_http_ws (hd v) \<and> \<not> is_http_ws (last v)) \<Longrightarrow> normalize_value v = v"
proof -
  assume h: "v = [] \<or> (\<not> is_http_ws (hd v) \<and> \<not> is_http_ws (last v))"
  then have 1: "dropWhile is_http_ws v = v" by (auto simp: dropWhile_eq_self_iff)
  from h have "rev v = [] \<or> \<not> is_http_ws (hd (rev v))" by (auto simp: hd_rev)
  then have "dropWhile is_http_ws (rev v) = rev v" by (auto simp: dropWhile_eq_self_iff)
  with 1 show ?thesis by (simp add: normalize_value_def)
qed

lemma normalize_JSON_stringify_object:
  "normalize_value (JSON_stringify_object kvs) = JSON_stringify_object kvs"
  by (rule normalize_value_id) (simp add: JSON_stringify_object_def is_http_ws_def)

lemma not_ws_above_space: "32 < unat c \<Longrightarrow> \<not> is_http_ws c"
  by (auto simp: is_http_ws_def)

lemma digit_unit: "d < 10 \<Longrightarrow> \<not> is_http_ws (of_nat (48 + d))"
proof (rule not_ws_above_space)
  assume "d < 10"
  then have "unat (of_nat (48 + d) :: 16 word) = 48 + d"
    by (simp add: unat_of_nat del: of_nat_add)
  then show "32 < unat (of_nat (48 + d) :: 16 word)" by simp
qed

lemma dec_digits_not_ws: "c \<in> set (dec_digits n) \<Longrightarrow> \<not> is_http_ws c"
proof (induction n arbitrary: c rule: dec_digits.induct)
  case (1 n)
  show ?case
  proof (cases "n < 10")
    case True
    with "1.prems" have c: "c = of_nat (48 + n)"
      by (simp add: dec_digits.simps[of n] del: of_nat_add)
    show ?thesis unfolding c using True by (rule digit_unit)
  next
    case False
    with "1.prems" have "c \<in> set (dec_digits (n div 10)) \<or> c = of_nat (48 + n mod 10)"
      by (auto simp add: dec_digits.simps[of n] simp del: of_nat_add)
    then show ?thesis
    proof
      assume "c \<in> set (dec_digits (n div 10))"
      with "1.IH"[OF False] show ?thesis .
    next
      assume c: "c = of_nat (48 + n mod 10)"
      have "n mod 10 < 10" by simp
      then show ?thesis unfolding c by (rule digit_unit)
    qed
  qed
qed

lemma dec_digits_not_empty: "dec_digits n \<noteq> []"
  by (subst dec_digits.simps) simp

lemma int_toString_not_ws: "c \<in> set (int_toString i) \<Longrightarrow> \<not> is_http_ws c"
proof -
  assume "c \<in> set (int_toString i)"
  then have "c = 0x2D \<or> c \<in> set (dec_digits (nat (- i))) \<or> c \<in> set (dec_digits (nat i))"
    by (auto simp: int_toString_def split: if_splits)
  moreover have "\<not> is_http_ws 0x2D" by (simp add: is_http_ws_def)
  ultimately show ?thesis using dec_digits_not_ws by blast
qed

lemma normalize_int_toString: "normalize_value (int_toString i) = int_toString i"
proof (rule normalize_value_id)
  have ne: "int_toString i \<noteq> []" by (simp add: int_toString_def dec_digits_not_empty)
  then have "hd (int_toString i) \<in> set (int_toString i)" "last (int_toString i) \<in> set (int_toString i)"
    by simp_all
  then show "int_toString i = [] \<or>
      (\<not> is_http_ws (hd (int_toString i)) \<and> \<not> is_http_ws (last (int_toString i)))"
    by (simp add: int_toString_not_ws)
qed

lemma headers_values_set_same: "headers_values (headers_set h n v) n = [normalize_value v]"
  by (auto simp: headers_values_def headers_set_def filter_empty_conv)

lemma headers_values_set_other:
  "toLowerCase n' \<noteq> toLowerCase n \<Longrightarrow> headers_values (headers_set h n v) n' = headers_values h n'"
proof -
  assume ne: "toLowerCase n' \<noteq> toLowerCase n"
  have "filter (\<lambda>(k, v). k = toLowerCase n') (filter (\<lambda>(k, v). k \<noteq> toLowerCase n) h)
          = filter (\<lambda>(k, v). k = toLowerCase n') h"
    using ne by (induction h) auto
  with ne show ?thesis by (simp add: headers_values_def headers_set_def)
qed

lemma headers_get_set_same: "headers_get (headers_set h n v) n = Some (normalize_value v)"
  by (simp add: headers_get_def headers_values_set_same)

lemma headers_get_set_other:
  "toLowerCase n' \<noteq> toLowerCase n \<Longrightarrow> headers_get (headers_set h n v) n' = headers_get h n'"
  by (simp add: headers_get_def headers_values_set_other)

lemma headers_get_pass_through_other:
  "toLowerCase n' \<noteq> toLowerCase n \<Longrightarrow> headers_get (pass_through up n h) n' = headers_get h n'"
  by (simp add: pass_through_def headers_get_set_other)

lemma bare_names_distinct:
  "toLowerCase (js_of ''x-bare-status'') \<noteq> toLowerCase (js_of ''x-bare-status-text'')"
  "toLowerCase (js_of ''x-bare-status'') \<noteq> toLowerCase (js_of ''x-bare-headers'')"
  "toLowerCase (js_of ''x-bare-status-text'') \<noteq> toLowerCase (js_of ''x-bare-headers'')"
  "toLowerCase (js_of ''x-bare-status'') \<noteq> toLowerCase (js_of ''content-type'')"
  "toLowerCase (js_of ''x-bare-status'') \<noteq> toLowerCase (js_of ''content-length'')"
  "toLowerCase (js_of ''x-bare-status'') \<noteq> toLowerCase (js_of ''content-encoding'')"
  "toLowerCase (js_of ''x-bare-status-text'') \<noteq> toLowerCase (js_of ''content-type'')"
  "toLowerCase (js_of ''x-bare-status-text'') \<noteq> toLowerCase (js_of ''content-length'')"
  "toLowerCase (js_of ''x-bare-status-text'') \<noteq> toLowerCase (js_of ''content-encoding'')"
  "toLowerCase (js_of ''x-bare-headers'') \<noteq> toLowerCase (js_of ''content-type'')"
  "toLowerCase (js_of ''x-bare-headers'') \<noteq> toLowerCase (js_of ''content-length'')"
  "toLowerCase (js_of ''x-bare-headers'') \<noteq> toLowerCase (js_of ''content-encoding'')"
  by (simp_all add: toLowerCase_def lower_unit_def js_of_def)

lemma buildBareResponseHeaders_sidecar:
  "headers_get (buildBareResponseHeaders response cors strip) (js_of ''x-bare-status'')
     = Some (int_toString (up_status response))"
  "headers_get (buildBareResponseHeaders response cors strip) (js_of ''x-bare-status-text'')
     = Some (normalize_value (up_statusText response))"
  "headers_get (buildBareResponseHeaders response cors strip) (js_of ''x-bare-headers'')
     = Some (JSON_stringify_object (collectResponseHeaders strip (up_headers response)))"
  by (simp_all add: buildBareResponseHeaders_def Let_def headers_get_pass_through_other
        headers_get_set_other headers_get_set_same bare_names_distinct
        normalize_int_toString normalize_JSON_stringify_object)

section \<open>Relay request handler: the deny-list\<close>

lemma insert_index_set: "set (insert_index i kv ps) = insert kv (set ps)"
  by (induction ps) (auto split: option.splits)

lemma update_keys_subset: "fst ` set (AList.update k v al) \<subseteq> insert k (fst ` set al)"
proof -
  have "set (map fst (AList.update k v al)) \<subseteq> insert k (set (map fst al))"
    by (auto simp: update_keys)
  then show ?thesis by simp
qed

lemma own_put_keys: "fst ` set (own_put kvs k v) \<subseteq> insert k (fst ` set kvs)"
  using update_keys_subset[of k v kvs]
  by (auto simp: own_put_def insert_index_set split: option.splits)

lemma obj_set_keys: "fst ` set (props (obj_set obj key v)) \<subseteq> insert key (fst ` set (props obj))"
proof (cases "key = js_of ''__proto__'' \<and> map_of (props obj) key = None
         \<and> inherited (proto obj) key = None \<and> proto obj \<noteq> NoPrototype")
  case True
  then have k: "key = js_of ''__proto__''"
    and c: "map_of (props obj) (js_of ''__proto__'') = None"
      "inherited (proto obj) (js_of ''__proto__'') = None" "proto obj \<noteq> NoPrototype"
    by auto
  have "props (obj_set obj key v) = props obj"
    unfolding k by (cases v) (simp_all add: obj_set_def c)
  then show ?thesis by auto
next
  case False
  then have "props (obj_set obj key v) = own_put (props obj) key v"
    by (auto simp: obj_set_def)
  then show ?thesis using own_put_keys[of "props obj" key v] by simp
qed

lemma array_push_keys:
  "fst ` set (props (array_push obj key v)) \<subseteq> insert key (fst ` set (props obj))"
proof (cases "map_of (props obj) key")
  case None
  then show ?thesis by (auto simp: array_push_def)
next
  case (Some old)
  then have "props (array_push obj key v) = AList.update key (push old v) (props obj)"
    by (simp add: array_push_def)
  then show ?thesis using update_keys_subset[of key "push old v" "props obj"] by simp
qed

lemma collect_header_subset:
  "fst ` set (props (collect_header strip obj kv)) \<subseteq> insert (fst kv) (fst ` set (props obj))"
proof (cases "toLowerCase (fst kv) \<in> set strip")
  case True
  then show ?thesis by (auto simp: collect_header_def)
next
  case ns: False
  show ?thesis
  proof (cases "truthy (obj_get obj (fst kv))")
    case False
    with ns have "collect_header strip obj kv = obj_set obj (fst kv) (JStr (snd kv))"
      by (simp add: collect_header_def Let_def)
    then show ?thesis using obj_set_keys[of obj "fst kv"] by simp
  next
    case True
    show ?thesis
    proof (cases "\<exists>vs. obj_get obj (fst kv) = JArr vs")
      case True
      then obtain vs where "obj_get obj (fst kv) = JArr vs" by blast
      with ns have "collect_header strip obj kv = array_push obj (fst kv) (JStr (snd kv))"
        by (simp add: collect_header_def Let_def)
      then show ?thesis using array_push_keys[of obj "fst kv"] by simp
    next
      case False
      with ns True have "collect_header strip obj kv
          = obj_set obj (fst kv) (JArr [obj_get obj (fst kv), JStr (snd kv)])"
        by (cases "obj_get obj (fst kv)") (simp_all add: collect_header_def Let_def)
      then show ?thesis using obj_set_keys[of obj "fst kv"] by simp
    qed
  qed
qed

lemma collect_header_keys:
  assumes "\<forall>k\<in>fst ` set (props obj). toLowerCase k \<notin> set strip"
  shows "\<forall>k\<in>fst ` set (props (collect_header strip obj kv)). toLowerCase k \<notin> set strip"
proof (cases "toLowerCase (fst kv) \<in> set strip")
  case True
  with assms show ?thesis by (simp add: collect_header_def)
next
  case False
  show ?thesis
  proof
    fix k assume "k \<in> fst ` set (props (collect_header strip obj kv))"
    with collect_header_subset[of strip obj kv]
    have "k = fst kv \<or> k \<in> fst ` set (props obj)" by (meson insertE subsetD)
    then show "toLowerCase k \<notin> set strip"
    proof
      assume "k = fst kv" with False show ?thesis by simp
    next
      assume "k \<in> fst ` set (props obj)" with assms show ?thesis by (rule bspec)
    qed
  qed
qed

lemma collectResponseHeaders_keys_aux:
  "\<forall>k\<in>fst ` set (props obj). toLowerCase k \<notin> set strip \<Longrightarrow>
   \<forall>k\<in>fst ` set (props (foldl (collect_header strip) obj es)). toLowerCase k \<notin> set strip"
proof (induction es arbitrary: obj)
  case Nil
  then show ?case by simp
next
  case (Cons e es)
  from Cons.IH[OF collect_header_keys[OF Cons.prems]] show ?case by simp
qed

lemma collectResponseHeaders_keys:
  "\<forall>k\<in>fst ` set (collectResponseHeaders strip hs). toLowerCase k \<notin> set strip"
  unfolding collectResponseHeaders_def
  by (rule collectResponseHeaders_keys_aux) (simp add: empty_object_def)

text \<open>
  C8 (as amended).  \<open>x-bare-pass-headers\<close> is parsed and then never read: for every request
  that is relayed, whatever it names there, no key of the header snapshot in
  \<open>x-bare-headers\<close> is on the deny-list.
\<close>

theorem C8_deny_list_applies_to_named_headers:
  assumes "relay U F request = Fetched response"
  shows "headers_get (resp_headers (handleBareV3Request U F uuid request cors strip))
           (js_of ''x-bare-headers'')
         = Some (JSON_stringify_object (collectResponseHeaders strip (up_headers response)))
       \<and> (\<forall>k\<in>fst ` set (collectResponseHeaders strip (up_headers response)).
             toLowerCase k \<notin> set strip)"
proof -
  have h: "handleBareV3Request U F uuid request cors strip
             = \<lparr> resp_status = 200,
                 resp_headers = buildBareResponseHeaders response cors strip,
                 resp_body = Stream (up_body response) \<rparr>"
    by (simp add: handleBareV3Request_def assms)
  show ?thesis
  proof (rule conjI)
    show "headers_get (resp_headers (handleBareV3Request U F uuid request cors strip))
           (js_of ''x-bare-headers'')
         = Some (JSON_stringify_object (collectResponseHeaders strip (up_headers response)))"
      unfolding h by (simp add: buildBareResponseHeaders_sidecar)
  next
    show "\<forall>k\<in>fst ` set (collectResponseHeaders strip (up_headers response)).
             toLowerCase k \<notin> set strip"
      by (rule collectResponseHeaders_keys)
  qed
qed

lemma example_passHeaders:
  "parseBareHeaders example_request
     = Inr \<lparr> bare_url = Some (js_of ''http://t/''), bare_headers = JObj [],
             forwardHeaders = JArr [], passHeaders = JArr [JStr (js_of ''x-frame-options'')],
             passStatus = JArr [], bare_protocol = None, bare_host = None, bare_port = None,
             bare_path = None \<rparr>"
  by (simp add: parseBareHeaders_def example_request_def headers_get_def headers_values_def
        toLowerCase_def lower_unit_def js_of_def present_def parse_name_list_def
        parse_status_list_def JSON_parse_def parse_value.simps parse_elements.simps
        skip_ws_def is_json_ws_def Let_def)

lemma example_relay_any:
  "relay example_parser (\<lambda>_. Inr response) example_request = Fetched response"
  by (simp add: relay_def example_passHeaders buildTargetUrl_def present_def or_empty_def
        example_parser_def buildOutgoingHeaders_def js_of_def)

lemma example_relay:
  "relay example_parser (\<lambda>_. Inr example_response) example_request = Fetched example_response"
  by (rule example_relay_any)

lemma example_snapshot:
  "collectResponseHeaders STRIP_HEADERS (up_headers example_response)
     = [(js_of ''content-type'', JStr (js_of ''text/html''))]"
  by (simp add: collectResponseHeaders_def example_response_def headers_entries_def
        headers_values_def collect_header_def obj_get_def obj_set_def STRIP_HEADERS_def
        object_prototype_methods_def empty_object_def own_put_def array_index_def is_digit_def
        toLowerCase_def lower_unit_def js_of_def Let_def)

lemma example_snapshot_text:
  \<open>JSON_stringify_object [(js_of ''content-type'', JStr (js_of ''text/html''))]
     = js_of ''{"content-type":"text/html"}''\<close>
  by (simp add: JSON_stringify_object_def quote_json_def quote_unit_def is_high_surrogate_def
        is_low_surrogate_def js_of_def)

lemma example_status_text: "int_toString 404 = js_of ''404''"
  by (simp add: int_toString_def dec_digits.simps js_of_def)

text \<open>
  C8 as the specification states it fails on the example: the request names
  \<open>x-frame-options\<close> in \<open>x-bare-pass-headers\<close>, the target sends the header, and the
  snapshot does not have it.
\<close>

theorem C8_counterexample:
  \<open>parseBareHeaders example_request
     = Inr \<lparr> bare_url = Some (js_of ''http://t/''), bare_headers = JObj [],
             forwardHeaders = JArr [], passHeaders = JArr [JStr (js_of ''x-frame-options'')],
             passStatus = JArr [], bare_protocol = None, bare_host = None, bare_port = None,
             bare_path = None \<rparr>
   \<and> headers_get (up_headers example_response) (js_of ''x-frame-options'') = Some (js_of ''DENY'')
   \<and> relay example_parser (\<lambda>_. Inr example_response) example_request = Fetched example_response
   \<and> headers_get (resp_headers (handleBareV3Request example_parser (\<lambda>_. Inr example_response)
                     (js_of ''id'') example_request CORS_HEADERS STRIP_HEADERS))
        (js_of ''x-bare-headers'') = Some (js_of ''{"content-type":"text/html"}'')
   \<and> map_of (collectResponseHeaders STRIP_HEADERS (up_headers example_response))
        (js_of ''x-frame-options'') = None\<close>
proof -
  have "headers_get (up_headers example_response) (js_of ''x-frame-options'') = Some (js_of ''DENY'')"
    by (simp add: example_response_def headers_get_def headers_values_def toLowerCase_def
          lower_unit_def js_of_def)
  moreover have "headers_get (resp_headers (handleBareV3Request example_parser (\<lambda>_. Inr example_response)
                     (js_of ''id'') example_request CORS_HEADERS STRIP_HEADERS))
        (js_of ''x-bare-headers'') = Some (JSON_stringify_object
            (collectResponseHeaders STRIP_HEADERS (up_headers example_response)))"
    by (simp add: handleBareV3Request_def example_relay buildBareResponseHeaders_sidecar)
  moreover have "map_of (collectResponseHeaders STRIP_HEADERS (up_headers example_response))
        (js_of ''x-frame-options'') = None"
    by (simp add: example_snapshot js_of_def)
  ultimately show ?thesis
    using example_passHeaders example_relay
    by (simp add: example_snapshot example_snapshot_text)
qed

theorem C8_deny_list_applies_to_named_headers_witness:
  \<open>relay example_parser (\<lambda>_. Inr example_response) example_request = Fetched example_response
   \<and> headers_get (resp_headers (handleBareV3Request example_parser (\<lambda>_. Inr example_response)
                     (js_of ''id'') example_request CORS_HEADERS STRIP_HEADERS))
        (js_of ''x-bare-headers'') = Some (js_of ''{"content-type":"text/html"}'')
   \<and> list_all (\<lambda>k. toLowerCase k \<notin> set STRIP_HEADERS)
        (map fst (collectResponseHeaders STRIP_HEADERS (up_headers example_response)))\<close>
  using C8_deny_list_applies_to_named_headers
          [OF example_relay, of "js_of ''id''" CORS_HEADERS STRIP_HEADERS] example_relay
  by (simp add: example_snapshot example_snapshot_text list_all_iff)

section \<open>Relay request handler: the header snapshot\<close>

lemma update_absent: "k \<notin> fst ` set al \<Longrightarrow> AList.update k v al = al @ [(k, v)]"
  by (induction al) auto

lemma own_put_append:
  "array_index k = None \<Longrightarrow> k \<notin> fst ` set kvs \<Longrightarrow> own_put kvs k v = kvs @ [(k, v)]"
  by (simp add: own_put_def update_absent)

lemma collect_header_plain:
  assumes "proto obj = ObjectPrototype" "k \<notin> fst ` set (props obj)"
    and "k \<notin> set object_prototype_methods" "k \<noteq> js_of ''__proto__''" "array_index k = None"
  shows "collect_header strip obj (k, v) =
           (if toLowerCase k \<in> set strip then obj else obj\<lparr>props := props obj @ [(k, JStr v)]\<rparr>)"
proof -
  have m: "map_of (props obj) k = None" using assms(2) by (simp add: map_of_eq_None_iff)
  have g: "obj_get obj k = JUndefined" using assms(1,3,4) by (simp add: obj_get_def m)
  have s: "obj_set obj k (JStr v) = obj\<lparr>props := props obj @ [(k, JStr v)]\<rparr>"
    using assms(2,4,5) by (simp add: obj_set_def own_put_append)
  show ?thesis by (simp add: collect_header_def Let_def g s)
qed

lemma collect_fold_plain:
  assumes "proto obj = ObjectPrototype" "distinct (map fst es)"
    and "\<forall>k\<in>fst ` set es. k \<notin> fst ` set (props obj) \<and> k \<notin> set object_prototype_methods
            \<and> k \<noteq> js_of ''__proto__'' \<and> array_index k = None"
  shows "foldl (collect_header strip) obj es
           = obj\<lparr>props := props obj @ map (\<lambda>kv. (fst kv, JStr (snd kv)))
                                          (filter (\<lambda>kv. toLowerCase (fst kv) \<notin> set strip) es)\<rparr>"
  using assms
proof (induction es arbitrary: obj)
  case Nil
  then show ?case by simp
next
  case (Cons e es)
  obtain k v where e: "e = (k, v)" by (cases e)
  from Cons.prems(3) e have k: "k \<notin> fst ` set (props obj)" "k \<notin> set object_prototype_methods"
    "k \<noteq> js_of ''__proto__''" "array_index k = None" by auto
  let ?obj' = "collect_header strip obj (k, v)"
  have step: "?obj' = (if toLowerCase k \<in> set strip then obj
                       else obj\<lparr>props := props obj @ [(k, JStr v)]\<rparr>)"
    by (rule collect_header_plain[OF Cons.prems(1) k])
  have p': "proto ?obj' = ObjectPrototype" using Cons.prems(1) by (simp add: step)
  have d': "distinct (map fst es)" using Cons.prems(2) by simp
  have knew: "k \<notin> fst ` set es" using Cons.prems(2) e by (simp add: image_iff)
  have keys': "fst ` set (props ?obj') \<subseteq> insert k (fst ` set (props obj))"
    by (auto simp: step)
  have c': "\<forall>k'\<in>fst ` set es. k' \<notin> fst ` set (props ?obj') \<and> k' \<notin> set object_prototype_methods
            \<and> k' \<noteq> js_of ''__proto__'' \<and> array_index k' = None"
  proof
    fix k' assume in_es: "k' \<in> fst ` set es"
    with Cons.prems(3) have old: "k' \<notin> fst ` set (props obj)" "k' \<notin> set object_prototype_methods"
      "k' \<noteq> js_of ''__proto__''" "array_index k' = None" by auto
    from in_es knew have "k' \<noteq> k" by auto
    with old(1) keys' have "k' \<notin> fst ` set (props ?obj')" by auto
    with old show "k' \<notin> fst ` set (props ?obj') \<and> k' \<notin> set object_prototype_methods
            \<and> k' \<noteq> js_of ''__proto__'' \<and> array_index k' = None" by simp
  qed
  have "foldl (collect_header strip) obj (e # es) = foldl (collect_header strip) ?obj' es"
    by (simp add: e)
  also have "\<dots> = ?obj'\<lparr>props := props ?obj' @ map (\<lambda>kv. (fst kv, JStr (snd kv)))
                                          (filter (\<lambda>kv. toLowerCase (fst kv) \<notin> set strip) es)\<rparr>"
    by (rule Cons.IH[OF p' d' c'])
  also have "\<dots> = obj\<lparr>props := props obj @ map (\<lambda>kv. (fst kv, JStr (snd kv)))
                                          (filter (\<lambda>kv. toLowerCase (fst kv) \<notin> set strip) (e # es))\<rparr>"
    by (simp add: step e)
  finally show ?case .
qed

text \<open>
  Where the upstream response has no two entries of one name (no second \<open>set-cookie\<close>), no
  name that \<open>Object.prototype\<close> defines and no name that is an array index, the object
  collected is the snapshot of its headers without those of the deny-list.
\<close>

lemma collectResponseHeaders_exact:
  assumes "distinct (map fst (headers_entries hs))"
    and "\<forall>k\<in>fst ` set (headers_entries hs). k \<notin> set object_prototype_methods
            \<and> k \<noteq> js_of ''__proto__'' \<and> array_index k = None"
  shows "collectResponseHeaders strip hs = header_snapshot strip hs"
proof -
  have "foldl (collect_header strip) empty_object (headers_entries hs)
          = empty_object\<lparr>props := props empty_object @ map (\<lambda>kv. (fst kv, JStr (snd kv)))
               (filter (\<lambda>kv. toLowerCase (fst kv) \<notin> set strip) (headers_entries hs))\<rparr>"
    by (rule collect_fold_plain) (use assms in \<open>simp_all add: empty_object_def\<close>)
  then show ?thesis
    by (simp add: collectResponseHeaders_def header_snapshot_def empty_object_def)
qed

text \<open>
  Whenever the target answers (\<open>relay\<close> reaches \<open>Fetched\<close>), whatever its status, the handler
  replies with status 200 and the body of the target, and the reply carries the status of
  the target in \<open>x-bare-status\<close>, its status text, which \<open>Headers\<close> trims, in
  \<open>x-bare-status-text\<close>, and in \<open>x-bare-headers\<close> the JSON text of the object collected: under
  the conditions above, the snapshot of the headers of the target.
\<close>

lemma relay_wrapper_and_sidecar:
  assumes "relay U F request = Fetched response"
  shows "resp_status (handleBareV3Request U F uuid request cors strip) = 200"
    and "resp_body (handleBareV3Request U F uuid request cors strip) = Stream (up_body response)"
    and "headers_get (resp_headers (handleBareV3Request U F uuid request cors strip))
            (js_of ''x-bare-status'') = Some (int_toString (up_status response))"
    and "headers_get (resp_headers (handleBareV3Request U F uuid request cors strip))
            (js_of ''x-bare-status-text'') = Some (normalize_value (up_statusText response))"
    and "headers_get (resp_headers (handleBareV3Request U F uuid request cors strip))
            (js_of ''x-bare-headers'')
          = Some (JSON_stringify_object (collectResponseHeaders strip (up_headers response)))"
    and "distinct (map fst (headers_entries (up_headers response))) \<Longrightarrow>
         \<forall>k\<in>fst ` set (headers_entries (up_headers response)).
            k \<notin> set object_prototype_methods \<and> k \<noteq> js_of ''__proto__'' \<and> array_index k = None \<Longrightarrow>
         headers_get (resp_headers (handleBareV3Request U F uuid request cors strip))
            (js_of ''x-bare-headers'')
          = Some (JSON_stringify_object (header_snapshot strip (up_headers response)))"
proof -
  have h: "handleBareV3Request U F uuid request cors strip
             = \<lparr> resp_status = 200,
                 resp_headers = buildBareResponseHeaders response cors strip,
                 resp_body = Stream (up_body response) \<rparr>"
    by (simp add: handleBareV3Request_def assms)
  show "resp_status (handleBareV3Request U F uuid request cors strip) = 200"
    and "resp_body (handleBareV3Request U F uuid request cors strip) = Stream (up_body response)"
    and "headers_get (resp_headers (handleBareV3Request U F uuid request cors strip))
            (js_of ''x-bare-status'') = Some (int_toString (up_status response))"
    and "headers_get (resp_headers (handleBareV3Request U F uuid request cors strip))
            (js_of ''x-bare-status-text'') = Some (normalize_value (up_statusText response))"
    and x: "headers_get (resp_headers (handleBareV3Request U F uuid request cors strip))
            (js_of ''x-bare-headers'')
          = Some (JSON_stringify_object (collectResponseHeaders strip (up_headers response)))"
    unfolding h by (simp_all add: buildBareResponseHeaders_sidecar)
  show "headers_get (resp_headers (handleBareV3Request U F uuid request cors strip))
            (js_of ''x-bare-headers'')
          = Some (JSON_stringify_object (header_snapshot strip (up_headers response)))"
    if "distinct (map fst (headers_entries (up_headers response)))"
      and "\<forall>k\<in>fst ` set (headers_entries (up_headers response)).
            k \<notin> set object_prototype_methods \<and> k \<noteq> js_of ''__proto__'' \<and> array_index k = None"
    using x collectResponseHeaders_exact[OF that] by simp
qed

lemma constructor_collected:
  "collectResponseHeaders STRIP_HEADERS (up_headers constructor_response)
     = [(js_of ''constructor'', JArr [JBuiltin, JStr (js_of ''c'')])]"
  by (simp add: collectResponseHeaders_def constructor_response_def headers_entries_def
        headers_values_def collect_header_def obj_get_def obj_set_def STRIP_HEADERS_def
        object_prototype_methods_def empty_object_def own_put_def array_index_def is_digit_def
        toLowerCase_def lower_unit_def js_of_def Let_def)

lemma constructor_collected_text:
  \<open>JSON_stringify_object [(js_of ''constructor'', JArr [JBuiltin, JStr (js_of ''c'')])]
     = js_of ''{"constructor":[null,"c"]}''\<close>
  by (simp add: JSON_stringify_object_def quote_json_def quote_unit_def is_high_surrogate_def
        is_low_surrogate_def js_of_def)

lemma constructor_snapshot_text:
  \<open>JSON_stringify_object (header_snapshot STRIP_HEADERS (up_headers constructor_response))
     = js_of ''{"constructor":"c"}''\<close>
  by (simp add: header_snapshot_def constructor_response_def headers_entries_def
        headers_values_def STRIP_HEADERS_def toLowerCase_def lower_unit_def
        JSON_stringify_object_def quote_json_def quote_unit_def is_high_surrogate_def
        is_low_surrogate_def js_of_def)

text \<open>
  C7.  A target answers the example request with status 200 and the one header
  \<open>constructor: c\<close>.  The handler replies with status 200 and \<open>x-bare-status: 200\<close>, but
  \<open>x-bare-headers\<close> is \<open>{"constructor":[null,"c"]}\<close>, where the snapshot of the headers of the
  target is \<open>{"constructor":"c"}\<close>: the test \<open>if (responseHeaders[key])\<close> finds the method that
  the empty object inherits and takes it for an earlier value of the header.
\<close>

theorem C7_snapshot_wraps_inherited_name:
  \<open>relay example_parser (\<lambda>_. Inr constructor_response) example_request
     = Fetched constructor_response
   \<and> resp_status (handleBareV3Request example_parser (\<lambda>_. Inr constructor_response)
                     (js_of ''id'') example_request CORS_HEADERS STRIP_HEADERS) = 200
   \<and> headers_get (resp_headers (handleBareV3Request example_parser (\<lambda>_. Inr constructor_response)
                     (js_of ''id'') example_request CORS_HEADERS STRIP_HEADERS))
        (js_of ''x-bare-status'') = Some (js_of ''200'')
   \<and> headers_get (resp_headers (handleBareV3Request example_parser (\<lambda>_. Inr constructor_response)
                     (js_of ''id'') example_request CORS_HEADERS STRIP_HEADERS))
        (js_of ''x-bare-headers'') = Some (js_of ''{"constructor":[null,"c"]}'')
   \<and> JSON_stringify_object (header_snapshot STRIP_HEADERS (up_headers constructor_response))
        = js_of ''{"constructor":"c"}''\<close>
proof -
  note r = example_relay_any[of constructor_response]
  have st: "int_toString (up_status constructor_response) = js_of ''200''"
    by (simp add: constructor_response_def int_toString_def dec_digits.simps js_of_def)
  show ?thesis
    using relay_wrapper_and_sidecar(1,3,5)[OF r, of "js_of ''id''" CORS_HEADERS STRIP_HEADERS] r
    by (simp add: st constructor_collected constructor_collected_text constructor_snapshot_text)
qed

theorem C7_snapshot_wraps_inherited_name_witness:
  \<open>headers_get (resp_headers (handleBareV3Request example_parser (\<lambda>_. Inr constructor_response)
                     (js_of ''id'') example_request CORS_HEADERS STRIP_HEADERS))
        (js_of ''x-bare-headers'')
     \<noteq> Some (JSON_stringify_object (header_snapshot STRIP_HEADERS (up_headers constructor_response)))\<close>
proof -
  have ne: \<open>js_of ''{"constructor":[null,"c"]}'' \<noteq> js_of ''{"constructor":"c"}''\<close>
    by (simp add: js_of_def)
  from C7_snapshot_wraps_inherited_name
  have x: \<open>headers_get (resp_headers (handleBareV3Request example_parser (\<lambda>_. Inr constructor_response)
                     (js_of ''id'') example_request CORS_HEADERS STRIP_HEADERS))
        (js_of ''x-bare-headers'') = Some (js_of ''{"constructor":[null,"c"]}'')\<close>
    and y: \<open>JSON_stringify_object (header_snapshot STRIP_HEADERS (up_headers constructor_response))
        = js_of ''{"constructor":"c"}''\<close>
    by blast+
  show ?thesis unfolding x y using ne by simp
qed

text \<open>
  A header named \<open>__proto__\<close> replaces the prototype of the object by an array, and the names
  after it then read the members of that array: here \<open>length\<close> reads 2.
\<close>

lemma proto_collected:
  \<open>JSON_stringify_object (collectResponseHeaders STRIP_HEADERS (up_headers proto_response))
     = js_of ''{"length":[2,"5"]}''\<close>
proof -
  have "collectResponseHeaders STRIP_HEADERS (up_headers proto_response)
          = [(js_of ''length'', JArr [JNum (Fin 2), JStr (js_of ''5'')])]"
    by (simp add: collectResponseHeaders_def proto_response_def headers_entries_def
        headers_values_def collect_header_def obj_get_def obj_set_def STRIP_HEADERS_def
        object_prototype_methods_def empty_object_def own_put_def array_index_def is_digit_def
        toLowerCase_def lower_unit_def js_of_def Let_def)
  then show ?thesis
    by (simp add: JSON_stringify_object_def quote_json_def quote_unit_def is_high_surrogate_def
        is_low_surrogate_def int_toString_def dec_digits.simps js_of_def)
qed

text \<open>
  A request whose \<open>x-bare-headers\<close> has a name that is not a token: \<open>headers.set\<close> throws, the
  target is not asked, and the handler answers 500.
\<close>

lemma invalid_name_rejected:
  "relay example_parser F invalid_name_request = Failed (js_of ''TypeError'')"
  "resp_status (handleBareV3Request example_parser F uuid invalid_name_request cors strip) = 500"
proof -
  have p: \<open>parseBareHeaders invalid_name_request
     = Inr \<lparr> bare_url = Some (js_of ''http://t/''),
             bare_headers = JObj [(js_of ''a b'', JStr (js_of ''1''))],
             forwardHeaders = JArr [], passHeaders = JArr [],
             passStatus = JArr [], bare_protocol = None, bare_host = None, bare_port = None,
             bare_path = None \<rparr>\<close>
    by (simp add: parseBareHeaders_def invalid_name_request_def headers_get_def headers_values_def
        toLowerCase_def lower_unit_def js_of_def present_def parse_name_list_def
        parse_status_list_def JSON_parse_def parse_value.simps parse_members.simps
        own_put_def array_index_def is_digit_def unescape_def
        skip_ws_def is_json_ws_def Let_def)
  show r: "relay example_parser F invalid_name_request = Failed (js_of ''TypeError'')"
    by (simp add: relay_def p buildTargetUrl_def present_def or_empty_def
        example_parser_def buildOutgoingHeaders_def add_bare_header_def headers_set_checked_def
        valid_header_name_def is_token_unit_def js_of_def)
  show "resp_status (handleBareV3Request example_parser F uuid invalid_name_request cors strip) = 500"
    by (simp add: handleBareV3Request_def r fetch_error_response_def)
qed

section \<open>URL codec: base64 and the round trip\<close>

lemma unat16_of_nat: "n < 65536 \<Longrightarrow> unat (of_nat n :: 16 word) = n"
  by (simp add: unat_of_nat)

lemma b64_code_bound: "b64_code i < 65536"
  by (auto simp: b64_code_def)

lemma unat_b64_char: "unat (b64_char i) = b64_code i"
  unfolding b64_char_def by (rule unat16_of_nat) (rule b64_code_bound)

lemma b64_index_char: "i < 64 \<Longrightarrow> b64_index (b64_char i) = Some i"
  unfolding b64_index_def Let_def unat_b64_char by (auto simp: b64_code_def)

lemma b64_char_not_pad: "i < 64 \<Longrightarrow> b64_char i \<noteq> 0x3D"
proof
  assume i: "i < 64" and "b64_char i = 0x3D"
  then have "unat (b64_char i) = 61" by simp
  with i show False unfolding unat_b64_char by (auto simp: b64_code_def split: if_splits)
qed

lemma b64_char_not_ws: "i < 64 \<Longrightarrow> \<not> is_ascii_ws (b64_char i)"
proof
  assume i: "i < 64" and "is_ascii_ws (b64_char i)"
  then have "unat (b64_char i) \<in> {9, 10, 12, 13, 32}"
    by (auto simp: is_ascii_ws_def)
  with i show False unfolding unat_b64_char by (auto simp: b64_code_def split: if_splits)
qed

lemma div16_bound: "(b::nat) < 256 \<Longrightarrow> b div 16 < 16"
  by (simp add: less_mult_imp_div_less)

lemma div64_bound: "(c::nat) < 256 \<Longrightarrow> c div 64 < 4"
  by (simp add: less_mult_imp_div_less)

lemma div4_bound: "(a::nat) < 256 \<Longrightarrow> a div 4 < 64"
  by (simp add: less_mult_imp_div_less)

lemma sextets_bound: "\<forall>b\<in>set bs. b < 256 \<Longrightarrow> \<forall>s\<in>set (sextets bs). s < 64"
proof (induction bs rule: sextets.induct)
  case (2 a)
  have "a mod 4 * 16 < 64" by (rule less_le_trans[of _ "4 * 16"]) simp_all
  with 2 div4_bound[of a] show ?case by simp
next
  case (3 a b)
  have "a mod 4 * 16 + b div 16 < 64" using div16_bound[of b] 3
    using mod_less_divisor[of 4 a] by simp
  moreover have "b mod 16 * 4 < 64" using mod_less_divisor[of 16 b] by linarith
  ultimately show ?case using 3 div4_bound[of a] by simp
next
  case (4 a b c rest)
  have "a mod 4 * 16 + b div 16 < 64" using div16_bound[of b] 4 mod_less_divisor[of 4 a]
    by simp
  moreover have "b mod 16 * 4 + c div 64 < 64" using div64_bound[of c] 4 mod_less_divisor[of 16 b]
    by simp
  ultimately show ?case using 4 div4_bound[of a] by simp
qed simp

lemma bytes_of_sextets_sextets: "\<forall>b\<in>set bs. b < 256 \<Longrightarrow> bytes_of_sextets (sextets bs) = bs"
proof (induction bs rule: sextets.induct)
  case 1
  then show ?case by simp
next
  case (2 a)
  then show ?case by simp
next
  case (3 a b)
  then show ?case using div16_bound[of b] by simp
next
  case (4 a b c rest)
  then show ?case using div16_bound[of b] div64_bound[of c] by simp
qed

lemma length_sextets_mod: "length (sextets bs) mod 4 \<noteq> 1"
  by (induction bs rule: sextets.induct) simp_all

lemma length_b64_encode: "length (b64_encode bs) mod 4 = 0"
  unfolding b64_encode_def
  by (induction bs rule: sextets.induct) simp_all

lemma latin1_take_bit: "(c :: 16 word) \<le> 0xFF \<longleftrightarrow> take_bit 8 c = c"
proof -
  have "(c \<le> 0xFF) = (unat c < 2 ^ 8)"
    by (simp add: word_le_nat_alt) linarith
  also have "\<dots> = (take_bit 8 (unat c) = unat c)"
    by (simp add: take_bit_nat_eq_self_iff)
  also have "\<dots> = (take_bit 8 c = c)"
    by (metis unsigned_take_bit_eq word_unat_eq_iff)
  finally show ?thesis .
qed

lemma xor2_latin1: "(c :: 16 word) \<le> 0xFF \<Longrightarrow> c XOR 2 \<le> 0xFF"
proof -
  assume "c \<le> 0xFF"
  then have c: "take_bit 8 c = c" by (simp add: latin1_take_bit)
  have "take_bit 8 (2 :: 16 word) = 2" by simp
  with c have "take_bit 8 (c XOR 2) = c XOR 2" by simp
  then show ?thesis by (simp add: latin1_take_bit)
qed

lemma xor2_twice: "((c :: 16 word) XOR 2) XOR 2 = c"
  by (simp add: xor.assoc)

lemma those_map_inverse: "\<forall>x\<in>set xs. f (g x) = Some x \<Longrightarrow> those (map f (map g xs)) = Some xs"
  by (induction xs) simp_all

lemma strip_padding_encoded:
  assumes "\<forall>c\<in>set body. c \<noteq> 0x3D" "k \<le> 2"
  shows "strip_padding (body @ replicate k 0x3D) = body"
proof -
  consider "k = 0" | "k = 1" | "k = 2" using assms(2) by linarith
  then show ?thesis
  proof cases
    case 1
    show ?thesis
    proof (cases "rev body")
      case Nil
      then show ?thesis using 1 by (simp add: strip_padding_def)
    next
      case (Cons c r)
      then have "c \<in> set body" by (metis list.set_intros(1) set_rev)
      with assms(1) have "c \<noteq> 0x3D" by blast
      with Cons 1 show ?thesis by (cases r) (simp_all add: strip_padding_def)
    qed
  next
    case 2
    show ?thesis
    proof (cases "rev body")
      case Nil
      then show ?thesis using 2 by (simp add: strip_padding_def)
    next
      case (Cons d r)
      then have "d \<in> set body" by (metis list.set_intros(1) set_rev)
      with assms(1) have "d \<noteq> 0x3D" by blast
      moreover have "rev (d # r) = body" using Cons by (metis rev_rev_ident)
      moreover have "rev (body @ replicate k 0x3D) = 0x3D # d # r" using Cons 2 by simp
      ultimately show ?thesis by (simp add: strip_padding_def)
    qed
  next
    case 3
    then have "rev (body @ replicate k 0x3D) = 0x3D # 0x3D # rev body"
      by (simp add: numeral_2_eq_2)
    then show ?thesis by (simp add: strip_padding_def)
  qed
qed

lemma atob_b64_encode:
  assumes "\<forall>b\<in>set bs. b < 256"
  shows "atob (b64_encode bs) = Inr (map of_nat bs)"
proof -
  let ?body = "map b64_char (sextets bs)"
  let ?k = "(3 - length bs mod 3) mod 3"
  have sx: "\<forall>s\<in>set (sextets bs). s < 64" by (rule sextets_bound[OF assms])
  have "\<not> is_ascii_ws 0x3D" by (simp add: is_ascii_ws_def)
  then have nows: "filter (\<lambda>c. \<not> is_ascii_ws c) (b64_encode bs) = b64_encode bs"
    using sx by (auto simp: b64_encode_def filter_id_conv b64_char_not_ws)
  have nopad: "\<forall>c\<in>set ?body. c \<noteq> 0x3D" using sx by (auto simp: b64_char_not_pad)
  have strip: "strip_padding (b64_encode bs) = ?body"
    unfolding b64_encode_def by (rule strip_padding_encoded[OF nopad]) simp
  have len: "length ?body mod 4 \<noteq> 1" using length_sextets_mod[of bs] by simp
  have idx: "those (map b64_index ?body) = Some (sextets bs)"
    by (rule those_map_inverse) (use sx in \<open>simp add: b64_index_char\<close>)
  have idx': "those (map (b64_index \<circ> b64_char) (sextets bs)) = Some (sextets bs)"
    using idx by simp
  show ?thesis
    unfolding atob_def Let_def nows
    using len by (simp add: length_b64_encode strip idx' bytes_of_sextets_sextets[OF assms])
qed

lemma map_unat_bound: "\<forall>c\<in>set (s :: 16 word list). c \<le> 0xFF \<Longrightarrow> \<forall>b\<in>set (map unat s). b < 256"
  by (auto simp: word_le_nat_alt)

lemma atob_btoa:
  assumes "\<forall>c\<in>set s. c \<le> 0xFF"
  shows "btoa s = Inr (b64_encode (map unat s))" and "atob (b64_encode (map unat s)) = Inr s"
proof -
  have "\<not> list_ex (\<lambda>c. 0xFF < c) s" using assms by (auto simp: list_ex_iff)
  then show "btoa s = Inr (b64_encode (map unat s))" by (simp add: btoa_def)
  show "atob (b64_encode (map unat s)) = Inr s"
    using atob_b64_encode[OF map_unat_bound[OF assms]] by (simp add: map_idI)
qed

text \<open>
  C1 (as amended).  On a string whose code units are all at most 255, \<open>encodeUrl\<close> returns a
  token and \<open>decodeUrl\<close> of that token returns the string.  On a string with a code unit
  above 255, \<open>encodeUrl\<close> throws the \<open>InvalidCharacterError\<close> of \<open>btoa\<close>.  On any value that
  is not a string, \<open>encodeUrl\<close> and \<open>decodeUrl\<close> throw a \<open>TypeError\<close>.
\<close>

theorem C1_codec_roundtrip_latin1:
  "((\<forall>c\<in>set u. c \<le> 0xFF) \<longrightarrow>
      (\<exists>token. encodeUrl (JStr u) = Inr token \<and> decodeUrl (JStr token) = Inr u))
   \<and> ((\<exists>c\<in>set u. 0xFF < c) \<longrightarrow> encodeUrl (JStr u) = Inl InvalidCharacterError)
   \<and> ((\<forall>s. v \<noteq> JStr s) \<longrightarrow> encodeUrl v = Inl TypeError \<and> decodeUrl v = Inl TypeError)"
proof (intro conjI)
  show "(\<forall>c\<in>set u. c \<le> 0xFF) \<longrightarrow>
     (\<exists>token. encodeUrl (JStr u) = Inr token \<and> decodeUrl (JStr token) = Inr u)"
  proof
    assume l: "\<forall>c\<in>set u. c \<le> 0xFF"
    let ?x = "map (\<lambda>c. c XOR 2) u"
    have lx: "\<forall>c\<in>set ?x. c \<le> 0xFF" using l by (auto simp: xor2_latin1)
    have twice: "map (\<lambda>c. c XOR 2) ?x = u" by (simp add: comp_def xor2_twice)
    have "encodeUrl (JStr u) = Inr (b64_encode (map unat ?x))"
      using atob_btoa(1)[OF lx] by (simp add: encodeUrl_def xor_codec_def)
    moreover have "decodeUrl (JStr (b64_encode (map unat ?x))) = Inr u"
      using atob_btoa(2)[OF lx] twice by (simp add: decodeUrl_def xor_codec_def)
    ultimately show "\<exists>token. encodeUrl (JStr u) = Inr token \<and> decodeUrl (JStr token) = Inr u"
      by blast
  qed
  show "(\<exists>c\<in>set u. 0xFF < c) \<longrightarrow> encodeUrl (JStr u) = Inl InvalidCharacterError"
  proof
    assume "\<exists>c\<in>set u. 0xFF < c"
    then obtain c where c: "c \<in> set u" "0xFF < c" by blast
    have "\<not> c XOR 2 \<le> 0xFF"
    proof
      assume "c XOR 2 \<le> 0xFF"
      from xor2_latin1[OF this] have "c \<le> 0xFF" by (simp add: xor2_twice)
      with c(2) show False by simp
    qed
    with c(1) have "list_ex (\<lambda>c. 0xFF < c) (map (\<lambda>c. c XOR 2) u)"
      by (auto simp: list_ex_iff not_le)
    then show "encodeUrl (JStr u) = Inl InvalidCharacterError"
      by (simp add: encodeUrl_def xor_codec_def btoa_def)
  qed
  show "(\<forall>s. v \<noteq> JStr s) \<longrightarrow> encodeUrl v = Inl TypeError \<and> decodeUrl v = Inl TypeError"
    by (cases v) (simp_all add: encodeUrl_def decodeUrl_def)
qed

theorem C1_codec_roundtrip_latin1_witness:
  "list_all (\<lambda>c. c \<le> 0xFF) (js_of ''https://google.com'')
   \<and> (\<exists>token. encodeUrl (JStr (js_of ''https://google.com'')) = Inr token
              \<and> decodeUrl (JStr token) = Inr (js_of ''https://google.com''))
   \<and> list_ex (\<lambda>c. 0xFF < c) (js_of ''https://t/'' @ [0x4F60])
   \<and> encodeUrl (JStr (js_of ''https://t/'' @ [0x4F60])) = Inl InvalidCharacterError
   \<and> encodeUrl (JNum (Fin 5)) = Inl TypeError \<and> decodeUrl (JNum (Fin 5)) = Inl TypeError"
proof -
  have a: "\<forall>c\<in>set (js_of ''https://google.com''). c \<le> 0xFF"
    by (simp add: js_of_def)
  have b: "\<exists>c\<in>set (js_of ''https://t/'' @ [0x4F60]). 0xFF < c"
    by (simp add: js_of_def)
  have c: "\<forall>s. JNum (Fin 5) \<noteq> JStr s" by simp
  from C1_codec_roundtrip_latin1[of "js_of ''https://google.com''" "JNum (Fin 5)"] a c
  have "\<exists>token. encodeUrl (JStr (js_of ''https://google.com'')) = Inr token
              \<and> decodeUrl (JStr token) = Inr (js_of ''https://google.com'')"
    and "encodeUrl (JNum (Fin 5)) = Inl TypeError \<and> decodeUrl (JNum (Fin 5)) = Inl TypeError"
    by blast+
  moreover from C1_codec_roundtrip_latin1[of "js_of ''https://t/'' @ [0x4F60]" JNull] b
  have "encodeUrl (JStr (js_of ''https://t/'' @ [0x4F60])) = Inl InvalidCharacterError"
    by blast
  ultimately show ?thesis using a b by (simp add: list_all_iff list_ex_iff)
qed

text \<open>
  C1 as the specification states it fails on a URL with a character above 255:
  \<open>encodeUrl\<close> throws on \<open>https://t/\<close> followed by U+4F60, so there is no token to
  decode.  (\<open>new URL\<close> accepts that string.)
\<close>

theorem C1_counterexample:
  "\<not> (\<exists>token. encodeUrl (JStr (js_of ''https://t/'' @ [0x4F60])) = Inr token
               \<and> decodeUrl (JStr token) = Inr (js_of ''https://t/'' @ [0x4F60]))"
proof -
  have "encodeUrl (JStr (js_of ''https://t/'' @ [0x4F60])) = Inl InvalidCharacterError"
    by (simp add: encodeUrl_def xor_codec_def btoa_def js_of_def)
  then show ?thesis by simp
qed

lemma encodeUrl_example:
  "encodeUrl (JStr (js_of ''https://google.com'')) = Inr (js_of ''anZ2cnE4LS1lbW1lbmcsYW1v'')"
  by (simp add: encodeUrl_def xor_codec_def btoa_def b64_encode_def b64_char_def b64_code_def
        js_of_def)

section \<open>Header codec\<close>

text \<open>
  \<open>decodeHeaders\<close> returns on every input, and returns the empty object on a missing or
  empty string and on a string that is not JSON.
\<close>

lemma decodeHeaders_never_raises: "\<exists>v. decodeHeaders t = Inr v"
  by (simp add: decodeHeaders_def split: option.splits sum.splits)

lemma decodeHeaders_malformed:
  "decodeHeaders None = Inr (JObj [])"
  "decodeHeaders (Some []) = Inr (JObj [])"
  "JSON_parse s = Inl e \<Longrightarrow> decodeHeaders (Some s) = Inr (JObj [])"
  by (simp_all add: decodeHeaders_def)

text \<open>
  A string that is JSON but not the JSON of an object is returned as the value it denotes.
\<close>

lemma decodeHeaders_null: "decodeHeaders (Some (js_of ''null'')) = Inr JNull"
  by (simp add: decodeHeaders_def JSON_parse_def parse_value.simps skip_ws_def is_json_ws_def
        js_of_def)

text \<open>
  C2.  The header map with the two entries \<open>Accept: text/html\<close> and \<open>__PROTO__: 1\<close> is
  encoded as \<open>{"accept":"text/html"}\<close>: the assignment to \<open>encoded['__proto__']\<close> creates no
  property.  Decoding gives back one header where the map with lower-cased keys has two.
\<close>

theorem C2_proto_header_lost:
  \<open>encodeHeaders (JObj [(js_of ''Accept'', JStr (js_of ''text/html'')),
                         (js_of ''__PROTO__'', JStr (js_of ''1''))])
     = js_of ''{"accept":"text/html"}''
   \<and> decodeHeaders (Some (encodeHeaders (JObj [(js_of ''Accept'', JStr (js_of ''text/html'')),
                                               (js_of ''__PROTO__'', JStr (js_of ''1''))])))
     = Inr (JObj [(js_of ''accept'', JStr (js_of ''text/html''))])
   \<and> map (\<lambda>kv. (toLowerCase (fst kv), snd kv))
         [(js_of ''Accept'', JStr (js_of ''text/html'')), (js_of ''__PROTO__'', JStr (js_of ''1''))]
     = [(js_of ''accept'', JStr (js_of ''text/html'')), (js_of ''__proto__'', JStr (js_of ''1''))]\<close>
proof -
  have enc: \<open>encodeHeaders (JObj [(js_of ''Accept'', JStr (js_of ''text/html'')),
                         (js_of ''__PROTO__'', JStr (js_of ''1''))])
     = js_of ''{"accept":"text/html"}''\<close>
    by (simp add: encodeHeaders_def obj_set_def empty_object_def own_put_def array_index_def
          is_digit_def object_prototype_methods_def toLowerCase_def lower_unit_def
          JSON_stringify_object_def quote_json_def quote_unit_def is_high_surrogate_def
          is_low_surrogate_def js_of_def)
  have dec: \<open>decodeHeaders (Some (js_of ''{"accept":"text/html"}''))
     = Inr (JObj [(js_of ''accept'', JStr (js_of ''text/html''))])\<close>
    by (simp add: decodeHeaders_def JSON_parse_def parse_value.simps parse_members.simps
          own_put_def array_index_def is_digit_def skip_ws_def is_json_ws_def unescape_def
          js_of_def)
  have low: "map (\<lambda>kv. (toLowerCase (fst kv), snd kv))
         [(js_of ''Accept'', JStr (js_of ''text/html'')), (js_of ''__PROTO__'', JStr (js_of ''1''))]
     = [(js_of ''accept'', JStr (js_of ''text/html'')), (js_of ''__proto__'', JStr (js_of ''1''))]"
    by (simp add: toLowerCase_def lower_unit_def js_of_def)
  show ?thesis unfolding enc dec low by simp
qed

text \<open>
  The input of C2 takes the main branch of \<open>encodeHeaders\<close> (it is a truthy object), and
  what \<open>decodeHeaders\<close> returns is not the map with the two lower-cased keys.
\<close>

theorem C2_proto_header_lost_witness:
  \<open>truthy (JObj [(js_of ''Accept'', JStr (js_of ''text/html'')),
                  (js_of ''__PROTO__'', JStr (js_of ''1''))])
   \<and> typeof_object (JObj [(js_of ''Accept'', JStr (js_of ''text/html'')),
                           (js_of ''__PROTO__'', JStr (js_of ''1''))])
   \<and> decodeHeaders (Some (encodeHeaders (JObj [(js_of ''Accept'', JStr (js_of ''text/html'')),
                                               (js_of ''__PROTO__'', JStr (js_of ''1''))])))
     \<noteq> Inr (JObj [(js_of ''accept'', JStr (js_of ''text/html'')),
                   (js_of ''__proto__'', JStr (js_of ''1''))])\<close>
proof -
  let ?h = \<open>JObj [(js_of ''Accept'', JStr (js_of ''text/html'')),
                  (js_of ''__PROTO__'', JStr (js_of ''1''))]\<close>
  have dec: \<open>decodeHeaders (Some (encodeHeaders ?h))
               = Inr (JObj [(js_of ''accept'', JStr (js_of ''text/html''))])\<close>
    using C2_proto_header_lost by (rule conjunct1[OF conjunct2])
  have "truthy ?h" "typeof_object ?h" by simp_all
  then show ?thesis unfolding dec by simp
qed

text \<open>A header map without such a key comes back with its keys lower-cased.\<close>

lemma header_roundtrip_example:
  \<open>decodeHeaders (Some (encodeHeaders (JObj [(js_of ''Content-Type'', JStr (js_of ''application/json'')),
                                               (js_of ''Accept'', JStr (js_of ''text/html''))])))
     = Inr (JObj [(js_of ''content-type'', JStr (js_of ''application/json'')),
                  (js_of ''accept'', JStr (js_of ''text/html''))])\<close>
proof -
  have enc: \<open>encodeHeaders (JObj [(js_of ''Content-Type'', JStr (js_of ''application/json'')),
                                   (js_of ''Accept'', JStr (js_of ''text/html''))])
     = js_of ''{"content-type":"application/json","accept":"text/html"}''\<close>
    by (simp add: encodeHeaders_def obj_set_def empty_object_def own_put_def array_index_def
          is_digit_def object_prototype_methods_def toLowerCase_def lower_unit_def
          JSON_stringify_object_def quote_json_def quote_unit_def is_high_surrogate_def
          is_low_surrogate_def js_of_def)
  show ?thesis unfolding enc
    by (simp add: decodeHeaders_def JSON_parse_def parse_value.simps parse_members.simps
          own_put_def array_index_def is_digit_def skip_ws_def is_json_ws_def unescape_def
          js_of_def)
qed

end
